(* ===== verification/Prelude.thy ===== *)
theory Prelude
  imports Main "HOL-Library.Word"
begin

text \<open>
  What every other theory shares: the collections of rewrite rules and introduction
  rules that carry the component proofs, Go's fixed-width integer conversions, Go's
  error values with their wrap chains, and the generic lemmas on lists and maps.
\<close>

section \<open>Collections\<close>

named_theorems go_defs "definitions of the helpers that a proof by evaluation unfolds"
named_theorems frame "what an operation leaves unchanged"
named_theorems inv_intros "preservation of the invariants by the operations"

section \<open>Go integers\<close>

text \<open>
  A Go \<open>int\<close> and \<open>int64\<close> value is an \<open>int\<close> here, and an \<open>int32\<close>
  conversion or addition wraps explicitly; a \<open>uint32\<close> is a \<open>32 word\<close>.
\<close>

type_synonym u32 = "32 word"

definition int32 :: "int \<Rightarrow> int" where
  "int32 i = (i + 2147483648) mod 4294967296 - 2147483648"

definition max_int64 :: int where "max_int64 = 9223372036854775807"
definition min_int64 :: int where "min_int64 = - 9223372036854775808"

lemma int32_id: "- 2147483648 \<le> i \<Longrightarrow> i < 2147483648 \<Longrightarrow> int32 i = i"
  by (simp add: int32_def)

lemma int32_bounds: "- 2147483648 \<le> int32 i \<and> int32 i < 2147483648"
proof -
  have "0 \<le> (i + 2147483648) mod 4294967296" "(i + 2147483648) mod 4294967296 < 4294967296"
    by simp_all
  then show ?thesis unfolding int32_def by linarith
qed

section \<open>Go errors\<close>

text \<open>
  A Go error is the list of causes that \<open>errors.Is\<close> and \<open>errors.As\<close> find along
  its wrap chain, together with its message. The sentinel variables of the packages are
  constructors, one datatype per package; a PostgreSQL error carries its SQLSTATE code.
\<close>

datatype repo_error =
  RepoAccountNotFound | RepoInvalidKey | RepoEmptyImapPassword
| RepoEmailNotFound | RepoEmailAlreadyExists | RepoInvalidSearchQuery
| RepoAttachmentNotFound
| RepoWebhookNotFound | RepoEmptyAccountID | RepoEmptyURL | RepoEmptySecret

datatype ingest_error = IngestAccountNotFound | IngestEmailAlreadyExists

datatype imap_error =
  ImapConnectionFailed | ImapTLSFailed | ImapAuthFailed | ImapTimeout | ImapListFoldersFailed
| ImapFolderNotFound | ImapSelectFailed | ImapMessageNotFound | ImapFetchFailed

datatype sync_error =
  SyncPoolClosed | SyncAccountExists | SyncAccountNotFound | SyncAccountNotStarted
| SyncPollerClosed | SyncCoordinatorClosed | SyncAlreadyClosed
| SyncIdleFailed | SyncIdleNotSupported | SyncCapsFailed

datatype smtp_error =
  SmtpConnectionFailed | SmtpTLSFailed | SmtpAuthFailed | SmtpTimeout | SmtpSendFailed

datatype crypto_error = CryptoInvalidKey | CryptoCiphertextTooShort | CryptoDecryptionFailed

datatype composer_error =
  ComposerNoRecipients | ComposerNoFrom | ComposerInvalidEmail | ComposerNoSubject
| ComposerNoBody | ComposerInvalidSubject | ComposerInvalidMessageID | ComposerMissingContentID

text \<open>A network error carries its \<open>Timeout()\<close>, an IMAP error its response code.\<close>

datatype cause =
  RepoErr repo_error | IngestErr ingest_error | ImapErr imap_error | SyncErr sync_error
| SmtpErr smtp_error | CryptoErr crypto_error | ComposerErr composer_error
| ContextCanceled | NoRows | PgError string | S3NotFound | S3NoSuchKey
| NetError bool | TlsError | ImapCode string | Other

record goerror =
  causes :: "cause list"
  msg :: string

type_synonym 'a res = "goerror + 'a"

text \<open>\<open>errors.Is\<close>, \<open>errors.New\<close> of a package variable, \<open>fmt.Errorf\<close> with
  \<open>%w\<close> of the cause at the end, and with \<open>%w: %v\<close>, which keeps only the sentinel.\<close>

definition errors_Is :: "goerror \<Rightarrow> cause \<Rightarrow> bool" where
  "errors_Is e c \<longleftrightarrow> c \<in> set (causes e)"

definition errors_New :: "cause \<Rightarrow> string \<Rightarrow> goerror" where
  "errors_New c m = \<lparr>causes = [c], msg = m\<rparr>"

definition Errorf_w :: "string \<Rightarrow> goerror \<Rightarrow> goerror" where
  "Errorf_w prefix e = \<lparr>causes = causes e, msg = prefix @ '': '' @ msg e\<rparr>"

definition Errorf_wv :: "cause \<Rightarrow> string \<Rightarrow> goerror \<Rightarrow> goerror" where
  "Errorf_wv c m e = \<lparr>causes = [c], msg = m @ '': '' @ msg e\<rparr>"

text \<open>\<open>%w: %w\<close>, which keeps both chains.\<close>

definition Errorf_ww :: "cause \<Rightarrow> string \<Rightarrow> goerror \<Rightarrow> goerror" where
  "Errorf_ww c m e = \<lparr>causes = c # causes e, msg = m @ '': '' @ msg e\<rparr>"

lemmas error_defs [go_defs] = errors_Is_def errors_New_def Errorf_w_def Errorf_wv_def

lemma errors_Is_New [simp]: "errors_Is (errors_New c m) c' \<longleftrightarrow> c' = c"
  by (auto simp: errors_Is_def errors_New_def)

lemma errors_Is_Errorf_w [simp]: "errors_Is (Errorf_w p e) c \<longleftrightarrow> errors_Is e c"
  by (simp add: errors_Is_def Errorf_w_def)

lemma errors_Is_Errorf_wv [simp]: "errors_Is (Errorf_wv c m e) c' \<longleftrightarrow> c' = c"
  by (auto simp: errors_Is_def Errorf_wv_def)

lemma errors_Is_Errorf_ww [simp]: "errors_Is (Errorf_ww c m e) c' \<longleftrightarrow> c' = c \<or> errors_Is e c'"
  by (auto simp: errors_Is_def Errorf_ww_def)

section \<open>Lists, maps and pairs\<close>

lemma distinct_map_filter_inj:
  "distinct (map f xs) \<Longrightarrow> x \<in> set xs \<Longrightarrow> y \<in> set xs \<Longrightarrow> f x = f y \<Longrightarrow> x = y"
  by (auto simp: distinct_map inj_on_def)

lemma distinct_map_filter: "distinct (map f xs) \<Longrightarrow> distinct (map f (filter P xs))"
  by (auto simp: distinct_map inj_on_def)

lemma image_filter_split:
  "y \<in> f ` A \<Longrightarrow> y \<notin> f ` {x \<in> A. P x} \<Longrightarrow> y \<in> f ` {x \<in> A. \<not> P x}"
  by auto

lemma map_map_eq_same:
  "(\<And>x. x \<in> set xs \<Longrightarrow> f (g x) = f x) \<Longrightarrow> map f (map g xs) = map f xs"
  by simp

lemma filter_eq_single:
  assumes "distinct (map f xs)" and "x \<in> set xs"
  shows "filter (\<lambda>y. f y = f x) xs = [x]"
  using assms
proof (induction xs)
  case Nil
  then show ?case by simp
next
  case (Cons a xs)
  show ?case
  proof (cases "a = x")
    case True
    with Cons.prems have "\<forall>y\<in>set xs. f y \<noteq> f x" by (auto simp: image_iff)
    then have "filter (\<lambda>y. f y = f x) xs = []" by (simp add: filter_empty_conv)
    with True show ?thesis by simp
  next
    case False
    with Cons.prems have "x \<in> set xs" "f a \<noteq> f x" by auto
    with Cons show ?thesis by simp
  qed
qed

lemma list_all2_partner: "list_all2 P xs ys \<Longrightarrow> y \<in> set ys \<Longrightarrow> \<exists>x\<in>set xs. P x y"
  by (induction rule: list_all2_induct) auto

lemma split_at_first:
  assumes "c \<notin> set x" and "c \<notin> set x'" and "x @ c # y = x' @ c # y'"
  shows "x = x' \<and> y = y'"
proof -
  have first: "takeWhile (\<lambda>d. d \<noteq> c) (u @ c # v) = u" if "c \<notin> set u" for u v
    using that by (induction u) auto
  from first [OF assms(1), of y] first [OF assms(2), of y'] assms(3) have "x = x'" by simp
  with assms(3) show ?thesis by simp
qed

lemma sorted_wrt_take_drop: "sorted_wrt P xs \<Longrightarrow> sorted_wrt P (take n (drop m xs))"
  by (simp add: sorted_wrt_drop sorted_wrt_take)

lemma take_drop_append: "take n xs @ take m (drop n xs) = take (n + m) xs"
  by (simp add: take_add)

end
