(* ===== verification/GoStrings.thy ===== *)
theory GoStrings
  imports Prelude
begin

text \<open>
  The functions of Go's \<open>strings\<close>, \<open>strconv\<close> and \<open>path/filepath\<close> packages that
  the program calls. A Go string is a sequence of bytes, a \<open>string\<close> (list of 8-bit
  characters) here, so lengths and indices are byte lengths and byte indices as in Go.
  \<open>None\<close> of \<open>Index\<close> is Go's \<open>-1\<close>. Where Go leaves the ASCII fast path for
  the Unicode tables, the table is an argument.
\<close>

section \<open>Searching and splitting\<close>

definition HasPrefix :: "string \<Rightarrow> string \<Rightarrow> bool" where
  "HasPrefix s p \<longleftrightarrow> length p \<le> length s \<and> take (length p) s = p"

definition HasSuffix :: "string \<Rightarrow> string \<Rightarrow> bool" where
  "HasSuffix s p \<longleftrightarrow> length p \<le> length s \<and> drop (length s - length p) s = p"

fun Index :: "string \<Rightarrow> string \<Rightarrow> nat option" where
  "Index [] sub = (if sub = [] then Some 0 else None)"
| "Index (c # s) sub =
     (if HasPrefix (c # s) sub then Some 0 else map_option Suc (Index s sub))"

definition Contains :: "string \<Rightarrow> string \<Rightarrow> bool" where
  "Contains s sub \<longleftrightarrow> Index s sub \<noteq> None"

definition ContainsAny :: "string \<Rightarrow> string \<Rightarrow> bool" where
  "ContainsAny s chars \<longleftrightarrow> list_ex (\<lambda>c. List.member chars c) s"

fun Join :: "string list \<Rightarrow> string \<Rightarrow> string" where
  "Join [] sep = []"
| "Join [x] sep = x"
| "Join (x # y # xs) sep = x @ sep @ Join (y # xs) sep"

text \<open>\<open>strings.Split\<close> and \<open>strings.ReplaceAll\<close> with a one-byte separator.\<close>

fun Split1 :: "string \<Rightarrow> char \<Rightarrow> string list" where
  "Split1 [] sep = [[]]"
| "Split1 (c # s) sep =
     (if c = sep then [] # Split1 s sep
      else (case Split1 s sep of [] \<Rightarrow> [[c]] | x # xs \<Rightarrow> (c # x) # xs))"

definition ReplaceAll1 :: "string \<Rightarrow> char \<Rightarrow> string \<Rightarrow> string" where
  "ReplaceAll1 s old new = concat (map (\<lambda>c. if c = old then new else [c]) s)"

lemma HasPrefix_append [simp]: "HasPrefix (p @ s) p"
  by (simp add: HasPrefix_def)

lemma HasPrefix_iff: "HasPrefix s p \<longleftrightarrow> (\<exists>t. s = p @ t)"
proof
  assume "HasPrefix s p"
  then have "s = p @ drop (length p) s"
    by (metis HasPrefix_def append_take_drop_id)
  then show "\<exists>t. s = p @ t" ..
qed (auto simp: HasPrefix_def)

lemma HasSuffix_iff: "HasSuffix s p \<longleftrightarrow> (\<exists>t. s = t @ p)"
proof
  assume "HasSuffix s p"
  then have "s = take (length s - length p) s @ p"
    by (metis HasSuffix_def append_take_drop_id)
  then show "\<exists>t. s = t @ p" ..
qed (auto simp: HasSuffix_def)

lemma Index_Some:
  "Index s sub = Some i \<Longrightarrow> \<exists>u v. s = u @ sub @ v \<and> length u = i"
proof (induction s arbitrary: i)
  case Nil
  then show ?case by (auto split: if_splits)
next
  case (Cons c s)
  show ?case
  proof (cases "HasPrefix (c # s) sub")
    case True
    with Cons.prems show ?thesis by (auto simp: HasPrefix_iff)
  next
    case False
    with Cons.prems obtain j where j: "Index s sub = Some j" "i = Suc j" by auto
    from Cons.IH [OF j(1)] obtain u v where "s = u @ sub @ v" "length u = j" by auto
    with j(2) have "c # s = (c # u) @ sub @ v \<and> length (c # u) = i" by simp
    then show ?thesis by blast
  qed
qed

lemma Index_None: "Index s sub = None \<Longrightarrow> s \<noteq> u @ sub @ v"
proof (induction s arbitrary: u)
  case Nil
  then show ?case by (auto split: if_splits)
next
  case (Cons c s)
  then have no: "\<not> HasPrefix (c # s) sub" and "Index s sub = None"
    by (auto split: if_splits)
  with Cons.IH have IH: "\<And>u. s \<noteq> u @ sub @ v" by blast
  show ?case
  proof (cases u)
    case Nil
    with no show ?thesis by (auto simp: HasPrefix_iff)
  next
    case (Cons a u')
    with IH [of u'] show ?thesis by auto
  qed
qed

lemma Contains_iff: "Contains s sub \<longleftrightarrow> (\<exists>u v. s = u @ sub @ v)"
  by (metis Contains_def Index_None Index_Some not_None_eq)

text \<open>\<open>Index\<close> finds the first occurrence.\<close>

lemma Index_first:
  assumes "Index s sub = Some i" and "s = u @ sub @ v"
  shows "i \<le> length u"
  using assms
proof (induction s arbitrary: u i)
  case Nil
  then show ?case by (auto split: if_splits)
next
  case (Cons c s)
  show ?case
  proof (cases "HasPrefix (c # s) sub")
    case True
    with Cons.prems(1) show ?thesis by simp
  next
    case False
    with Cons.prems(1) obtain j where j: "Index s sub = Some j" "i = Suc j" by auto
    from False Cons.prems(2) obtain a u' where u: "u = a # u'"
      by (cases u) (auto simp: HasPrefix_iff)
    with Cons.prems(2) have "s = u' @ sub @ v" by simp
    from Cons.IH [OF j(1) this] j(2) u show ?thesis by simp
  qed
qed

lemma Index_length: "Index s sub = Some i \<Longrightarrow> i + length sub \<le> length s"
  by (drule Index_Some) auto

lemma ContainsAny_iff: "ContainsAny s chars \<longleftrightarrow> (\<exists>c\<in>set s. c \<in> set chars)"
  by (auto simp: ContainsAny_def list_ex_iff)

subsection \<open>Split and join\<close>

lemma Split1_not_Nil [simp]: "Split1 s sep \<noteq> []"
  by (induction s) (auto split: list.splits)

lemma Join_Split1: "Join (Split1 s sep) [sep] = s"
proof (induction s)
  case Nil
  then show ?case by simp
next
  case (Cons c s)
  obtain x xs where s: "Split1 s sep = x # xs"
    by (meson Split1_not_Nil neq_Nil_conv)
  show ?case
  proof (cases "c = sep")
    case True
    with Cons s show ?thesis by simp
  next
    case False
    with Cons s show ?thesis by (cases xs) auto
  qed
qed

lemma Split1_no_sep: "l \<in> set (Split1 s sep) \<Longrightarrow> sep \<notin> set l"
  by (induction s arbitrary: l) (auto split: if_splits list.splits)

lemma Split1_free: "sep \<notin> set l \<Longrightarrow> Split1 l sep = [l]"
  by (induction l) auto

lemma Split1_append_sep:
  "sep \<notin> set l \<Longrightarrow> Split1 (l @ sep # s) sep = l # Split1 s sep"
  by (induction l) auto

lemma Split1_Join:
  assumes "ls \<noteq> []" and "\<forall>l\<in>set ls. sep \<notin> set l"
  shows "Split1 (Join ls [sep]) sep = ls"
  using assms
proof (induction ls rule: induct_list012)
  case (3 x y zs)
  then show ?case by (simp add: Split1_append_sep)
qed (auto simp: Split1_free)

lemma length_Split1: "length (Split1 s sep) = Suc (count_list s sep)"
  by (induction s) (auto split: list.splits)

lemma ReplaceAll1_simps [simp]:
  "ReplaceAll1 [] old new = []"
  "ReplaceAll1 (c # s) old new = (if c = old then new else [c]) @ ReplaceAll1 s old new"
  by (simp_all add: ReplaceAll1_def)

lemma ReplaceAll1_append [simp]:
  "ReplaceAll1 (s @ t) old new = ReplaceAll1 s old new @ ReplaceAll1 t old new"
  by (simp add: ReplaceAll1_def)

lemma ReplaceAll1_id: "old \<notin> set s \<Longrightarrow> ReplaceAll1 s old new = s"
  by (induction s) auto


section \<open>Trimming and case\<close>

text \<open>
  \<open>unicode.IsSpace\<close> as the UTF-8 encodings of the runes it accepts: the six ASCII
  spaces, U+0085, U+00A0, U+1680, U+2000 to U+200A, U+2028, U+2029, U+202F, U+205F and U+3000.
\<close>

definition ascii_space :: "char list" where
  "ascii_space = [CHR 0x09, CHR 0x0A, CHR 0x0B, CHR 0x0C, CHR 0x0D, CHR 0x20]"

definition space_runes :: "string list" where
  "space_runes =
     map (\<lambda>c. [c]) ascii_space @
     [[CHR 0xC2, CHR 0x85], [CHR 0xC2, CHR 0xA0], [CHR 0xE1, CHR 0x9A, CHR 0x80]] @
     map (\<lambda>c. [CHR 0xE2, CHR 0x80, c])
       [CHR 0x80, CHR 0x81, CHR 0x82, CHR 0x83, CHR 0x84, CHR 0x85, CHR 0x86, CHR 0x87,
        CHR 0x88, CHR 0x89, CHR 0x8A, CHR 0xA8, CHR 0xA9, CHR 0xAF] @
     [[CHR 0xE2, CHR 0x81, CHR 0x9F], [CHR 0xE3, CHR 0x80, CHR 0x80]]"

fun drop_prefix :: "string list \<Rightarrow> string \<Rightarrow> string option" where
  "drop_prefix [] s = None"
| "drop_prefix (p # ps) s =
     (if p \<noteq> [] \<and> HasPrefix s p then Some (drop (length p) s) else drop_prefix ps s)"

lemma drop_prefix_Some:
  "drop_prefix ps s = Some t \<Longrightarrow> \<exists>p\<in>set ps. p \<noteq> [] \<and> s = p @ t"
  by (induction ps) (auto simp: HasPrefix_iff split: if_splits)

lemma drop_prefix_None:
  "drop_prefix ps s = None \<longleftrightarrow> (\<forall>p\<in>set ps. p = [] \<or> \<not> HasPrefix s p)"
  by (induction ps) (auto split: if_splits)

lemma drop_prefix_shorter: "drop_prefix ps s = Some t \<Longrightarrow> length t < length s"
  by (auto dest: drop_prefix_Some)

function trim_left :: "string list \<Rightarrow> string \<Rightarrow> string" where
  "trim_left ps s = (case drop_prefix ps s of None \<Rightarrow> s | Some t \<Rightarrow> trim_left ps t)"
  by pat_completeness auto
termination
  by (relation "measure (\<lambda>(ps, s). length s)") (auto dest: drop_prefix_shorter)

declare trim_left.simps [simp del]

definition trim_right :: "string list \<Rightarrow> string \<Rightarrow> string" where
  "trim_right ps s = rev (trim_left (map rev ps) (rev s))"

definition TrimSpace :: "string \<Rightarrow> string" where
  "TrimSpace s = trim_right space_runes (trim_left space_runes s)"

lemma trim_left_suffix: "\<exists>u. s = u @ trim_left ps s"
proof (induction ps s rule: trim_left.induct)
  case (1 ps s)
  show ?case
  proof (cases "drop_prefix ps s")
    case None
    then have "s = [] @ trim_left ps s" by (simp add: trim_left.simps [of ps s])
    then show ?thesis by blast
  next
    case (Some t)
    from drop_prefix_Some [OF Some] obtain p where "s = p @ t" by blast
    moreover from "1.IH" [OF Some] obtain u where "t = u @ trim_left ps t" by blast
    moreover have "trim_left ps s = trim_left ps t"
      using Some by (subst trim_left.simps) simp
    ultimately have "s = (p @ u) @ trim_left ps s" by simp
    then show ?thesis ..
  qed
qed

lemma trim_left_clean: "drop_prefix ps (trim_left ps s) = None"
proof (induction ps s rule: trim_left.induct)
  case (1 ps s)
  then show ?case
    by (cases "drop_prefix ps s") (simp_all add: trim_left.simps [of ps s])
qed

lemma trim_left_id: "drop_prefix ps s = None \<Longrightarrow> trim_left ps s = s"
  by (simp add: trim_left.simps)

lemma TrimSpace_factor: "\<exists>u v. s = u @ TrimSpace s @ v"
proof -
  obtain u where u: "s = u @ trim_left space_runes s"
    using trim_left_suffix by blast
  let ?l = "trim_left space_runes s"
  obtain v where "rev ?l = v @ trim_left (map rev space_runes) (rev ?l)"
    using trim_left_suffix by blast
  then have "?l = TrimSpace s @ rev v"
    unfolding TrimSpace_def trim_right_def by (metis rev_append rev_rev_ident)
  with u show ?thesis by metis
qed

definition is_ascii :: "char \<Rightarrow> bool" where
  "is_ascii c \<longleftrightarrow> (of_char c :: nat) < 128"

definition lower_char :: "char \<Rightarrow> char" where
  "lower_char c =
     (if 65 \<le> (of_char c :: nat) \<and> (of_char c :: nat) \<le> 90 then char_of (of_char c + (32::nat)) else c)"

definition upper_char :: "char \<Rightarrow> char" where
  "upper_char c =
     (if 97 \<le> (of_char c :: nat) \<and> (of_char c :: nat) \<le> 122 then char_of (of_char c - (32::nat)) else c)"

text \<open>\<open>strings.ToLower\<close> and \<open>strings.ToUpper\<close>: byte by byte on an ASCII string,
  otherwise the map of the Unicode tables, the argument \<open>umap\<close>.\<close>

definition ToLower :: "(string \<Rightarrow> string) \<Rightarrow> string \<Rightarrow> string" where
  "ToLower umap s = (if list_all is_ascii s then map lower_char s else umap s)"

definition ToUpper :: "(string \<Rightarrow> string) \<Rightarrow> string \<Rightarrow> string" where
  "ToUpper umap s = (if list_all is_ascii s then map upper_char s else umap s)"

lemma length_ToLower_ascii: "list_all is_ascii s \<Longrightarrow> length (ToLower umap s) = length s"
  by (simp add: ToLower_def)

section \<open>Decimal numbers\<close>

definition digit_char :: "nat \<Rightarrow> char" where
  "digit_char d = char_of (48 + d)"

fun nat_digits :: "nat \<Rightarrow> string" where
  "nat_digits n =
     (if n < 10 then [digit_char n] else nat_digits (n div 10) @ [digit_char (n mod 10)])"

declare nat_digits.simps [simp del]

text \<open>\<open>strconv.Itoa\<close> and the \<open>%d\<close> verb.\<close>

definition Itoa :: "int \<Rightarrow> string" where
  "Itoa i = (if i < 0 then CHR ''-'' # nat_digits (nat (- i)) else nat_digits (nat i))"

definition digit_val :: "char \<Rightarrow> nat option" where
  "digit_val c =
     (if 48 \<le> (of_char c :: nat) \<and> (of_char c :: nat) \<le> 57 then Some (of_char c - 48) else None)"

fun digits_val :: "nat \<Rightarrow> string \<Rightarrow> nat option" where
  "digits_val acc [] = Some acc"
| "digits_val acc (c # s) =
     (case digit_val c of None \<Rightarrow> None | Some d \<Rightarrow> digits_val (10 * acc + d) s)"

text \<open>\<open>strconv.ParseInt(s, 10, 64)\<close> and \<open>strconv.Atoi\<close> on a 64-bit platform:
  \<open>None\<close> is a non-nil error, for a syntax error and for a value out of range.\<close>

definition ParseInt :: "string \<Rightarrow> int option" where
  "ParseInt s =
     (let neg = (s \<noteq> [] \<and> hd s = CHR ''-'');
          ds = (if s \<noteq> [] \<and> (hd s = CHR ''-'' \<or> hd s = CHR ''+'') then tl s else s)
      in if ds = [] then None
         else (case digits_val 0 ds of
                 None \<Rightarrow> None
               | Some n \<Rightarrow>
                   (if neg then (if int n \<le> 9223372036854775808 then Some (- int n) else None)
                    else (if int n \<le> 9223372036854775807 then Some (int n) else None))))"

lemma digit_val_digit_char: "d < 10 \<Longrightarrow> digit_val (digit_char d) = Some d"
  by (simp add: digit_val_def digit_char_def)

lemma digits_val_append:
  "digits_val acc (s @ t) = (case digits_val acc s of None \<Rightarrow> None | Some n \<Rightarrow> digits_val n t)"
  by (induction s arbitrary: acc) (auto split: option.splits)

lemma digits_val_nat_digits: "digits_val 0 (nat_digits n) = Some n"
proof (induction n rule: nat_digits.induct)
  case (1 n)
  then show ?case
    by (subst nat_digits.simps) (auto simp: digits_val_append digit_val_digit_char)
qed

lemma nat_digits_not_Nil [simp]: "nat_digits n \<noteq> []"
  by (subst nat_digits.simps) simp

lemma nat_digits_inject [simp]: "nat_digits m = nat_digits n \<longleftrightarrow> m = n"
  by (metis digits_val_nat_digits option.inject)

lemma nat_digits_digits: "c \<in> set (nat_digits n) \<Longrightarrow> digit_val c \<noteq> None"
proof (induction n rule: nat_digits.induct)
  case (1 n)
  show ?case
  proof (cases "n < 10")
    case True
    with "1.prems" have "c = digit_char n" by (subst (asm) nat_digits.simps) simp
    with True show ?thesis by (simp add: digit_val_digit_char)
  next
    case False
    with "1.prems" have "c \<in> set (nat_digits (n div 10)) \<or> c = digit_char (n mod 10)"
      by (subst (asm) nat_digits.simps) auto
    with "1.IH" [OF False] show ?thesis by (auto simp: digit_val_digit_char)
  qed
qed

lemma nondigit_notin_nat_digits: "digit_val c = None \<Longrightarrow> c \<notin> set (nat_digits n)"
  using nat_digits_digits by blast

lemma hd_nat_digits: "digit_val (hd (nat_digits n)) \<noteq> None"
  by (rule nat_digits_digits [OF hd_in_set [OF nat_digits_not_Nil]])

lemma Itoa_not_Nil [simp]: "Itoa i \<noteq> []"
  by (simp add: Itoa_def)

lemma Itoa_chars: "c \<in> set (Itoa i) \<Longrightarrow> c = CHR ''-'' \<or> digit_val c \<noteq> None"
  by (auto simp: Itoa_def dest: nat_digits_digits split: if_splits)

lemma minus_notin_nat_digits: "CHR ''-'' \<notin> set (nat_digits n)"
  by (rule nondigit_notin_nat_digits) (simp add: digit_val_def)

lemma Itoa_inject [simp]: "Itoa i = Itoa j \<longleftrightarrow> i = j"
proof
  assume eq: "Itoa i = Itoa j"
  have minus: "hd (nat_digits n) \<noteq> CHR ''-''" for n
    using minus_notin_nat_digits [of n] hd_in_set [OF nat_digits_not_Nil, of n] by metis
  show "i = j"
  proof (cases "i < 0"; cases "j < 0")
    assume "i < 0" "j < 0"
    with eq show "i = j" by (simp add: Itoa_def)
  next
    assume "\<not> i < 0" "\<not> j < 0"
    with eq show "i = j" by (simp add: Itoa_def)
  next
    assume "i < 0" "\<not> j < 0"
    with eq have "nat_digits (nat j) = CHR ''-'' # nat_digits (nat (- i))"
      by (simp add: Itoa_def)
    with minus [of "nat j"] show "i = j" by simp
  next
    assume "\<not> i < 0" "j < 0"
    with eq have "nat_digits (nat i) = CHR ''-'' # nat_digits (nat (- j))"
      by (simp add: Itoa_def)
    with minus [of "nat i"] show "i = j" by simp
  qed
qed simp

lemma ParseInt_Itoa:
  assumes "- 9223372036854775808 \<le> i" and "i \<le> 9223372036854775807"
  shows "ParseInt (Itoa i) = Some i"
proof (cases "i < 0")
  case True
  with assms show ?thesis
    by (simp add: ParseInt_def Itoa_def digits_val_nat_digits)
next
  case False
  have "hd (nat_digits (nat i)) \<noteq> CHR ''-''" "hd (nat_digits (nat i)) \<noteq> CHR ''+''"
    using hd_nat_digits [of "nat i"] by (auto simp: digit_val_def)
  with assms False show ?thesis
    by (simp add: ParseInt_def Itoa_def digits_val_nat_digits)
qed

lemma ParseInt_range:
  "ParseInt s = Some i \<Longrightarrow> - 9223372036854775808 \<le> i \<and> i \<le> 9223372036854775807"
  by (auto simp: ParseInt_def Let_def split: if_splits option.splits)

section \<open>File names\<close>

text \<open>\<open>filepath.Base\<close> on a Unix system.\<close>

definition filepath_Base :: "string \<Rightarrow> string" where
  "filepath_Base path =
     (if path = [] then ''.''
      else let stripped = rev (dropWhile (\<lambda>c. c = CHR ''/'') (rev path));
               base = rev (takeWhile (\<lambda>c. c \<noteq> CHR ''/'') (rev stripped))
           in if base = [] then ''/'' else base)"

lemma filepath_Base_not_Nil [simp]: "filepath_Base p \<noteq> []"
  by (simp add: filepath_Base_def Let_def)

lemma filepath_Base_no_slash:
  "filepath_Base p = ''/'' \<or> CHR ''/'' \<notin> set (filepath_Base p)"
  by (auto simp: filepath_Base_def Let_def dest: set_takeWhileD)

lemma filepath_Base_name:
  assumes "p \<noteq> []" and "CHR ''/'' \<notin> set p"
  shows "filepath_Base p = p"
proof -
  have "rev p \<noteq> []" "hd (rev p) \<noteq> CHR ''/''"
    using assms by (simp, metis Nil_is_rev_conv hd_in_set set_rev)
  then have "dropWhile (\<lambda>c. c = CHR ''/'') (rev p) = rev p"
    by (cases "rev p") simp_all
  moreover have "takeWhile (\<lambda>c. c \<noteq> CHR ''/'') (rev p) = rev p"
    using assms(2) by (subst takeWhile_eq_all_conv) auto
  ultimately show ?thesis using assms(1) by (simp add: filepath_Base_def Let_def del: takeWhile_eq_all_conv)
qed

end
