(* ===== verification/Domain.thy ===== *)
theory Domain
  imports GoStrings
begin

text \<open>
  The data of the program: \<open>internal/domain\<close> (the structs the packages exchange) and
  \<open>internal/db/models.go\<close> (the rows of the five tables), with the conversions of
  \<open>internal/repository/helpers.go\<close>. A UUID is its 128-bit value; a \<open>time.Time\<close> is its
  number of nanoseconds since 1 January of year 1 UTC, so the zero time is 0 and \<open>IsZero\<close>
  is equality with 0. A nullable column or a Go pointer is an option.
\<close>

type_synonym uuid = nat
type_synonym time = int

definition uuid_Nil :: uuid where "uuid_Nil = 0"

definition time_zero :: time where "time_zero = 0"

text \<open>Durations are nanoseconds, as in \<open>time.Duration\<close>.\<close>

definition second :: int where "second = 1000000000"
definition minute :: int where "minute = 60 * second"
definition hour :: int where "hour = 60 * minute"

lemmas duration_defs = second_def minute_def hour_def

text \<open>\<open>Time.Unix\<close>: seconds since 1970.\<close>

definition time_Unix :: "time \<Rightarrow> int" where
  "time_Unix t = t div 1000000000 - 62135596800"

section \<open>Domain structs\<close>

record EmailAddress =
  ea_Name :: string
  ea_Email :: string

record account =
  acc_ID :: uuid
  acc_Name :: string
  acc_ImapHost :: string
  acc_ImapPort :: int
  acc_ImapUser :: string
  acc_ImapPassword :: string
  acc_SmtpHost :: string
  acc_SmtpPort :: int
  acc_SmtpUser :: string
  acc_SmtpPassword :: string
  acc_CreatedAt :: time

record CreateAccountInput =
  cac_Name :: string
  cac_ImapHost :: string
  cac_ImapPort :: int
  cac_ImapUser :: string
  cac_ImapPassword :: string
  cac_SmtpHost :: string
  cac_SmtpPort :: int
  cac_SmtpUser :: string
  cac_SmtpPassword :: string

record attachment =
  att_ID :: uuid
  att_EmailID :: uuid
  att_Filename :: string
  att_ContentType :: string
  att_Size :: int
  att_S3Key :: string

text \<open>\<open>None\<close> of \<open>em_Attachments\<close> is the nil slice, which handlers test for.\<close>

record email =
  em_ID :: uuid
  em_AccountID :: uuid
  em_UID :: int
  em_MessageID :: string
  em_Folder :: string
  em_Subject :: string
  em_FromEmail :: string
  em_FromName :: string
  em_To :: "EmailAddress list"
  em_CC :: "EmailAddress list"
  em_Date :: time
  em_ParsedText :: string
  em_ParsedHTML :: string
  em_Raw :: string
  em_Flags :: "string list"
  em_DeletedUpstream :: bool
  em_CreatedAt :: time
  em_Attachments :: "attachment list option"

record CreateEmailInput =
  cei_AccountID :: uuid
  cei_UID :: int
  cei_MessageID :: string
  cei_Folder :: string
  cei_Subject :: string
  cei_FromEmail :: string
  cei_FromName :: string
  cei_To :: "EmailAddress list option"
  cei_CC :: "EmailAddress list option"
  cei_Date :: time
  cei_ParsedText :: string
  cei_ParsedHTML :: string
  cei_Raw :: string
  cei_Flags :: "string list option"

record CreateAttachmentInput =
  cai_EmailID :: uuid
  cai_Filename :: string
  cai_ContentType :: string
  cai_Size :: int
  cai_S3Key :: string

record ListEmailsFilter =
  lef_AccountID :: uuid
  lef_Folder :: string
  lef_Limit :: int
  lef_Offset :: int
  lef_Before :: "time option"
  lef_After :: "time option"

record SearchEmailsFilter =
  sef_AccountID :: uuid
  sef_Query :: string
  sef_Folder :: string
  sef_Limit :: int
  sef_Offset :: int

record webhook =
  wh_ID :: uuid
  wh_AccountID :: uuid
  wh_URL :: string
  wh_Secret :: string
  wh_CreatedAt :: time

record CreateWebhookInput =
  cwi_AccountID :: uuid
  cwi_URL :: string
  cwi_Secret :: string

section \<open>Table rows\<close>

text \<open>
  A JSONB recipient column holds the array of addresses that was stored in it, or a
  document that \<open>json.Unmarshal\<close> rejects with the given message.
\<close>

datatype jsonb = JAddrs "EmailAddress list" | JBad string

record account_row =
  dbA_ID :: uuid
  dbA_Name :: string
  dbA_ImapHost :: string
  dbA_ImapPort :: int
  dbA_ImapUser :: string
  dbA_ImapPassword :: string
  dbA_SmtpHost :: "string option"
  dbA_SmtpPort :: "int option"
  dbA_SmtpUser :: "string option"
  dbA_SmtpPassword :: "string option"
  dbA_CreatedAt :: time

record attachment_row =
  dbT_ID :: uuid
  dbT_EmailID :: uuid
  dbT_Filename :: string
  dbT_ContentType :: string
  dbT_Size :: int
  dbT_S3Key :: string

record email_row =
  dbE_ID :: uuid
  dbE_AccountID :: uuid
  dbE_Uid :: int
  dbE_MessageID :: "string option"
  dbE_Folder :: string
  dbE_Subject :: "string option"
  dbE_FromEmail :: "string option"
  dbE_FromName :: "string option"
  dbE_Date :: "time option"
  dbE_ParsedText :: "string option"
  dbE_ParsedHtml :: "string option"
  dbE_Raw :: "string option"
  dbE_Flags :: "string list option"
  dbE_DeletedUpstream :: "bool option"
  dbE_CreatedAt :: time
  dbE_ToRecipients :: "jsonb option"
  dbE_CcRecipients :: "jsonb option"

record webhook_row =
  dbW_ID :: uuid
  dbW_AccountID :: uuid
  dbW_Url :: string
  dbW_Secret :: string
  dbW_CreatedAt :: time

record queue_row =
  dbQ_ID :: uuid
  dbQ_WebhookID :: uuid
  dbQ_EmailID :: uuid
  dbQ_Payload :: string
  dbQ_Attempts :: "int option"
  dbQ_NextAttempt :: "time option"
  dbQ_Status :: string
  dbQ_CreatedAt :: time

section \<open>Conversions between the two\<close>

definition ptrString :: "string \<Rightarrow> string option" where
  "ptrString s = (if s = [] then None else Some s)"

definition ptrInt32 :: "int \<Rightarrow> int option" where
  "ptrInt32 i = (if i = 0 then None else Some (int32 i))"

definition derefString :: "string option \<Rightarrow> string" where
  "derefString s = (case s of None \<Rightarrow> [] | Some t \<Rightarrow> t)"

definition derefInt32 :: "int option \<Rightarrow> int" where
  "derefInt32 i = (case i of None \<Rightarrow> 0 | Some j \<Rightarrow> j)"

definition timeToPgtype :: "time \<Rightarrow> time option" where
  "timeToPgtype t = (if t = time_zero then None else Some t)"

lemma derefString_ptrString [simp]: "derefString (ptrString s) = s"
  by (simp add: derefString_def ptrString_def)

lemma derefInt32_ptrInt32: "- 2147483648 \<le> i \<Longrightarrow> i < 2147483648 \<Longrightarrow> derefInt32 (ptrInt32 i) = i"
  by (simp add: derefInt32_def ptrInt32_def int32_id)

end
