(* ===== verification/Encoding.thy ===== *)
theory Encoding
  imports GoStrings
begin

text \<open>
  The byte encodings of Go's standard library that the program uses:
  \<open>encoding/hex\<close> and \<open>encoding/base64\<close>'s \<open>StdEncoding\<close>, with their round trips.
  Decoding returns \<open>None\<close> where Go returns a non-nil error.
\<close>

section \<open>Bytes as numbers\<close>

abbreviation byte_val :: "char \<Rightarrow> nat" where "byte_val c \<equiv> of_char c"

lemma byte_val_less [simp]: "byte_val c < 256"
  by (metis of_char_mod_256 mod_less_divisor zero_less_numeral)

lemma char_of_byte_val [simp]: "char_of (byte_val c) = c"
  by simp

section \<open>Hexadecimal\<close>

definition hex_digit :: "nat \<Rightarrow> char" where
  "hex_digit n = (if n < 10 then char_of (48 + n) else char_of (87 + n))"

definition hex_val :: "char \<Rightarrow> nat option" where
  "hex_val c =
     (let n = byte_val c in
      if 48 \<le> n \<and> n \<le> 57 then Some (n - 48)
      else if 97 \<le> n \<and> n \<le> 102 then Some (n - 87)
      else if 65 \<le> n \<and> n \<le> 70 then Some (n - 55) else None)"

fun hex_EncodeToString :: "string \<Rightarrow> string" where
  "hex_EncodeToString [] = []"
| "hex_EncodeToString (c # s) =
     hex_digit (byte_val c div 16) # hex_digit (byte_val c mod 16) # hex_EncodeToString s"

fun hex_DecodeString :: "string \<Rightarrow> string option" where
  "hex_DecodeString [] = Some []"
| "hex_DecodeString [c] = None"
| "hex_DecodeString (a # b # s) =
     (case (hex_val a, hex_val b, hex_DecodeString s) of
        (Some x, Some y, Some t) \<Rightarrow> Some (char_of (16 * x + y) # t)
      | _ \<Rightarrow> None)"

lemma hex_val_digit: "n < 16 \<Longrightarrow> hex_val (hex_digit n) = Some n"
  by (auto simp: hex_val_def hex_digit_def Let_def)

lemma hex_roundtrip: "hex_DecodeString (hex_EncodeToString s) = Some s"
proof (induction s)
  case (Cons c s)
  have "byte_val c div 16 < 16" using byte_val_less [of c] by linarith
  then show ?case by (simp add: Cons hex_val_digit)
qed simp

lemma hex_EncodeToString_inject: "hex_EncodeToString s = hex_EncodeToString t \<Longrightarrow> s = t"
  by (metis hex_roundtrip option.inject)

lemma length_hex_DecodeString: "hex_DecodeString s = Some t \<Longrightarrow> length s = 2 * length t"
  by (induction s arbitrary: t rule: hex_DecodeString.induct) (auto split: option.splits)

section \<open>Base64\<close>

definition b64_alphabet :: string where
  "b64_alphabet = ''ABCDEFGHIJKLMNOPQRSTUVWXYZabcdefghijklmnopqrstuvwxyz0123456789+/''"

definition b64_char :: "nat \<Rightarrow> char" where
  "b64_char n =
     (if n < 26 then char_of (65 + n) else if n < 52 then char_of (71 + n)
      else if n < 62 then char_of (n - 4) else if n = 62 then CHR ''+'' else CHR ''/'')"

definition b64_val :: "char \<Rightarrow> nat option" where
  "b64_val c =
     (let n = byte_val c in
      if 65 \<le> n \<and> n \<le> 90 then Some (n - 65)
      else if 97 \<le> n \<and> n \<le> 122 then Some (n - 71)
      else if 48 \<le> n \<and> n \<le> 57 then Some (n + 4)
      else if n = 43 then Some 62 else if n = 47 then Some 63 else None)"

lemma b64_alphabet_chars: "b64_alphabet = map b64_char [0..<64]"
  by code_simp

lemma b64_val_char: "n < 64 \<Longrightarrow> b64_val (b64_char n) = Some n"
  by (auto simp: b64_val_def b64_char_def Let_def)

lemma b64_char_not_pad: "n < 64 \<Longrightarrow> b64_char n \<noteq> CHR ''=''"
  using b64_val_char [of n] by (auto simp: b64_val_def)

lemma b64_char_not_newline:
  "n < 64 \<Longrightarrow> b64_char n \<noteq> CHR 0x0A \<and> b64_char n \<noteq> CHR 0x0D"
  using b64_val_char [of n] by (auto simp: b64_val_def)

text \<open>Three bytes are four digits; the last one or two bytes are padded with \<open>=\<close>.\<close>

fun base64_Encode :: "string \<Rightarrow> string" where
  "base64_Encode [] = []"
| "base64_Encode [a] =
     [b64_char (byte_val a div 4), b64_char (byte_val a mod 4 * 16), CHR ''='', CHR ''='']"
| "base64_Encode [a, b] =
     [b64_char (byte_val a div 4), b64_char (byte_val a mod 4 * 16 + byte_val b div 16),
      b64_char (byte_val b mod 16 * 4), CHR ''='']"
| "base64_Encode (a # b # c # s) =
     b64_char (byte_val a div 4) # b64_char (byte_val a mod 4 * 16 + byte_val b div 16)
     # b64_char (byte_val b mod 16 * 4 + byte_val c div 64) # b64_char (byte_val c mod 64)
     # base64_Encode s"

fun b64_groups :: "string \<Rightarrow> string option" where
  "b64_groups [] = Some []"
| "b64_groups (a # b # c # d # s) =
     (case (b64_val a, b64_val b) of
        (Some x, Some y) \<Rightarrow>
          (if c = CHR ''='' then
             (if d = CHR ''='' \<and> s = [] then Some [char_of (x * 4 + y div 16)] else None)
           else
             (case b64_val c of
                None \<Rightarrow> None
              | Some z \<Rightarrow>
                  (if d = CHR ''='' then
                     (if s = [] then Some [char_of (x * 4 + y div 16), char_of (y mod 16 * 16 + z div 4)]
                      else None)
                   else
                     (case (b64_val d, b64_groups s) of
                        (Some v, Some t) \<Rightarrow>
                          Some (char_of (x * 4 + y div 16) # char_of (y mod 16 * 16 + z div 4)
                                # char_of (z mod 4 * 64 + v) # t)
                      | _ \<Rightarrow> None))))
      | _ \<Rightarrow> None)"
| "b64_groups s = None"

text \<open>The decoder skips carriage returns and newlines wherever they stand.\<close>

definition base64_Decode :: "string \<Rightarrow> string option" where
  "base64_Decode s = b64_groups (filter (\<lambda>c. c \<noteq> CHR 0x0A \<and> c \<noteq> CHR 0x0D) s)"

lemma b64_digit_bounds:
  "byte_val a div 4 < 64" "byte_val a mod 4 * 16 < 64" "byte_val b mod 16 * 4 < 64"
  "byte_val a mod 4 * 16 + byte_val b div 16 < 64"
  "byte_val b mod 16 * 4 + byte_val c div 64 < 64" "byte_val c mod 64 < 64"
  using byte_val_less [of a] byte_val_less [of b] byte_val_less [of c]
    mod_less_divisor [of 4 "byte_val a"] mod_less_divisor [of 16 "byte_val b"]
  by (simp_all, linarith+)

text \<open>The bit groups of three bytes, put back together.\<close>

lemma b64_regroup:
  fixes x y z :: nat
  assumes "y < 256" and "z < 256"
  shows "y div 16 div 16 = 0"
    and "y div 16 mod 16 * 16 + y mod 16 = y"
    and "z div 64 div 4 = 0"
    and "z div 64 mod 4 * 64 + z mod 64 = z"
proof -
  have "y div 16 < 16" "z div 64 < 4" using assms by linarith+
  then show "y div 16 div 16 = 0" "z div 64 div 4 = 0"
    and "y div 16 mod 16 * 16 + y mod 16 = y" "z div 64 mod 4 * 64 + z mod 64 = z"
    by simp_all
qed

lemmas b64_regroup_byte = b64_regroup [OF byte_val_less byte_val_less]

lemma base64_Encode_newline_free:
  "filter (\<lambda>c. c \<noteq> CHR 0x0A \<and> c \<noteq> CHR 0x0D) (base64_Encode s) = base64_Encode s"
  by (induction s rule: base64_Encode.induct) (simp_all add: b64_char_not_newline b64_digit_bounds)

lemma b64_groups_Encode: "b64_groups (base64_Encode s) = Some s"
  by (induction s rule: base64_Encode.induct)
    (simp_all add: b64_val_char b64_char_not_pad b64_digit_bounds b64_regroup_byte)

lemma base64_roundtrip: "base64_Decode (base64_Encode s) = Some s"
  by (simp add: base64_Decode_def base64_Encode_newline_free b64_groups_Encode)

lemma base64_Encode_Nil_iff [simp]: "base64_Encode s = [] \<longleftrightarrow> s = []"
  by (cases s rule: base64_Encode.cases) auto

lemma b64_char_ascii: "n < 64 \<Longrightarrow> 0 < byte_val (b64_char n) \<and> byte_val (b64_char n) < 128"
  by (auto simp: b64_char_def)

lemma base64_Encode_ascii: "c \<in> set (base64_Encode s) \<Longrightarrow> 0 < byte_val c \<and> byte_val c < 128"
  by (induction s rule: base64_Encode.induct) (auto simp: b64_char_ascii b64_digit_bounds)

end
