(* ===== verification/Externals.thy ===== *)
theory Externals
  imports Domain Encoding
begin

text \<open>
  The functions that the program calls and that are not in its repository, in one
  record that the definitions take as an argument: the text of a UUID
  (\<open>github.com/google/uuid\<close>, \<open>pgtype\<close>), AES-256-GCM, HMAC-SHA256, the quoting of \<open>%q\<close>, the JSON
  encoder of the webhook payload, Go's Unicode tables. What a theorem needs of one of them is a
  hypothesis of that theorem, named below.
\<close>

record externals =
  x_uuid_String :: "uuid \<Rightarrow> string"
  x_uuid_Parse :: "string \<Rightarrow> uuid res"
  x_pguuid_String :: "uuid \<Rightarrow> string"
  x_quote :: "string \<Rightarrow> string"
  x_gcm_seal :: "string \<Rightarrow> string \<Rightarrow> string \<Rightarrow> string"
  x_gcm_open :: "string \<Rightarrow> string \<Rightarrow> string \<Rightarrow> string option"
  x_hmac_sha256 :: "string \<Rightarrow> string \<Rightarrow> string"
  x_unicode_lower :: "string \<Rightarrow> string"
  x_unicode_upper :: "string \<Rightarrow> string"

text \<open>Opening what was sealed under the same key and nonce gives the plaintext: the
  correctness of an AEAD.\<close>

definition gcm_correct :: "externals \<Rightarrow> bool" where
  "gcm_correct x \<longleftrightarrow>
     (\<forall>key nonce plain. x_gcm_open x key nonce (x_gcm_seal x key nonce plain) = Some plain)"

text \<open>Parsing the text of a UUID gives the UUID, and the text has no separator of a key.\<close>

definition uuid_text_ok :: "externals \<Rightarrow> bool" where
  "uuid_text_ok x \<longleftrightarrow>
     (\<forall>i. x_uuid_Parse x (x_uuid_String x i) = Inr i \<and> CHR ''/'' \<notin> set (x_uuid_String x i))"

lemma uuid_String_inject:
  "uuid_text_ok x \<Longrightarrow> x_uuid_String x i = x_uuid_String x j \<longleftrightarrow> i = j"
  by (metis sum.inject(2) uuid_text_ok_def)

text \<open>\<open>fmt\<close>'s \<open>%v\<close> of a \<open>[16]byte\<close>.\<close>

fun be_bytes :: "nat \<Rightarrow> nat \<Rightarrow> nat list" where
  "be_bytes 0 n = []"
| "be_bytes (Suc k) n = be_bytes k (n div 256) @ [n mod 256]"

definition uuid_bytes_v :: "uuid \<Rightarrow> string" where
  "uuid_bytes_v i = ''['' @ Join (map nat_digits (be_bytes 16 i)) '' '' @ '']''"

section \<open>A concrete instance\<close>

text \<open>
  An instance with which the hypotheses above hold, for evaluating the model on concrete inputs:
  decimal UUIDs, and an AEAD whose tag is the key.
\<close>

definition demo_externals :: externals where
  "demo_externals = \<lparr>
     x_uuid_String = nat_digits,
     x_uuid_Parse = (\<lambda>s. case digits_val 0 s of
        None \<Rightarrow> Inl (errors_New Other ''invalid UUID'')
      | Some n \<Rightarrow> (if s = nat_digits n then Inr n else Inl (errors_New Other ''invalid UUID''))),
     x_pguuid_String = nat_digits,
     x_quote = (\<lambda>s. CHR 0x22 # s @ [CHR 0x22]),
     x_gcm_seal = (\<lambda>key nonce plain. key @ plain),
     x_gcm_open = (\<lambda>key nonce c. if take (length key) c = key then Some (drop (length key) c) else None),
     x_hmac_sha256 = (\<lambda>key m. key @ m),
     x_unicode_lower = (\<lambda>s. s),
     x_unicode_upper = (\<lambda>s. s)\<rparr>"

lemma demo_gcm [simp]: "gcm_correct demo_externals"
  by (simp add: gcm_correct_def demo_externals_def)

lemma demo_uuid [simp]: "uuid_text_ok demo_externals"
proof -
  have "CHR ''/'' \<notin> set (nat_digits i)" for i
    by (rule nondigit_notin_nat_digits) (simp add: digit_val_def)
  then show ?thesis
    by (simp add: uuid_text_ok_def demo_externals_def digits_val_nat_digits)
qed

end
