(* ===== verification/Database.thy ===== *)
theory Database
  imports Externals
begin

text \<open>
  The database as the program uses it: the tables of \<open>migrations/\<close> and the SQL of
  \<open>internal/db/*.sql.go\<close>, one function per query. A query runs against the world, which
  also holds the object store, the log of the HTTP requests that reached an endpoint, the clock, the sources of randomness (the \<open>draws\<close>-th UUID or
  byte string drawn) and a script: the outcome of every external call in the order the program
  makes them. A call may be healthy, be refused without effect, take effect while
  its reply is lost, or be preceded by writes that another goroutine commits (\<open>Raced\<close>).
  Theorems quantify over all worlds and so over all failures and interleavings.
\<close>

section \<open>Tables and the world\<close>

record database =
  tAccounts :: "account_row list"
  tEmails :: "email_row list"
  tAttachments :: "attachment_row list"
  tWebhooks :: "webhook_row list"
  tQueue :: "queue_row list"

type_synonym objects = "string \<rightharpoonup> string"

datatype outcome =
  Healthy
| Refused goerror
| Lost goerror
| Raced database objects

record HttpRequest =
  rq_URL :: string
  rq_ContentType :: string
  rq_Timestamp :: string
  rq_Signature :: string
  rq_Body :: string

record world =
  db :: database
  objects :: objects
  http_log :: "HttpRequest list"
  clock :: time
  uuid_gen :: "nat \<Rightarrow> uuid"
  rand_gen :: "nat \<Rightarrow> string"
  draws :: nat
  script :: "outcome list"

text \<open>One external call under the next outcome of the script; an exhausted script is healthy.\<close>

definition call :: "(world \<Rightarrow> 'a res \<times> world) \<Rightarrow> world \<Rightarrow> 'a res \<times> world" where
  "call q w =
     (case script w of
        [] \<Rightarrow> q w
      | f # fs \<Rightarrow>
          (case f of
             Healthy \<Rightarrow> q (w\<lparr>script := fs\<rparr>)
           | Refused e \<Rightarrow> (Inl e, w\<lparr>script := fs\<rparr>)
           | Lost e \<Rightarrow> (Inl e, snd (q (w\<lparr>script := fs\<rparr>)))
           | Raced d obs \<Rightarrow> q (w\<lparr>db := d, objects := obs, script := fs\<rparr>)))"

text \<open>
  Go's \<open>x, err := m; if err != nil { return nil, wrap(err) }; k(x)\<close>, the shape of almost every
  call of the program, and the two ways a function returns.
\<close>

type_synonym 'a io = "world \<Rightarrow> 'a res \<times> world"

definition ok :: "'a \<Rightarrow> 'a io" where "ok x w = (Inr x, w)"

definition fail :: "goerror \<Rightarrow> 'a io" where "fail e w = (Inl e, w)"

definition check :: "'a io \<Rightarrow> (goerror \<Rightarrow> goerror) \<Rightarrow> ('a \<Rightarrow> 'b io) \<Rightarrow> 'b io" where
  "check m wrap k w =
     (case m w of (Inl e, w1) \<Rightarrow> (Inl (wrap e), w1) | (Inr x, w1) \<Rightarrow> k x w1)"

lemma ok_simp [simp]: "ok x w = (Inr x, w)" by (simp add: ok_def)
lemma fail_simp [simp]: "fail e w = (Inl e, w)" by (simp add: fail_def)

lemma check_Inl: "m w = (Inl e, w1) \<Longrightarrow> check m wrap k w = (Inl (wrap e), w1)"
  by (simp add: check_def)

lemma check_Inr: "m w = (Inr x, w1) \<Longrightarrow> check m wrap k w = k x w1"
  by (simp add: check_def)

lemma call_healthy: "script w = [] \<Longrightarrow> call q w = q w"
  by (simp add: call_def)

lemma call_refused: "script w = Refused e # fs \<Longrightarrow> call q w = (Inl e, w\<lparr>script := fs\<rparr>)"
  by (simp add: call_def)

text \<open>At most \<open>n\<close> of the calls to come are refused, and the others are healthy.\<close>

definition faults :: "nat \<Rightarrow> world \<Rightarrow> bool" where
  "faults n w \<longleftrightarrow>
     (\<forall>f\<in>set (script w). f = Healthy \<or> (\<exists>e. f = Refused e))
     \<and> length (filter (\<lambda>f. f \<noteq> Healthy) (script w)) \<le> n"

definition next_call :: "world \<Rightarrow> world" where
  "next_call w = w\<lparr>script := tl (script w)\<rparr>"

lemma next_call_simps [simp]:
  "db (next_call w) = db w" "objects (next_call w) = objects w" "clock (next_call w) = clock w"
  "uuid_gen (next_call w) = uuid_gen w" "rand_gen (next_call w) = rand_gen w"
  "draws (next_call w) = draws w"
  by (simp_all add: next_call_def)

lemma faults_next: "faults n w \<Longrightarrow> faults n (next_call w)"
  by (cases "script w") (auto simp: faults_def next_call_def split: if_splits)

lemma faults_script_eq: "faults n w \<Longrightarrow> script w' = script w \<Longrightarrow> faults n w'"
  by (simp add: faults_def)

lemma next_call_Nil: "script w = [] \<Longrightarrow> next_call w = w"
  by (simp add: next_call_def)

lemma call_faults:
  assumes "faults n w"
  shows "call q w = q (next_call w)
    \<or> (\<exists>e. call q w = (Inl e, next_call w) \<and> n \<noteq> 0 \<and> faults (n - 1) (next_call w))"
  using assms
proof (cases "script w")
  case Nil
  then show ?thesis by (simp add: call_healthy next_call_Nil)
next
  case (Cons f fs)
  then show ?thesis
    using assms by (auto simp: call_def faults_def next_call_def split: if_splits)
qed

lemma call_no_fault: "faults 0 w \<Longrightarrow> call q w = q (next_call w)"
  using call_faults by fastforce

lemma faults_Nil: "script w = [] \<Longrightarrow> faults n w"
  by (simp add: faults_def)

text \<open>\<open>keeps P m\<close>: the operation \<open>m\<close> keeps the predicate \<open>P\<close> of the world, on every path.\<close>

definition keeps :: "(world \<Rightarrow> bool) \<Rightarrow> 'a io \<Rightarrow> bool" where
  "keeps P m \<longleftrightarrow> (\<forall>w. P w \<longrightarrow> P (snd (m w)))"

lemma keepsI: "(\<And>w. P w \<Longrightarrow> P (snd (m w))) \<Longrightarrow> keeps P m"
  by (simp add: keeps_def)

lemma keepsD: "keeps P m \<Longrightarrow> P w \<Longrightarrow> P (snd (m w))"
  by (simp add: keeps_def)

lemma keepsD_eq: "keeps P m \<Longrightarrow> P w \<Longrightarrow> m w = (r, w1) \<Longrightarrow> P w1"
  by (metis keepsD snd_conv)

lemma keeps_ok [inv_intros]: "keeps P (ok x)" by (simp add: keeps_def)
lemma keeps_fail [inv_intros]: "keeps P (fail e)" by (simp add: keeps_def)

lemma keeps_check [inv_intros]:
  "keeps P m \<Longrightarrow> (\<And>x. keeps P (k x)) \<Longrightarrow> keeps P (check m wrap k)"
  unfolding keeps_def check_def by (force split: prod.splits sum.splits)

lemma keeps_if [inv_intros]:
  "(b \<Longrightarrow> keeps P m) \<Longrightarrow> (\<not> b \<Longrightarrow> keeps P n) \<Longrightarrow> keeps P (if b then m else n)"
  by simp

text \<open>The tables stay as they are, whatever the script does to the calls.\<close>

definition db_steady :: "database \<Rightarrow> world \<Rightarrow> bool" where
  "db_steady d w \<longleftrightarrow> db w = d \<and> (\<forall>f\<in>set (script w). \<forall>d' obs. f = Raced d' obs \<longrightarrow> d' = d)"

lemma keeps_call:
  assumes "\<And>w. P w \<Longrightarrow> P (snd (q w))"
    and "\<And>w f fs. P w \<Longrightarrow> script w = f # fs \<Longrightarrow> P (w\<lparr>script := fs\<rparr>)"
    and "\<And>w d obs fs. P w \<Longrightarrow> script w = Raced d obs # fs \<Longrightarrow> P (w\<lparr>db := d, objects := obs, script := fs\<rparr>)"
  shows "keeps P (call q)"
  unfolding keeps_def call_def
  using assms by (auto split: list.splits outcome.splits)

text \<open>A statement on the tables, and one that also draws a fresh \<open>uuid_generate_v4()\<close>
  and reads \<open>NOW()\<close>. PostgreSQL keeps microseconds.\<close>

definition pg_micros :: "time \<Rightarrow> time" where
  "pg_micros t = t - t mod 1000"

definition exec :: "(time \<Rightarrow> database \<Rightarrow> 'a res \<times> database) \<Rightarrow> world \<Rightarrow> 'a res \<times> world" where
  "exec q = call (\<lambda>w. let (r, d) = q (pg_micros (clock w)) (db w) in (r, w\<lparr>db := d\<rparr>))"

definition exec_new ::
  "(uuid \<Rightarrow> time \<Rightarrow> database \<Rightarrow> 'a res \<times> database) \<Rightarrow> world \<Rightarrow> 'a res \<times> world" where
  "exec_new q = call (\<lambda>w.
     let (r, d) = q (uuid_gen w (draws w)) (pg_micros (clock w)) (db w)
     in (r, w\<lparr>db := d, draws := Suc (draws w)\<rparr>))"

section \<open>SQL errors and values\<close>

definition pg_error :: "string \<Rightarrow> goerror" where
  "pg_error code = \<lparr>causes = [PgError code], msg = ''ERROR (SQLSTATE '' @ code @ '')''\<rparr>"

definition ErrNoRows :: goerror where
  "ErrNoRows = errors_New NoRows ''no rows in result set''"

lemma errors_Is_pg_error [simp]: "errors_Is (pg_error code) c \<longleftrightarrow> c = PgError code"
  by (auto simp: pg_error_def errors_Is_def)

lemma errors_Is_ErrNoRows [simp]: "errors_Is ErrNoRows c \<longleftrightarrow> c = NoRows"
  by (simp add: ErrNoRows_def)

text \<open>A TEXT value must be valid UTF-8 without a zero byte; PostgreSQL rejects any other
  text parameter with SQLSTATE 22021.\<close>

definition cont_byte :: "char \<Rightarrow> bool" where
  "cont_byte c \<longleftrightarrow> 128 \<le> (of_char c :: nat) \<and> (of_char c :: nat) < 192"

text \<open>The length of the UTF-8 encoding that a string starts with, 0 if there is none.\<close>

definition rune_len :: "string \<Rightarrow> nat" where
  "rune_len s =
     (case s of
        [] \<Rightarrow> 0
      | c # t \<Rightarrow>
          (let n = (of_char c :: nat) in
           if n < 128 then 1
           else if 194 \<le> n \<and> n < 224 then
             (case t of c1 # _ \<Rightarrow> if cont_byte c1 then 2 else 0 | _ \<Rightarrow> 0)
           else if 224 \<le> n \<and> n < 240 then
             (case t of
                c1 # c2 # _ \<Rightarrow>
                  if cont_byte c1 \<and> cont_byte c2
                     \<and> (n = 224 \<longrightarrow> 160 \<le> (of_char c1 :: nat)) \<and> (n = 237 \<longrightarrow> (of_char c1 :: nat) < 160)
                  then 3 else 0
              | _ \<Rightarrow> 0)
           else if 240 \<le> n \<and> n < 245 then
             (case t of
                c1 # c2 # c3 # _ \<Rightarrow>
                  if cont_byte c1 \<and> cont_byte c2 \<and> cont_byte c3
                     \<and> (n = 240 \<longrightarrow> 144 \<le> (of_char c1 :: nat)) \<and> (n = 244 \<longrightarrow> (of_char c1 :: nat) < 144)
                  then 4 else 0
              | _ \<Rightarrow> 0)
           else 0))"

function utf8_valid :: "string \<Rightarrow> bool" where
  "utf8_valid [] = True"
| "utf8_valid (c # s) = (rune_len (c # s) \<noteq> 0 \<and> utf8_valid (drop (rune_len (c # s) - 1) s))"
  by pat_completeness auto
termination by (relation "measure length") auto

definition pg_text_ok :: "string \<Rightarrow> bool" where
  "pg_text_ok s \<longleftrightarrow> CHR 0x00 \<notin> set s \<and> utf8_valid s"

text \<open>\<open>json.Marshal\<close> writes the replacement character U+FFFD for every byte that is not UTF-8,
  and JSONB has no escape for a zero byte.\<close>

function json_coerce :: "string \<Rightarrow> string" where
  "json_coerce [] = []"
| "json_coerce (c # s) =
     (if rune_len (c # s) = 0 then [CHR 0xEF, CHR 0xBF, CHR 0xBD] @ json_coerce s
      else c # take (rune_len (c # s) - 1) s @ json_coerce (drop (rune_len (c # s) - 1) s))"
  by pat_completeness auto
termination by (relation "measure length") auto

lemma json_coerce_valid: "utf8_valid s \<Longrightarrow> json_coerce s = s"
  by (induction s rule: utf8_valid.induct) simp_all

lemma utf8_valid_ascii: "\<forall>c\<in>set s. (of_char c :: nat) < 128 \<Longrightarrow> utf8_valid s"
  by (induction s) (simp_all add: rune_len_def Let_def)

lemma pg_text_ok_ascii:
  "(\<forall>c\<in>set s. 0 < (of_char c :: nat) \<and> (of_char c :: nat) < 128) \<Longrightarrow> pg_text_ok s"
  by (force simp: pg_text_ok_def intro: utf8_valid_ascii)

definition jsonb_params ::
  "EmailAddress list \<Rightarrow> (database \<Rightarrow> 'a res \<times> database) \<Rightarrow> database \<Rightarrow> 'a res \<times> database" where
  "jsonb_params as q d =
     (if list_all (\<lambda>a. CHR 0x00 \<notin> set (ea_Name a) \<and> CHR 0x00 \<notin> set (ea_Email a)) as then q d
      else (Inl (pg_error ''22P05''), d))"

definition text_params ::
  "string list \<Rightarrow> (database \<Rightarrow> 'a res \<times> database) \<Rightarrow> database \<Rightarrow> 'a res \<times> database" where
  "text_params ps q d = (if list_all pg_text_ok ps then q d else (Inl (pg_error ''22021''), d))"

text \<open>A \<open>:one\<close> query scans the first row or fails with \<open>pgx.ErrNoRows\<close>.\<close>

definition one_row :: "'r list \<Rightarrow> 'r res" where
  "one_row rs = (case rs of [] \<Rightarrow> Inl ErrNoRows | r # _ \<Rightarrow> Inr r)"

text \<open>\<open>ORDER BY k DESC\<close> puts NULL first; the order of ties is PostgreSQL's choice, the
  table order here. A negative LIMIT or OFFSET is an error.\<close>

definition order_desc :: "('r \<Rightarrow> time option) \<Rightarrow> 'r list \<Rightarrow> 'r list" where
  "order_desc k rs =
     filter (\<lambda>r. k r = None) rs @ sort_key (\<lambda>r. - the (k r)) (filter (\<lambda>r. k r \<noteq> None) rs)"

definition order_asc :: "('r \<Rightarrow> time) \<Rightarrow> 'r list \<Rightarrow> 'r list" where
  "order_asc k rs = sort_key k rs"

definition limit_offset :: "int \<Rightarrow> int \<Rightarrow> 'r list \<Rightarrow> 'r list res" where
  "limit_offset lim off rs =
     (if lim < 0 then Inl (pg_error ''2201W'')
      else if off < 0 then Inl (pg_error ''2201X'')
      else Inr (take (nat lim) (drop (nat off) rs)))"

lemma set_order_desc [simp]: "set (order_desc k rs) = set rs"
  by (auto simp: order_desc_def)

lemma length_order_desc [simp]: "length (order_desc k rs) = length rs"
  using sum_length_filter_compl [of "\<lambda>r. k r = None" rs] by (simp add: order_desc_def)

lemma limit_offset_Inr:
  "limit_offset lim off rs = Inr xs \<Longrightarrow> xs = take (nat lim) (drop (nat off) rs) \<and> 0 \<le> lim \<and> 0 \<le> off"
  by (auto simp: limit_offset_def split: if_splits)

section \<open>The queries of accounts\<close>

record CreateAccountParams =
  cap_Name :: string
  cap_ImapHost :: string
  cap_ImapPort :: int
  cap_ImapUser :: string
  cap_ImapPassword :: string
  cap_SmtpHost :: "string option"
  cap_SmtpPort :: "int option"
  cap_SmtpUser :: "string option"
  cap_SmtpPassword :: "string option"

definition opt_texts :: "string option list \<Rightarrow> string list" where
  "opt_texts xs = map the (filter (\<lambda>x. x \<noteq> None) xs)"

definition sql_create_account ::
  "CreateAccountParams \<Rightarrow> uuid \<Rightarrow> time \<Rightarrow> database \<Rightarrow> account_row res \<times> database" where
  "sql_create_account p new now = text_params
     ([cap_Name p, cap_ImapHost p, cap_ImapUser p, cap_ImapPassword p]
        @ opt_texts [cap_SmtpHost p, cap_SmtpUser p, cap_SmtpPassword p])
     (\<lambda>d. if new \<in> set (map dbA_ID (tAccounts d)) then (Inl (pg_error ''23505''), d)
          else let r = \<lparr>dbA_ID = new, dbA_Name = cap_Name p, dbA_ImapHost = cap_ImapHost p,
                     dbA_ImapPort = cap_ImapPort p, dbA_ImapUser = cap_ImapUser p,
                     dbA_ImapPassword = cap_ImapPassword p, dbA_SmtpHost = cap_SmtpHost p,
                     dbA_SmtpPort = cap_SmtpPort p, dbA_SmtpUser = cap_SmtpUser p,
                     dbA_SmtpPassword = cap_SmtpPassword p, dbA_CreatedAt = now\<rparr>
               in (Inr r, d\<lparr>tAccounts := tAccounts d @ [r]\<rparr>))"

definition sql_get_account :: "uuid \<Rightarrow> time \<Rightarrow> database \<Rightarrow> account_row res \<times> database" where
  "sql_get_account i now d = (one_row (filter (\<lambda>r. dbA_ID r = i) (tAccounts d)), d)"

definition sql_list_accounts :: "time \<Rightarrow> database \<Rightarrow> account_row list res \<times> database" where
  "sql_list_accounts now d = (Inr (order_desc (\<lambda>r. Some (dbA_CreatedAt r)) (tAccounts d)), d)"

text \<open>Deleting rows follows the \<open>ON DELETE CASCADE\<close> of the foreign keys.\<close>

definition delete_emails :: "(email_row \<Rightarrow> bool) \<Rightarrow> database \<Rightarrow> database" where
  "delete_emails P d =
     (let gone = map dbE_ID (filter P (tEmails d)) in
      d\<lparr>tEmails := filter (\<lambda>r. \<not> P r) (tEmails d),
        tAttachments := filter (\<lambda>r. dbT_EmailID r \<notin> set gone) (tAttachments d),
        tQueue := filter (\<lambda>r. dbQ_EmailID r \<notin> set gone) (tQueue d)\<rparr>)"

definition delete_webhooks :: "(webhook_row \<Rightarrow> bool) \<Rightarrow> database \<Rightarrow> database" where
  "delete_webhooks P d =
     (let gone = map dbW_ID (filter P (tWebhooks d)) in
      d\<lparr>tWebhooks := filter (\<lambda>r. \<not> P r) (tWebhooks d),
        tQueue := filter (\<lambda>r. dbQ_WebhookID r \<notin> set gone) (tQueue d)\<rparr>)"

definition sql_delete_account :: "uuid \<Rightarrow> time \<Rightarrow> database \<Rightarrow> nat res \<times> database" where
  "sql_delete_account i now d =
     (let d1 = delete_emails (\<lambda>r. dbE_AccountID r = i) d;
          d2 = delete_webhooks (\<lambda>r. dbW_AccountID r = i) d1
      in (Inr (length (filter (\<lambda>r. dbA_ID r = i) (tAccounts d))),
          d2\<lparr>tAccounts := filter (\<lambda>r. dbA_ID r \<noteq> i) (tAccounts d2)\<rparr>))"

definition CreateAccount where "CreateAccount p = exec_new (sql_create_account p)"
definition GetAccount where "GetAccount i = exec (sql_get_account i)"
definition ListAccounts where "ListAccounts = exec sql_list_accounts"
definition DeleteAccount where "DeleteAccount i = exec (sql_delete_account i)"

section \<open>The queries of emails\<close>

record InsertEmailParams =
  iep_AccountID :: uuid
  iep_Uid :: int
  iep_MessageID :: "string option"
  iep_Folder :: string
  iep_Subject :: "string option"
  iep_FromEmail :: "string option"
  iep_FromName :: "string option"
  iep_ToRecipients :: "EmailAddress list"
  iep_CcRecipients :: "EmailAddress list"
  iep_Date :: "time option"
  iep_ParsedText :: "string option"
  iep_ParsedHtml :: "string option"
  iep_Raw :: "string option"
  iep_Flags :: "string list option"

definition email_key :: "email_row \<Rightarrow> uuid \<times> string \<times> int" where
  "email_key r = (dbE_AccountID r, dbE_Folder r, dbE_Uid r)"

definition sql_insert_email ::
  "InsertEmailParams \<Rightarrow> uuid \<Rightarrow> time \<Rightarrow> database \<Rightarrow> email_row res \<times> database" where
  "sql_insert_email p new now = text_params
     (iep_Folder p # opt_texts [iep_MessageID p, iep_Subject p, iep_FromEmail p, iep_FromName p,
        iep_ParsedText p, iep_ParsedHtml p, iep_Raw p]
        @ (case iep_Flags p of None \<Rightarrow> [] | Some fs \<Rightarrow> fs))
     (jsonb_params (iep_ToRecipients p @ iep_CcRecipients p)
     (\<lambda>d. if new \<in> set (map dbE_ID (tEmails d))
             \<or> (iep_AccountID p, iep_Folder p, iep_Uid p) \<in> set (map email_key (tEmails d))
          then (Inl (pg_error ''23505''), d)
          else if iep_AccountID p \<notin> set (map dbA_ID (tAccounts d))
          then (Inl (pg_error ''23503''), d)
          else let r = \<lparr>dbE_ID = new, dbE_AccountID = iep_AccountID p, dbE_Uid = iep_Uid p,
                     dbE_MessageID = iep_MessageID p, dbE_Folder = iep_Folder p,
                     dbE_Subject = iep_Subject p, dbE_FromEmail = iep_FromEmail p,
                     dbE_FromName = iep_FromName p, dbE_Date = map_option pg_micros (iep_Date p),
                     dbE_ParsedText = iep_ParsedText p, dbE_ParsedHtml = iep_ParsedHtml p,
                     dbE_Raw = iep_Raw p, dbE_Flags = iep_Flags p,
                     dbE_DeletedUpstream = Some False, dbE_CreatedAt = now,
                     dbE_ToRecipients = Some (JAddrs (iep_ToRecipients p)),
                     dbE_CcRecipients = Some (JAddrs (iep_CcRecipients p))\<rparr>
               in (Inr r, d\<lparr>tEmails := tEmails d @ [r]\<rparr>)))"

definition sql_get_email :: "uuid \<Rightarrow> time \<Rightarrow> database \<Rightarrow> email_row res \<times> database" where
  "sql_get_email i now d = (one_row (filter (\<lambda>r. dbE_ID r = i) (tEmails d)), d)"

definition sql_get_email_by_uid ::
  "uuid \<Rightarrow> string \<Rightarrow> int \<Rightarrow> time \<Rightarrow> database \<Rightarrow> email_row res \<times> database" where
  "sql_get_email_by_uid acc folder uid now = text_params [folder]
     (\<lambda>d. (one_row (filter (\<lambda>r. email_key r = (acc, folder, uid)) (tEmails d)), d))"

definition not_deleted :: "email_row \<Rightarrow> bool" where
  "not_deleted r \<longleftrightarrow> dbE_DeletedUpstream r = Some False"

definition date_before :: "time option \<Rightarrow> email_row \<Rightarrow> bool" where
  "date_before b r \<longleftrightarrow>
     (case b of None \<Rightarrow> True
      | Some t \<Rightarrow> (case dbE_Date r of None \<Rightarrow> False | Some d \<Rightarrow> d < pg_micros t))"

definition date_after :: "time option \<Rightarrow> email_row \<Rightarrow> bool" where
  "date_after a r \<longleftrightarrow>
     (case a of None \<Rightarrow> True
      | Some t \<Rightarrow> (case dbE_Date r of None \<Rightarrow> False | Some d \<Rightarrow> pg_micros t < d))"

definition list_selects :: "uuid \<Rightarrow> string \<Rightarrow> time option \<Rightarrow> time option \<Rightarrow> email_row \<Rightarrow> bool" where
  "list_selects acc folder before after r \<longleftrightarrow>
     dbE_AccountID r = acc \<and> dbE_Folder r = folder \<and> not_deleted r
     \<and> date_before before r \<and> date_after after r"

record ListEmailsParams =
  lep_AccountID :: uuid
  lep_Folder :: string
  lep_Limit :: int
  lep_Offset :: int
  lep_Before :: "time option"
  lep_After :: "time option"

definition sql_list_emails :: "ListEmailsParams \<Rightarrow> time \<Rightarrow> database \<Rightarrow> email_row list res \<times> database" where
  "sql_list_emails p now = text_params [lep_Folder p]
     (\<lambda>d. (limit_offset (lep_Limit p) (lep_Offset p)
             (order_desc dbE_Date
               (filter (list_selects (lep_AccountID p) (lep_Folder p) (lep_Before p) (lep_After p))
                  (tEmails d))), d))"

definition sql_email_exists_by_uid ::
  "uuid \<Rightarrow> string \<Rightarrow> int \<Rightarrow> time \<Rightarrow> database \<Rightarrow> bool res \<times> database" where
  "sql_email_exists_by_uid acc folder uid now = text_params [folder]
     (\<lambda>d. (Inr (list_ex (\<lambda>r. email_key r = (acc, folder, uid)) (tEmails d)), d))"

definition sql_email_exists_by_message_id ::
  "uuid \<Rightarrow> string option \<Rightarrow> time \<Rightarrow> database \<Rightarrow> bool res \<times> database" where
  "sql_email_exists_by_message_id acc mid now = text_params (opt_texts [mid])
     (\<lambda>d. (Inr (list_ex (\<lambda>r. dbE_AccountID r = acc \<and> mid \<noteq> None \<and> dbE_MessageID r = mid)
                  (tEmails d)), d))"

definition update_emails :: "uuid \<Rightarrow> (email_row \<Rightarrow> email_row) \<Rightarrow> database \<Rightarrow> nat res \<times> database" where
  "update_emails i f d =
     (Inr (length (filter (\<lambda>r. dbE_ID r = i) (tEmails d))),
      d\<lparr>tEmails := map (\<lambda>r. if dbE_ID r = i then f r else r) (tEmails d)\<rparr>)"

definition sql_update_email_flags ::
  "uuid \<Rightarrow> string list option \<Rightarrow> time \<Rightarrow> database \<Rightarrow> nat res \<times> database" where
  "sql_update_email_flags i flags now =
     text_params (case flags of None \<Rightarrow> [] | Some fs \<Rightarrow> fs) (update_emails i (dbE_Flags_update (\<lambda>_. flags)))"

definition sql_mark_email_deleted_upstream :: "uuid \<Rightarrow> time \<Rightarrow> database \<Rightarrow> nat res \<times> database" where
  "sql_mark_email_deleted_upstream i now = update_emails i (dbE_DeletedUpstream_update (\<lambda>_. Some True))"

definition sql_count_emails_in_folder ::
  "uuid \<Rightarrow> string \<Rightarrow> time \<Rightarrow> database \<Rightarrow> int res \<times> database" where
  "sql_count_emails_in_folder acc folder now = text_params [folder]
     (\<lambda>d. (Inr (int (length (filter (list_selects acc folder None None) (tEmails d)))), d))"

text \<open>Full-text matching (\<open>search_vector @@ websearch_to_tsquery\<close>) is PostgreSQL's, the argument
  \<open>fts\<close>: it gives the rows a query matches, or the SQLSTATE of a query it rejects.\<close>

type_synonym fts = "string \<Rightarrow> string + (email_row \<Rightarrow> bool)"

record SearchEmailsParams =
  sep_AccountID :: uuid
  sep_Query :: string
  sep_Limit :: int
  sep_Offset :: int
  sep_Folder :: "string option"

definition search_selects :: "(email_row \<Rightarrow> bool) \<Rightarrow> uuid \<Rightarrow> string option \<Rightarrow> email_row \<Rightarrow> bool" where
  "search_selects match acc folder r \<longleftrightarrow>
     dbE_AccountID r = acc \<and> not_deleted r \<and> match r
     \<and> (case folder of None \<Rightarrow> True | Some f \<Rightarrow> dbE_Folder r = f)"

definition sql_search_emails ::
  "fts \<Rightarrow> SearchEmailsParams \<Rightarrow> time \<Rightarrow> database \<Rightarrow> email_row list res \<times> database" where
  "sql_search_emails fts p now = text_params (sep_Query p # opt_texts [sep_Folder p])
     (\<lambda>d. (case fts (sep_Query p) of
             Inl code \<Rightarrow> (Inl (pg_error code), d)
           | Inr match \<Rightarrow>
               (limit_offset (sep_Limit p) (sep_Offset p)
                  (order_desc dbE_Date
                    (filter (search_selects match (sep_AccountID p) (sep_Folder p)) (tEmails d))), d)))"

definition sql_count_search_emails ::
  "fts \<Rightarrow> uuid \<Rightarrow> string \<Rightarrow> string option \<Rightarrow> time \<Rightarrow> database \<Rightarrow> int res \<times> database" where
  "sql_count_search_emails fts acc query folder now = text_params (query # opt_texts [folder])
     (\<lambda>d. (case fts query of
             Inl code \<Rightarrow> (Inl (pg_error code), d)
           | Inr match \<Rightarrow> (Inr (int (length (filter (search_selects match acc folder) (tEmails d)))), d)))"

definition InsertEmail where "InsertEmail p = exec_new (sql_insert_email p)"
definition GetEmail where "GetEmail i = exec (sql_get_email i)"
definition GetEmailByUID where "GetEmailByUID acc folder uid = exec (sql_get_email_by_uid acc folder uid)"
definition ListEmails where "ListEmails p = exec (sql_list_emails p)"
definition EmailExistsByUID where
  "EmailExistsByUID acc folder uid = exec (sql_email_exists_by_uid acc folder uid)"
definition EmailExistsByMessageID where
  "EmailExistsByMessageID acc mid = exec (sql_email_exists_by_message_id acc mid)"
definition UpdateEmailFlags where "UpdateEmailFlags i flags = exec (sql_update_email_flags i flags)"
definition MarkEmailDeletedUpstream where
  "MarkEmailDeletedUpstream i = exec (sql_mark_email_deleted_upstream i)"
definition CountEmailsInFolder where
  "CountEmailsInFolder acc folder = exec (sql_count_emails_in_folder acc folder)"
definition SearchEmails where "SearchEmails fts p = exec (sql_search_emails fts p)"
definition CountSearchEmails where
  "CountSearchEmails fts acc query folder = exec (sql_count_search_emails fts acc query folder)"

section \<open>The queries of attachments\<close>

record InsertAttachmentParams =
  iap_EmailID :: uuid
  iap_Filename :: string
  iap_ContentType :: string
  iap_Size :: int
  iap_S3Key :: string

definition sql_insert_attachment ::
  "InsertAttachmentParams \<Rightarrow> uuid \<Rightarrow> time \<Rightarrow> database \<Rightarrow> attachment_row res \<times> database" where
  "sql_insert_attachment p new now = text_params [iap_Filename p, iap_ContentType p, iap_S3Key p]
     (\<lambda>d. if new \<in> set (map dbT_ID (tAttachments d)) then (Inl (pg_error ''23505''), d)
          else if iap_EmailID p \<notin> set (map dbE_ID (tEmails d)) then (Inl (pg_error ''23503''), d)
          else let r = \<lparr>dbT_ID = new, dbT_EmailID = iap_EmailID p, dbT_Filename = iap_Filename p,
                     dbT_ContentType = iap_ContentType p, dbT_Size = iap_Size p,
                     dbT_S3Key = iap_S3Key p\<rparr>
               in (Inr r, d\<lparr>tAttachments := tAttachments d @ [r]\<rparr>))"

definition sql_get_attachments_by_email_id ::
  "uuid \<Rightarrow> time \<Rightarrow> database \<Rightarrow> attachment_row list res \<times> database" where
  "sql_get_attachments_by_email_id i now d =
     (Inr (filter (\<lambda>r. dbT_EmailID r = i) (tAttachments d)), d)"

definition sql_get_attachment :: "uuid \<Rightarrow> time \<Rightarrow> database \<Rightarrow> attachment_row res \<times> database" where
  "sql_get_attachment i now d = (one_row (filter (\<lambda>r. dbT_ID r = i) (tAttachments d)), d)"

definition sql_delete_attachments_by_email_id :: "uuid \<Rightarrow> time \<Rightarrow> database \<Rightarrow> unit res \<times> database" where
  "sql_delete_attachments_by_email_id i now d =
     (Inr (), d\<lparr>tAttachments := filter (\<lambda>r. dbT_EmailID r \<noteq> i) (tAttachments d)\<rparr>)"

definition InsertAttachment where "InsertAttachment p = exec_new (sql_insert_attachment p)"
definition GetAttachmentsByEmailID where
  "GetAttachmentsByEmailID i = exec (sql_get_attachments_by_email_id i)"
definition GetAttachment where "GetAttachment i = exec (sql_get_attachment i)"
definition DeleteAttachmentsByEmailID where
  "DeleteAttachmentsByEmailID i = exec (sql_delete_attachments_by_email_id i)"

section \<open>The queries of webhooks and of the delivery queue\<close>

definition sql_create_webhook ::
  "uuid \<Rightarrow> string \<Rightarrow> string \<Rightarrow> uuid \<Rightarrow> time \<Rightarrow> database \<Rightarrow> webhook_row res \<times> database" where
  "sql_create_webhook acc url secret new now = text_params [url, secret]
     (\<lambda>d. if new \<in> set (map dbW_ID (tWebhooks d)) then (Inl (pg_error ''23505''), d)
          else if acc \<notin> set (map dbA_ID (tAccounts d)) then (Inl (pg_error ''23503''), d)
          else let r = \<lparr>dbW_ID = new, dbW_AccountID = acc, dbW_Url = url, dbW_Secret = secret,
                     dbW_CreatedAt = now\<rparr>
               in (Inr r, d\<lparr>tWebhooks := tWebhooks d @ [r]\<rparr>))"

definition sql_get_webhook :: "uuid \<Rightarrow> time \<Rightarrow> database \<Rightarrow> webhook_row res \<times> database" where
  "sql_get_webhook i now d = (one_row (filter (\<lambda>r. dbW_ID r = i) (tWebhooks d)), d)"

definition sql_list_webhooks :: "time \<Rightarrow> database \<Rightarrow> webhook_row list res \<times> database" where
  "sql_list_webhooks now d = (Inr (order_desc (\<lambda>r. Some (dbW_CreatedAt r)) (tWebhooks d)), d)"

definition sql_get_webhooks_for_account ::
  "uuid \<Rightarrow> time \<Rightarrow> database \<Rightarrow> webhook_row list res \<times> database" where
  "sql_get_webhooks_for_account acc now d =
     (Inr (order_desc (\<lambda>r. Some (dbW_CreatedAt r))
             (filter (\<lambda>r. dbW_AccountID r = acc) (tWebhooks d))), d)"

definition sql_delete_webhook :: "uuid \<Rightarrow> time \<Rightarrow> database \<Rightarrow> nat res \<times> database" where
  "sql_delete_webhook i now d =
     (Inr (length (filter (\<lambda>r. dbW_ID r = i) (tWebhooks d))), delete_webhooks (\<lambda>r. dbW_ID r = i) d)"

definition CreateWebhook where "CreateWebhook acc url secret = exec_new (sql_create_webhook acc url secret)"
definition GetWebhook where "GetWebhook i = exec (sql_get_webhook i)"
definition ListWebhooks where "ListWebhooks = exec sql_list_webhooks"
definition GetWebhooksForAccount where
  "GetWebhooksForAccount acc = exec (sql_get_webhooks_for_account acc)"
definition DeleteWebhook where "DeleteWebhook i = exec (sql_delete_webhook i)"

definition sql_create_webhook_queue_item ::
  "uuid \<Rightarrow> uuid \<Rightarrow> string \<Rightarrow> uuid \<Rightarrow> time \<Rightarrow> database \<Rightarrow> queue_row res \<times> database" where
  "sql_create_webhook_queue_item wid eid payload new now d =
     (if new \<in> set (map dbQ_ID (tQueue d)) then (Inl (pg_error ''23505''), d)
      else if wid \<notin> set (map dbW_ID (tWebhooks d)) \<or> eid \<notin> set (map dbE_ID (tEmails d))
      then (Inl (pg_error ''23503''), d)
      else let r = \<lparr>dbQ_ID = new, dbQ_WebhookID = wid, dbQ_EmailID = eid, dbQ_Payload = payload,
                 dbQ_Attempts = Some 0, dbQ_NextAttempt = Some now, dbQ_Status = ''pending'',
                 dbQ_CreatedAt = now\<rparr>
           in (Inr r, d\<lparr>tQueue := tQueue d @ [r]\<rparr>))"

definition queue_due :: "time \<Rightarrow> queue_row \<Rightarrow> bool" where
  "queue_due now r \<longleftrightarrow>
     dbQ_Status r = ''pending'' \<and> (case dbQ_NextAttempt r of None \<Rightarrow> True | Some t \<Rightarrow> t \<le> now)"

definition sql_get_pending_webhook_queue_items ::
  "int \<Rightarrow> time \<Rightarrow> database \<Rightarrow> queue_row list res \<times> database" where
  "sql_get_pending_webhook_queue_items lim now d =
     (limit_offset lim 0 (order_asc dbQ_CreatedAt (filter (queue_due now) (tQueue d))), d)"

definition sql_get_webhook_queue_item :: "uuid \<Rightarrow> time \<Rightarrow> database \<Rightarrow> queue_row res \<times> database" where
  "sql_get_webhook_queue_item i now d = (one_row (filter (\<lambda>r. dbQ_ID r = i) (tQueue d)), d)"

definition update_queue :: "uuid \<Rightarrow> (queue_row \<Rightarrow> queue_row) \<Rightarrow> database \<Rightarrow> nat res \<times> database" where
  "update_queue i f d =
     (Inr (length (filter (\<lambda>r. dbQ_ID r = i) (tQueue d))),
      d\<lparr>tQueue := map (\<lambda>r. if dbQ_ID r = i then f r else r) (tQueue d)\<rparr>)"

text \<open>The CHECK constraint on \<open>status\<close> is enforced when a row is updated.\<close>

definition sql_update_webhook_queue_status ::
  "uuid \<Rightarrow> string \<Rightarrow> int option \<Rightarrow> time option \<Rightarrow> time \<Rightarrow> database \<Rightarrow> nat res \<times> database" where
  "sql_update_webhook_queue_status i status attempts next now d =
     (if i \<in> set (map dbQ_ID (tQueue d)) \<and> status \<notin> {''pending'', ''delivered'', ''failed''}
      then (Inl (pg_error ''23514''), d)
      else update_queue i (\<lambda>r. r\<lparr>dbQ_Status := status, dbQ_Attempts := attempts,
                                dbQ_NextAttempt := map_option pg_micros next\<rparr>) d)"

definition sql_mark_webhook_queue_delivered :: "uuid \<Rightarrow> time \<Rightarrow> database \<Rightarrow> nat res \<times> database" where
  "sql_mark_webhook_queue_delivered i now = update_queue i (dbQ_Status_update (\<lambda>_. ''delivered''))"

definition sql_mark_webhook_queue_failed :: "uuid \<Rightarrow> time \<Rightarrow> database \<Rightarrow> nat res \<times> database" where
  "sql_mark_webhook_queue_failed i now = update_queue i (dbQ_Status_update (\<lambda>_. ''failed''))"

definition CreateWebhookQueueItem where
  "CreateWebhookQueueItem wid eid payload = exec_new (sql_create_webhook_queue_item wid eid payload)"
definition GetWebhookQueueItem where "GetWebhookQueueItem i = exec (sql_get_webhook_queue_item i)"
definition GetPendingWebhookQueueItems where
  "GetPendingWebhookQueueItems lim = exec (sql_get_pending_webhook_queue_items lim)"
definition UpdateWebhookQueueStatus where
  "UpdateWebhookQueueStatus i status attempts next =
     exec (sql_update_webhook_queue_status i status attempts next)"
definition MarkWebhookQueueDelivered where
  "MarkWebhookQueueDelivered i = exec (sql_mark_webhook_queue_delivered i)"
definition MarkWebhookQueueFailed where
  "MarkWebhookQueueFailed i = exec (sql_mark_webhook_queue_failed i)"

section \<open>A concrete world\<close>

text \<open>Tables with one account, and a world around given tables in which every call is healthy, for
  evaluating the model on concrete inputs.\<close>

definition empty_db :: database where
  "empty_db = \<lparr>tAccounts = [], tEmails = [], tAttachments = [], tWebhooks = [], tQueue = []\<rparr>"

definition demo_account :: account_row where
  "demo_account = \<lparr>dbA_ID = 1, dbA_Name = ''work'', dbA_ImapHost = ''imap.example.com'',
     dbA_ImapPort = 993, dbA_ImapUser = ''me'',
     dbA_ImapPassword = base64_Encode (replicate 12 (CHR ''n'') @ replicate 32 (CHR ''k'') @ ''pw''),
     dbA_SmtpHost = None, dbA_SmtpPort = None, dbA_SmtpUser = None, dbA_SmtpPassword = None,
     dbA_CreatedAt = 5000\<rparr>"

definition demo_db :: database where
  "demo_db = empty_db\<lparr>tAccounts := [demo_account]\<rparr>"

definition demo_world :: "database \<Rightarrow> world" where
  "demo_world d = \<lparr>db = d, objects = Map.empty, http_log = [], clock = 1000000, uuid_gen = (\<lambda>n. n + 100),
     rand_gen = (\<lambda>n. nat_digits n), draws = 0, script = []\<rparr>"

lemma demo_account_simps [simp]: "dbA_ID demo_account = 1"
  by (simp add: demo_account_def)

lemmas demo_defs = empty_db_def demo_db_def demo_world_def

end
