(* ===== verification/DatabaseInv.thy ===== *)
theory DatabaseInv
  imports Database
begin

text \<open>
  The integrity of the tables, as an invariant of the SQL statements: primary keys and
  \<open>UNIQUE(account_id, folder, uid)\<close> hold, every foreign key has its target, the status
  of a queue row is one of the three of the CHECK constraint. Every statement keeps it, cascading
  deletes included, and the world reached by any call keeps it when the writes of other goroutines
  do. The locale states what a predicate on the tables must satisfy for the program to keep it;
  the components' lemmas are proved in it, and \<open>db_inv\<close> is an instance.
\<close>

section \<open>The invariant\<close>

definition statuses :: "string set" where
  "statuses = {''pending'', ''delivered'', ''failed''}"

definition keys_unique :: "database \<Rightarrow> bool" where
  "keys_unique d \<longleftrightarrow>
     distinct (map dbA_ID (tAccounts d)) \<and> distinct (map dbE_ID (tEmails d))
     \<and> distinct (map email_key (tEmails d)) \<and> distinct (map dbT_ID (tAttachments d))
     \<and> distinct (map dbW_ID (tWebhooks d)) \<and> distinct (map dbQ_ID (tQueue d))"

definition references_ok :: "database \<Rightarrow> bool" where
  "references_ok d \<longleftrightarrow>
     dbE_AccountID ` set (tEmails d) \<subseteq> dbA_ID ` set (tAccounts d)
     \<and> dbT_EmailID ` set (tAttachments d) \<subseteq> dbE_ID ` set (tEmails d)
     \<and> dbW_AccountID ` set (tWebhooks d) \<subseteq> dbA_ID ` set (tAccounts d)
     \<and> dbQ_WebhookID ` set (tQueue d) \<subseteq> dbW_ID ` set (tWebhooks d)
     \<and> dbQ_EmailID ` set (tQueue d) \<subseteq> dbE_ID ` set (tEmails d)"

definition status_ok :: "database \<Rightarrow> bool" where
  "status_ok d \<longleftrightarrow> dbQ_Status ` set (tQueue d) \<subseteq> statuses"

definition db_inv :: "database \<Rightarrow> bool" where
  "db_inv d \<longleftrightarrow> keys_unique d \<and> references_ok d \<and> status_ok d"

lemmas db_inv_defs = db_inv_def keys_unique_def references_ok_def status_ok_def statuses_def

section \<open>Statements that change nothing\<close>

text \<open>Every SELECT returns the tables as they were.\<close>

named_theorems selects "queries that leave the tables unchanged"

lemma snd_text_params:
  "snd (text_params ps q d) = (if list_all pg_text_ok ps then snd (q d) else d)"
  by (simp add: text_params_def)

lemma select_unchanged [selects]:
  "snd (sql_get_account i now d) = d"
  "snd (sql_list_accounts now d) = d"
  "snd (sql_get_email i now d) = d"
  "snd (sql_get_email_by_uid i f u now d) = d"
  "snd (sql_list_emails lp now d) = d"
  "snd (sql_email_exists_by_uid i f u now d) = d"
  "snd (sql_email_exists_by_message_id i m now d) = d"
  "snd (sql_count_emails_in_folder i f now d) = d"
  "snd (sql_search_emails fts sp now d) = d"
  "snd (sql_count_search_emails fts i qs fo now d) = d"
  "snd (sql_get_attachments_by_email_id i now d) = d"
  "snd (sql_get_attachment i now d) = d"
  "snd (sql_get_webhook i now d) = d"
  "snd (sql_list_webhooks now d) = d"
  "snd (sql_get_webhooks_for_account i now d) = d"
  "snd (sql_get_pending_webhook_queue_items lim now d) = d"
  "snd (sql_get_webhook_queue_item i now d) = d"
  by (simp_all add: sql_get_account_def sql_list_accounts_def sql_get_email_def
      sql_get_email_by_uid_def sql_list_emails_def sql_email_exists_by_uid_def
      sql_email_exists_by_message_id_def sql_count_emails_in_folder_def sql_search_emails_def
      sql_count_search_emails_def sql_get_attachments_by_email_id_def sql_get_attachment_def
      sql_get_webhook_def sql_list_webhooks_def sql_get_webhooks_for_account_def
      sql_get_pending_webhook_queue_items_def sql_get_webhook_queue_item_def
      snd_text_params split: sum.splits)

section \<open>Inserts\<close>

lemma inv_create_account: "db_inv d \<Longrightarrow> db_inv (snd (sql_create_account p new now d))"
  by (auto simp: sql_create_account_def snd_text_params db_inv_defs Let_def)

lemma inv_insert_email: "db_inv d \<Longrightarrow> db_inv (snd (sql_insert_email p new now d))"
  by (auto simp: sql_insert_email_def snd_text_params jsonb_params_def db_inv_defs Let_def email_key_def)

lemma inv_insert_attachment: "db_inv d \<Longrightarrow> db_inv (snd (sql_insert_attachment p new now d))"
  by (auto simp: sql_insert_attachment_def snd_text_params db_inv_defs Let_def)

lemma inv_create_webhook: "db_inv d \<Longrightarrow> db_inv (snd (sql_create_webhook a u s new now d))"
  by (auto simp: sql_create_webhook_def snd_text_params db_inv_defs Let_def)

lemma inv_create_queue_item:
  "db_inv d \<Longrightarrow> db_inv (snd (sql_create_webhook_queue_item wid eid pl new now d))"
  by (auto simp: sql_create_webhook_queue_item_def db_inv_defs Let_def)

section \<open>Updates\<close>

lemma db_inv_tEmails:
  assumes "db_inv d" and "map dbE_ID es = map dbE_ID (tEmails d)"
    and "map email_key es = map email_key (tEmails d)"
    and "map dbE_AccountID es = map dbE_AccountID (tEmails d)"
  shows "db_inv (d\<lparr>tEmails := es\<rparr>)"
proof -
  have "dbE_ID ` set es = dbE_ID ` set (tEmails d)"
    "dbE_AccountID ` set es = dbE_AccountID ` set (tEmails d)"
    using assms(2,4) by (metis list.set_map)+
  with assms show ?thesis by (simp add: db_inv_defs)
qed

lemma db_inv_tQueue:
  assumes "db_inv d" and "map dbQ_ID qs = map dbQ_ID (tQueue d)"
    and "map dbQ_WebhookID qs = map dbQ_WebhookID (tQueue d)"
    and "map dbQ_EmailID qs = map dbQ_EmailID (tQueue d)"
    and "dbQ_Status ` set qs \<subseteq> statuses"
  shows "db_inv (d\<lparr>tQueue := qs\<rparr>)"
proof -
  have "dbQ_WebhookID ` set qs = dbQ_WebhookID ` set (tQueue d)"
    "dbQ_EmailID ` set qs = dbQ_EmailID ` set (tQueue d)"
    using assms(3,4) by (metis list.set_map)+
  with assms show ?thesis by (simp add: db_inv_def keys_unique_def references_ok_def status_ok_def)
qed

lemma inv_update_emails:
  assumes "db_inv d"
    and "\<And>r. dbE_ID (f r) = dbE_ID r" "\<And>r. email_key (f r) = email_key r"
  shows "db_inv (snd (update_emails i f d))"
proof -
  have "dbE_AccountID (f r) = dbE_AccountID r" for r
    using assms(3) [of r] by (simp add: email_key_def)
  with assms show ?thesis
    by (auto simp: update_emails_def intro!: db_inv_tEmails)
qed

lemma inv_update_queue:
  assumes "db_inv d"
    and "\<And>r. dbQ_ID (f r) = dbQ_ID r" "\<And>r. dbQ_WebhookID (f r) = dbQ_WebhookID r"
      "\<And>r. dbQ_EmailID (f r) = dbQ_EmailID r" "\<And>r. dbQ_Status (f r) \<in> statuses"
  shows "db_inv (snd (update_queue i f d))"
proof -
  have "\<forall>r\<in>set (tQueue d). dbQ_Status r \<in> statuses"
    using assms(1) by (auto simp: db_inv_def status_ok_def)
  with assms show ?thesis
    by (auto simp: update_queue_def intro!: db_inv_tQueue)
qed

lemma inv_update_email_flags: "db_inv d \<Longrightarrow> db_inv (snd (sql_update_email_flags i fl now d))"
  by (simp add: sql_update_email_flags_def snd_text_params inv_update_emails email_key_def)

lemma inv_mark_deleted: "db_inv d \<Longrightarrow> db_inv (snd (sql_mark_email_deleted_upstream i now d))"
  by (simp add: sql_mark_email_deleted_upstream_def inv_update_emails email_key_def)

lemma inv_update_queue_status:
  "db_inv d \<Longrightarrow> db_inv (snd (sql_update_webhook_queue_status i st at nx now d))"
proof (cases "st \<in> statuses")
  case True
  assume "db_inv d"
  with True show ?thesis
    by (auto simp: sql_update_webhook_queue_status_def statuses_def intro!: inv_update_queue)
next
  case False
  assume inv: "db_inv d"
  show ?thesis
  proof (cases "i \<in> set (map dbQ_ID (tQueue d))")
    case True
    with False inv show ?thesis by (simp add: sql_update_webhook_queue_status_def statuses_def)
  next
    case False
    then have "map (\<lambda>r. if dbQ_ID r = i then f r else r) (tQueue d) = tQueue d" for f
      by (intro map_idI) auto
    with False inv show ?thesis
      by (auto simp: sql_update_webhook_queue_status_def update_queue_def)
  qed
qed

lemma inv_mark_delivered: "db_inv d \<Longrightarrow> db_inv (snd (sql_mark_webhook_queue_delivered i now d))"
  by (simp add: sql_mark_webhook_queue_delivered_def inv_update_queue statuses_def)

lemma inv_mark_failed: "db_inv d \<Longrightarrow> db_inv (snd (sql_mark_webhook_queue_failed i now d))"
  by (simp add: sql_mark_webhook_queue_failed_def inv_update_queue statuses_def)

section \<open>Cascading deletes\<close>

lemma inv_delete_emails: "db_inv d \<Longrightarrow> db_inv (delete_emails P d)"
  by (auto simp: delete_emails_def db_inv_defs Let_def distinct_map_filter image_subset_iff
      intro: image_filter_split)

lemma inv_delete_webhooks: "db_inv d \<Longrightarrow> db_inv (delete_webhooks P d)"
  by (auto simp: delete_webhooks_def db_inv_defs Let_def distinct_map_filter image_subset_iff
      intro: image_filter_split)

lemma inv_drop_account:
  assumes "db_inv d" and "i \<notin> dbE_AccountID ` set (tEmails d)" and "i \<notin> dbW_AccountID ` set (tWebhooks d)"
  shows "db_inv (d\<lparr>tAccounts := filter (\<lambda>r. dbA_ID r \<noteq> i) (tAccounts d)\<rparr>)"
proof -
  have "dbA_ID ` {r \<in> set (tAccounts d). dbA_ID r \<noteq> i} = dbA_ID ` set (tAccounts d) - {i}" by auto
  with assms show ?thesis by (auto simp: db_inv_defs distinct_map_filter)
qed

lemma inv_delete_account: "db_inv d \<Longrightarrow> db_inv (snd (sql_delete_account i now d))"
  unfolding sql_delete_account_def Let_def snd_conv
  by (intro inv_drop_account inv_delete_webhooks inv_delete_emails)
    (auto simp: delete_emails_def delete_webhooks_def Let_def)

lemma inv_delete_webhook: "db_inv d \<Longrightarrow> db_inv (snd (sql_delete_webhook i now d))"
  by (simp add: sql_delete_webhook_def inv_delete_webhooks)

lemma inv_delete_attachments:
  "db_inv d \<Longrightarrow> db_inv (snd (sql_delete_attachments_by_email_id i now d))"
  by (auto simp: sql_delete_attachments_by_email_id_def db_inv_defs distinct_map_filter)

lemmas sql_inv = inv_create_account inv_insert_email inv_insert_attachment inv_create_webhook
  inv_create_queue_item inv_update_email_flags inv_mark_deleted inv_update_queue_status
  inv_mark_delivered inv_mark_failed inv_delete_account inv_delete_webhook inv_delete_attachments

section \<open>The interface: a predicate that the statements keep\<close>

text \<open>The tables satisfy \<open>I\<close> now and after every write that another goroutine will commit.\<close>

definition winv :: "(database \<Rightarrow> bool) \<Rightarrow> world \<Rightarrow> bool" where
  "winv I w \<longleftrightarrow> I (db w) \<and> (\<forall>f\<in>set (script w). \<forall>d obs. f = Raced d obs \<longrightarrow> I d)"

lemma winv_script: "winv I w \<Longrightarrow> script w = f # fs \<Longrightarrow> winv I (w\<lparr>script := fs\<rparr>)"
  by (simp add: winv_def)

lemma winv_raced:
  "winv I w \<Longrightarrow> script w = Raced d obs # fs \<Longrightarrow> winv I (w\<lparr>db := d, objects := obs, script := fs\<rparr>)"
  by (simp add: winv_def)

lemma keeps_winv_call:
  "(\<And>w. winv I w \<Longrightarrow> winv I (snd (q w))) \<Longrightarrow> keeps (winv I) (call q)"
  by (rule keeps_call) (auto intro: winv_script winv_raced)

lemma keeps_winvD: "keeps (winv I) m \<Longrightarrow> winv I w \<Longrightarrow> winv I (snd (m w))"
  by (rule keepsD)

lemma keeps_exec: "(\<And>now d. I d \<Longrightarrow> I (snd (q now d))) \<Longrightarrow> keeps (winv I) (exec q)"
  unfolding exec_def by (rule keeps_winv_call) (auto simp: winv_def Let_def case_prod_beta)

lemma keeps_exec_new: "(\<And>new now d. I d \<Longrightarrow> I (snd (q new now d))) \<Longrightarrow> keeps (winv I) (exec_new q)"
  unfolding exec_new_def by (rule keeps_winv_call) (auto simp: winv_def Let_def case_prod_beta)

text \<open>What ingestion and the queueing of webhooks write.\<close>

locale insert_invariant =
  fixes I :: "database \<Rightarrow> bool"
  assumes insert_email: "I d \<Longrightarrow> I (snd (sql_insert_email ep new now d))"
    and insert_attachment: "I d \<Longrightarrow> I (snd (sql_insert_attachment tp new now d))"
    and create_queue_item: "I d \<Longrightarrow> I (snd (sql_create_webhook_queue_item wid eid pl new now d))"
begin

lemma keeps_inserts:
  "keeps (winv I) (InsertEmail ep)" "keeps (winv I) (InsertAttachment tp)"
  "keeps (winv I) (CreateWebhookQueueItem wid eid pl)"
  unfolding InsertEmail_def InsertAttachment_def CreateWebhookQueueItem_def
  by (intro keeps_exec_new insert_email insert_attachment create_queue_item; assumption)+

end

text \<open>Every statement that writes.\<close>

locale table_invariant = insert_invariant I for I :: "database \<Rightarrow> bool" +
  assumes create_account: "I d \<Longrightarrow> I (snd (sql_create_account ap new now d))"
    and create_webhook: "I d \<Longrightarrow> I (snd (sql_create_webhook a u s new now d))"
    and update_email_flags: "I d \<Longrightarrow> I (snd (sql_update_email_flags i fl now d))"
    and mark_deleted: "I d \<Longrightarrow> I (snd (sql_mark_email_deleted_upstream i now d))"
    and mark_delivered: "I d \<Longrightarrow> I (snd (sql_mark_webhook_queue_delivered i now d))"
    and mark_failed: "I d \<Longrightarrow> I (snd (sql_mark_webhook_queue_failed i now d))"
    and delete_account: "I d \<Longrightarrow> I (snd (sql_delete_account i now d))"
    and delete_webhook: "I d \<Longrightarrow> I (snd (sql_delete_webhook i now d))"
    and delete_attachments: "I d \<Longrightarrow> I (snd (sql_delete_attachments_by_email_id i now d))"
begin

lemma keeps_writes:
  "keeps (winv I) (CreateAccount ap)" "keeps (winv I) (InsertEmail ep)"
  "keeps (winv I) (InsertAttachment tp)" "keeps (winv I) (CreateWebhook a u s)"
  "keeps (winv I) (CreateWebhookQueueItem wid eid pl)" "keeps (winv I) (UpdateEmailFlags i fl)"
  "keeps (winv I) (MarkEmailDeletedUpstream i)" "keeps (winv I) (MarkWebhookQueueDelivered i)"
  "keeps (winv I) (MarkWebhookQueueFailed i)" "keeps (winv I) (DeleteAccount i)"
  "keeps (winv I) (DeleteWebhook i)" "keeps (winv I) (DeleteAttachmentsByEmailID i)"
  unfolding CreateAccount_def CreateWebhook_def UpdateEmailFlags_def MarkEmailDeletedUpstream_def
    MarkWebhookQueueDelivered_def MarkWebhookQueueFailed_def DeleteAccount_def DeleteWebhook_def
    DeleteAttachmentsByEmailID_def
  by (rule keeps_inserts
      | intro keeps_exec keeps_exec_new create_account create_webhook update_email_flags mark_deleted
          mark_delivered mark_failed delete_account delete_webhook delete_attachments; assumption)+

end

text \<open>Reads need nothing of the predicate.\<close>

lemma keeps_reads:
  "keeps (winv I) (GetAccount i)" "keeps (winv I) ListAccounts" "keeps (winv I) (GetEmail i)"
  "keeps (winv I) (GetEmailByUID i f u)" "keeps (winv I) (ListEmails lp)"
  "keeps (winv I) (EmailExistsByUID i f u)" "keeps (winv I) (EmailExistsByMessageID i m)"
  "keeps (winv I) (CountEmailsInFolder i f)" "keeps (winv I) (SearchEmails fts sp)"
  "keeps (winv I) (CountSearchEmails fts i qs fo)" "keeps (winv I) (GetAttachmentsByEmailID i)"
  "keeps (winv I) (GetAttachment i)" "keeps (winv I) (GetWebhook i)" "keeps (winv I) ListWebhooks"
  "keeps (winv I) (GetWebhooksForAccount i)" "keeps (winv I) (GetPendingWebhookQueueItems lim)"
  "keeps (winv I) (GetWebhookQueueItem i)"
  unfolding GetAccount_def ListAccounts_def GetEmail_def GetEmailByUID_def ListEmails_def
    EmailExistsByUID_def EmailExistsByMessageID_def CountEmailsInFolder_def SearchEmails_def
    CountSearchEmails_def GetAttachmentsByEmailID_def GetAttachment_def GetWebhook_def
    ListWebhooks_def GetWebhooksForAccount_def GetPendingWebhookQueueItems_def GetWebhookQueueItem_def
  by (rule keeps_exec; simp add: selects)+

interpretation tables: table_invariant db_inv
  by unfold_locales (rule sql_inv; assumption)+

end
