(* ===== verification/Crypto.thy ===== *)
theory Crypto
  imports Database Externals
begin

text \<open>
  \<open>internal/crypto/crypto.go\<close>: passwords and webhook secrets at rest are AES-256-GCM under the
  configured key, the nonce in front, in base64; and the key itself, which
  \<open>internal/config/config.go\<close> reads from 64 hexadecimal digits. The cipher is the argument
  of \<open>Externals\<close>; \<open>aes.NewCipher\<close> and \<open>cipher.NewGCM\<close> do not fail for a key of 32 bytes.
\<close>

section \<open>Encryption at rest\<close>

definition gcm_nonce_size :: nat where "gcm_nonce_size = 12"

definition ErrInvalidKey :: goerror where
  "ErrInvalidKey = errors_New (CryptoErr CryptoInvalidKey) ''key must be 32 bytes for AES-256''"
definition ErrCiphertextTooShort :: goerror where
  "ErrCiphertextTooShort = errors_New (CryptoErr CryptoCiphertextTooShort) ''ciphertext too short''"
definition ErrDecryptionFailed :: goerror where
  "ErrDecryptionFailed =
     errors_New (CryptoErr CryptoDecryptionFailed) ''decryption failed: invalid ciphertext or wrong key''"
definition err_base64 :: goerror where
  "err_base64 = errors_New Other ''illegal base64 data''"

text \<open>\<open>rand.Read\<close> fills a zeroed buffer from the next random string of the world.\<close>

definition rand_Read :: "nat \<Rightarrow> string io" where
  "rand_Read n = call (\<lambda>w.
     (Inr (take n (rand_gen w (draws w) @ replicate n (CHR 0x00))), w\<lparr>draws := Suc (draws w)\<rparr>))"

definition Encrypt :: "externals \<Rightarrow> string \<Rightarrow> string \<Rightarrow> string io" where
  "Encrypt x plaintext key =
     (if length key \<noteq> 32 then fail ErrInvalidKey
      else check (rand_Read gcm_nonce_size) (Errorf_w ''generating nonce'')
        (\<lambda>nonce.
           let ciphertext = nonce @ x_gcm_seal x key nonce plaintext
           in ok (base64_Encode ciphertext)))"

definition Decrypt :: "externals \<Rightarrow> string \<Rightarrow> string \<Rightarrow> string res" where
  "Decrypt x ciphertext key =
     (if length key \<noteq> 32 then Inl ErrInvalidKey
      else
        (case base64_Decode ciphertext of
           None \<Rightarrow> Inl (Errorf_w ''decoding base64'' err_base64)
         | Some data \<Rightarrow>
             (if length data < gcm_nonce_size then Inl ErrCiphertextTooShort
              else
                (let nonce = take gcm_nonce_size data;
                     ciphertextBytes = drop gcm_nonce_size data
                 in case x_gcm_open x key nonce ciphertextBytes of
                      None \<Rightarrow> Inl ErrDecryptionFailed
                    | Some plaintext \<Rightarrow> Inr plaintext))))"

lemma rand_Read_length: "rand_Read n w = (Inr s, w1) \<Longrightarrow> length s = n"
  by (auto simp: rand_Read_def call_def split: list.splits outcome.splits)

lemma Encrypt_Inr:
  assumes "Encrypt x plain key w = (Inr c, w1)"
  obtains nonce where "length key = 32" and "length nonce = gcm_nonce_size"
    and "c = base64_Encode (nonce @ x_gcm_seal x key nonce plain)"
  using assms
  by (auto simp: Encrypt_def check_def Let_def dest: rand_Read_length split: if_splits prod.splits sum.splits)

lemma Decrypt_Encrypt:
  assumes "gcm_correct x" and "Encrypt x plain key w = (Inr c, w1)"
  shows "Decrypt x c key = Inr plain"
  using assms(2)
proof (rule Encrypt_Inr)
  fix nonce
  assume "length key = 32" "length nonce = gcm_nonce_size"
    "c = base64_Encode (nonce @ x_gcm_seal x key nonce plain)"
  then show ?thesis
    using assms(1) by (simp add: Decrypt_def base64_roundtrip gcm_correct_def)
qed

lemma Encrypt_not_Nil: "Encrypt x plain key w = (Inr c, w1) \<Longrightarrow> c \<noteq> []"
  by (erule Encrypt_Inr) (auto simp: gcm_nonce_size_def)

lemma Encrypt_db:
  "db_steady d w \<Longrightarrow> Encrypt x plain key w = (r, w1) \<Longrightarrow> db_steady d w1"
  by (auto simp: Encrypt_def check_def rand_Read_def call_def db_steady_def Let_def
      split: if_splits list.splits outcome.splits prod.splits sum.splits)

section \<open>Configuration\<close>

record Config =
  cfg_Port :: string
  cfg_DatabaseURL :: string
  cfg_EncryptionKey :: string
  cfg_APIKey :: string
  cfg_S3Endpoint :: string
  cfg_S3Bucket :: string
  cfg_S3AccessKey :: string
  cfg_S3SecretKey :: string
  cfg_S3Region :: string
  cfg_LogLevel :: string
  cfg_LogFormat :: string
  cfg_encryptionKeyBytes :: string

text \<open>\<open>processed\<close> is the result of \<open>envconfig.Process\<close> on the environment.\<close>

definition Load :: "Config res \<Rightarrow> Config res" where
  "Load processed =
     (case processed of
        Inl e \<Rightarrow> Inl (Errorf_w ''loading config'' e)
      | Inr cfg \<Rightarrow>
          (case hex_DecodeString (cfg_EncryptionKey cfg) of
             None \<Rightarrow> Inl (Errorf_w ''LETTERBOX_ENCRYPTION_KEY must be valid hex''
                            (errors_New Other ''encoding/hex''))
           | Some keyBytes \<Rightarrow>
               (if length keyBytes \<noteq> 32
                then Inl (errors_New Other
                  (''LETTERBOX_ENCRYPTION_KEY must be 64 hex chars (32 bytes), got ''
                     @ Itoa (int (length keyBytes)) @ '' bytes''))
                else Inr (cfg\<lparr>cfg_encryptionKeyBytes := keyBytes\<rparr>))))"

definition EncryptionKeyBytes :: "Config \<Rightarrow> string" where
  "EncryptionKeyBytes c = cfg_encryptionKeyBytes c"

lemma Load_key_length: "Load p = Inr cfg \<Longrightarrow> length (EncryptionKeyBytes cfg) = 32"
  by (auto simp: Load_def EncryptionKeyBytes_def split: sum.splits option.splits if_splits)

end
