(* ===== verification/Storage.thy ===== *)
theory Storage
  imports Database
begin

text \<open>
  \<open>internal/storage/s3.go\<close>: the attachment store. The bucket's objects are the map
  \<open>objects\<close> of the world, each request is one external call. The AWS client's URL signing is
  the argument \<open>presign\<close>, with its result or error for a bucket, a key and an expiry.
\<close>

section \<open>The interface of an object store\<close>

text \<open>What a caller relies on: reading after a write or a removal.\<close>

locale object_store =
  fixes put :: "'k \<Rightarrow> 'v \<Rightarrow> 's \<Rightarrow> 's"
    and remove :: "'k \<Rightarrow> 's \<Rightarrow> 's"
    and get :: "'s \<Rightarrow> 'k \<Rightarrow> 'v option"
  assumes get_put: "get (put k v s) j = (if j = k then Some v else get s j)"
    and get_remove: "get (remove k s) j = (if j = k then None else get s j)"
begin

lemma get_fold_remove: "get (fold remove ks s) j = (if j \<in> set ks then None else get s j)"
  by (induction ks arbitrary: s) (auto simp: get_remove)

lemma get_fold_put_other:
  "j \<notin> fst ` set kvs \<Longrightarrow> get (fold (\<lambda>(k, v). put k v) kvs s) j = get s j"
  by (induction kvs arbitrary: s) (auto simp: get_put)

lemma get_fold_put:
  "distinct (map fst kvs) \<Longrightarrow> (k, v) \<in> set kvs \<Longrightarrow> get (fold (\<lambda>(k, v). put k v) kvs s) k = Some v"
proof (induction kvs arbitrary: s)
  case (Cons kv kvs)
  then show ?case
    by (cases "kv = (k, v)") (auto simp: get_fold_put_other get_put split: prod.splits)
qed simp

text \<open>Storing a batch and then removing its keys leaves every other object as it was and none
  of the batch.\<close>

lemma store_then_cleanup:
  "get (fold remove (map fst kvs) (fold (\<lambda>(k, v). put k v) kvs s)) j
     = (if j \<in> fst ` set kvs then None else get s j)"
  by (auto simp: get_fold_remove get_fold_put_other)

end

section \<open>The S3 client\<close>

record S3Storage =
  s3_presign :: "string \<Rightarrow> string \<Rightarrow> int \<Rightarrow> string res"
  s3_bucket :: string
  s3_endpoint :: string

record S3Config =
  s3c_Endpoint :: string
  s3c_Bucket :: string
  s3c_AccessKey :: string
  s3c_SecretKey :: string
  s3c_Region :: string

text \<open>\<open>new_presigner\<close> stands for \<open>s3.New\<close> and \<open>s3.NewPresignClient\<close>: the signer of a
  configuration.\<close>

definition NewS3Storage ::
  "(S3Config \<Rightarrow> string \<Rightarrow> string \<Rightarrow> int \<Rightarrow> string res) \<Rightarrow> S3Config \<Rightarrow> S3Storage res" where
  "NewS3Storage new_presigner cfg =
     (if s3c_Endpoint cfg = [] then Inl (errors_New Other ''S3 endpoint is required'')
      else if s3c_Bucket cfg = [] then Inl (errors_New Other ''S3 bucket is required'')
      else if s3c_AccessKey cfg = [] \<or> s3c_SecretKey cfg = []
      then Inl (errors_New Other ''S3 credentials are required'')
      else
        let cfg1 = (if s3c_Region cfg = [] then cfg\<lparr>s3c_Region := ''us-east-1''\<rparr> else cfg)
        in Inr \<lparr>s3_presign = new_presigner cfg1, s3_bucket = s3c_Bucket cfg1,
                s3_endpoint = s3c_Endpoint cfg1\<rparr>)"

definition AttachmentKey :: "string \<Rightarrow> int \<Rightarrow> string \<Rightarrow> string" where
  "AttachmentKey accountID emailUID filename =
     (let safeFilename = filepath_Base filename
      in accountID @ ''/'' @ Itoa emailUID @ ''/'' @ safeFilename)"

text \<open>The requests on the bucket.\<close>

definition s3_put :: "string \<Rightarrow> string \<Rightarrow> world \<Rightarrow> world" where
  "s3_put key data w = w\<lparr>objects := (objects w)(key \<mapsto> data)\<rparr>"

definition s3_remove :: "string \<Rightarrow> world \<Rightarrow> world" where
  "s3_remove key w = w\<lparr>objects := (objects w)(key := None)\<rparr>"

interpretation s3: object_store s3_put s3_remove objects
  by unfold_locales (simp_all add: s3_put_def s3_remove_def)

definition s3_PutObject :: "string \<Rightarrow> string \<Rightarrow> unit io" where
  "s3_PutObject key data = call (\<lambda>w. (Inr (), s3_put key data w))"

definition s3_DeleteObject :: "string \<Rightarrow> unit io" where
  "s3_DeleteObject key = call (\<lambda>w. (Inr (), s3_remove key w))"

definition s3_GetObject :: "string \<Rightarrow> string io" where
  "s3_GetObject key = call (\<lambda>w.
     (case objects w key of
        None \<Rightarrow> (Inl (errors_New S3NoSuchKey ''NoSuchKey''), w)
      | Some data \<Rightarrow> (Inr data, w)))"

definition s3_HeadObject :: "string \<Rightarrow> unit io" where
  "s3_HeadObject key = call (\<lambda>w.
     (if objects w key = None then (Inl (errors_New S3NotFound ''NotFound''), w) else (Inr (), w)))"

definition s3_HeadBucket :: "unit io" where "s3_HeadBucket = call (\<lambda>w. (Inr (), w))"

text \<open>The methods of \<open>S3Storage\<close>. Reading the body of a GET is a call of its own: it may fail.\<close>

definition Upload :: "S3Storage \<Rightarrow> string \<Rightarrow> string \<Rightarrow> string \<Rightarrow> string io" where
  "Upload s key data contentType =
     check (s3_PutObject key data) (Errorf_w ''uploading to S3'')
       (\<lambda>_. ok (s3_endpoint s @ ''/'' @ s3_bucket s @ ''/'' @ key))"

definition GeneratePresignedURL :: "S3Storage \<Rightarrow> string \<Rightarrow> int \<Rightarrow> string io" where
  "GeneratePresignedURL s key expiry =
     check (call (\<lambda>w. (s3_presign s (s3_bucket s) key expiry, w)))
       (Errorf_w ''generating presigned URL'') ok"

definition Download :: "S3Storage \<Rightarrow> string \<Rightarrow> string io" where
  "Download s key =
     check (s3_GetObject key) (Errorf_w ''downloading from S3'')
       (\<lambda>body. check (call (ok body)) (Errorf_w ''reading S3 object body'') ok)"

definition s3_Delete :: "S3Storage \<Rightarrow> string \<Rightarrow> unit io" where
  "s3_Delete s key = check (s3_DeleteObject key) (Errorf_w ''deleting from S3'') ok"

definition s3_Exists :: "S3Storage \<Rightarrow> string \<Rightarrow> bool io" where
  "s3_Exists s key w =
     (case s3_HeadObject key w of
        (Inl e, w1) \<Rightarrow>
          (if errors_Is e S3NotFound then (Inr False, w1)
           else if errors_Is e S3NoSuchKey then (Inr False, w1)
           else (Inl (Errorf_w ''checking S3 object existence'' e), w1))
      | (Inr _, w1) \<Rightarrow> (Inr True, w1))"

definition s3_Ping :: "S3Storage \<Rightarrow> unit io" where
  "s3_Ping s = check s3_HeadBucket (Errorf_w ''S3 bucket not accessible'') ok"

section \<open>Behaviour\<close>

lemma script_s3 [simp]: "script (s3_put k d w) = script w" "script (s3_remove k w) = script w"
  by (simp_all add: s3_put_def s3_remove_def)

lemma db_s3 [simp]: "db (s3_put k d w) = db w" "db (s3_remove k w) = db w"
  by (simp_all add: s3_put_def s3_remove_def)

lemma Upload_healthy:
  "script w = [] \<Longrightarrow>
   Upload s key data ct w = (Inr (s3_endpoint s @ ''/'' @ s3_bucket s @ ''/'' @ key), s3_put key data w)"
  by (simp add: Upload_def check_def s3_PutObject_def call_healthy)

lemma s3_Delete_healthy: "script w = [] \<Longrightarrow> s3_Delete s key w = (Inr (), s3_remove key w)"
  by (simp add: s3_Delete_def check_def s3_DeleteObject_def call_healthy)

lemma Download_healthy:
  "script w = [] \<Longrightarrow> objects w key = Some data \<Longrightarrow> Download s key w = (Inr data, w)"
  by (simp add: Download_def check_def s3_GetObject_def call_healthy)

lemma s3_Exists_healthy: "script w = [] \<Longrightarrow> s3_Exists s key w = (Inr (objects w key \<noteq> None), w)"
  by (simp add: s3_Exists_def s3_HeadObject_def call_healthy)

text \<open>A key never lets a file name reach another account's or message's objects: the account
  and the UID are the first two components, and the rest has no separator.\<close>

lemma AttachmentKey_split:
  assumes "CHR ''/'' \<notin> set acc" and "CHR ''/'' \<notin> set acc'"
    and "AttachmentKey acc uid f = AttachmentKey acc' uid' f'"
  shows "acc = acc' \<and> uid = uid' \<and> filepath_Base f = filepath_Base f'"
proof -
  have eq: "acc @ CHR ''/'' # (Itoa uid @ CHR ''/'' # filepath_Base f)
      = acc' @ CHR ''/'' # (Itoa uid' @ CHR ''/'' # filepath_Base f')"
    using assms(3) by (simp add: AttachmentKey_def Let_def)
  have no_sep: "CHR ''/'' \<notin> set (Itoa i)" for i
    using Itoa_chars [of "CHR ''/''" i] by (auto simp: digit_val_def)
  from split_at_first [OF assms(1,2) eq]
  have "acc = acc'" and eq2: "Itoa uid @ CHR ''/'' # filepath_Base f = Itoa uid' @ CHR ''/'' # filepath_Base f'"
    by auto
  from split_at_first [OF no_sep no_sep eq2] have "Itoa uid = Itoa uid'" "filepath_Base f = filepath_Base f'" by auto
  then show ?thesis using \<open>acc = acc'\<close> Itoa_inject by auto
qed

end
