(* ===== verification/Repositories.thy ===== *)
theory Repositories
  imports DatabaseInv Crypto Storage
begin

text \<open>
  \<open>internal/repository\<close>: the four repositories over the SQL queries. Errors of
  PostgreSQL become the package's sentinels, passwords and webhook secrets are encrypted on the
  way in and decrypted on the way out, NULL columns become zero values.
\<close>

section \<open>Errors\<close>

definition repo_ErrEmailNotFound where
  "repo_ErrEmailNotFound = errors_New (RepoErr RepoEmailNotFound) ''email not found''"
definition repo_ErrEmailAlreadyExists where
  "repo_ErrEmailAlreadyExists = errors_New (RepoErr RepoEmailAlreadyExists) ''email already exists''"
definition repo_ErrInvalidSearchQuery where
  "repo_ErrInvalidSearchQuery = errors_New (RepoErr RepoInvalidSearchQuery) ''invalid search query syntax''"
definition repo_ErrAccountNotFound where
  "repo_ErrAccountNotFound = errors_New (RepoErr RepoAccountNotFound) ''account not found''"
definition repo_ErrInvalidKey where
  "repo_ErrInvalidKey = errors_New (RepoErr RepoInvalidKey) ''encryption key must be 32 bytes''"
definition repo_ErrEmptyImapPassword where
  "repo_ErrEmptyImapPassword = errors_New (RepoErr RepoEmptyImapPassword) ''imap password is required''"
definition repo_ErrAttachmentNotFound where
  "repo_ErrAttachmentNotFound = errors_New (RepoErr RepoAttachmentNotFound) ''attachment not found''"
definition repo_ErrWebhookNotFound where
  "repo_ErrWebhookNotFound = errors_New (RepoErr RepoWebhookNotFound) ''webhook not found''"
definition repo_ErrEmptyAccountID where
  "repo_ErrEmptyAccountID = errors_New (RepoErr RepoEmptyAccountID) ''webhook account_id is required''"
definition repo_ErrEmptyURL where
  "repo_ErrEmptyURL = errors_New (RepoErr RepoEmptyURL) ''webhook URL is required''"
definition repo_ErrEmptySecret where
  "repo_ErrEmptySecret = errors_New (RepoErr RepoEmptySecret) ''webhook secret is required''"

lemmas repo_errors [go_defs] = repo_ErrEmailNotFound_def repo_ErrEmailAlreadyExists_def
  repo_ErrInvalidSearchQuery_def repo_ErrAccountNotFound_def repo_ErrInvalidKey_def
  repo_ErrEmptyImapPassword_def repo_ErrAttachmentNotFound_def repo_ErrWebhookNotFound_def
  repo_ErrEmptyAccountID_def repo_ErrEmptyURL_def repo_ErrEmptySecret_def

text \<open>\<open>if errors.Is(err, pgx.ErrNoRows) { return nil, notFound }; if err != nil { return wrap(err) }\<close>\<close>

definition not_found :: "goerror \<Rightarrow> string \<Rightarrow> goerror \<Rightarrow> goerror" where
  "not_found notFound prefix e = (if errors_Is e NoRows then notFound else Errorf_w prefix e)"

text \<open>\<open>errors.As(err, &pgErr) && pgErr.Code == code\<close>; \<open>As\<close> finds the first PostgreSQL error.\<close>

fun first_pg_code :: "cause list \<Rightarrow> string option" where
  "first_pg_code [] = None"
| "first_pg_code (PgError code # cs) = Some code"
| "first_pg_code (c # cs) = first_pg_code cs"

definition pg_code_is :: "goerror \<Rightarrow> string \<Rightarrow> bool" where
  "pg_code_is e code \<longleftrightarrow> first_pg_code (causes e) = Some code"

lemma pg_code_is_pg_error [simp]: "pg_code_is (pg_error c) code \<longleftrightarrow> c = code"
  by (simp add: pg_code_is_def pg_error_def)

text \<open>The loop of the \<open>List\<close> methods: convert every row, fail at the first that does not convert.\<close>

fun convert_rows :: "('r \<Rightarrow> 'a res) \<Rightarrow> ('r \<Rightarrow> goerror \<Rightarrow> goerror) \<Rightarrow> 'r list \<Rightarrow> 'a list res" where
  "convert_rows f wrap [] = Inr []"
| "convert_rows f wrap (r # rs) =
     (case f r of
        Inl e \<Rightarrow> Inl (wrap r e)
      | Inr x \<Rightarrow>
          (case convert_rows f wrap rs of Inl e \<Rightarrow> Inl e | Inr xs \<Rightarrow> Inr (x # xs)))"

definition ret :: "'a res \<Rightarrow> 'a io" where "ret r w = (r, w)"

lemma keeps_ret [inv_intros]: "keeps P (ret r)" by (simp add: keeps_def ret_def)

lemma ret_simp [simp]: "ret r w = (r, w)" by (simp add: ret_def)

lemma convert_rows_total:
  "\<forall>r\<in>set rs. f r = Inr (g r) \<Longrightarrow> convert_rows f wrap rs = Inr (map g rs)"
  by (induction rs) auto

lemma convert_rows_Inr:
  "convert_rows f wrap rs = Inr xs \<Longrightarrow> list_all2 (\<lambda>r x. f r = Inr x) rs xs"
  by (induction rs arbitrary: xs) (auto split: sum.splits)

section \<open>EmailRepository\<close>

definition unmarshal_recipients :: "string \<Rightarrow> jsonb option \<Rightarrow> EmailAddress list res" where
  "unmarshal_recipients prefix col =
     (case col of
        None \<Rightarrow> Inr []
      | Some (JAddrs as) \<Rightarrow> Inr as
      | Some (JBad m) \<Rightarrow> Inl (Errorf_w prefix (errors_New Other m)))"

definition time_of :: "time option \<Rightarrow> time" where
  "time_of t = (case t of None \<Rightarrow> time_zero | Some t' \<Rightarrow> t')"

definition toEmail :: "email_row \<Rightarrow> email res" where
  "toEmail r =
     (case unmarshal_recipients ''unmarshaling to recipients'' (dbE_ToRecipients r) of
        Inl e \<Rightarrow> Inl e
      | Inr to \<Rightarrow>
          (case unmarshal_recipients ''unmarshaling cc recipients'' (dbE_CcRecipients r) of
             Inl e \<Rightarrow> Inl e
           | Inr cc \<Rightarrow>
               Inr \<lparr>em_ID = dbE_ID r, em_AccountID = dbE_AccountID r, em_UID = dbE_Uid r,
                    em_MessageID = derefString (dbE_MessageID r), em_Folder = dbE_Folder r,
                    em_Subject = derefString (dbE_Subject r),
                    em_FromEmail = derefString (dbE_FromEmail r),
                    em_FromName = derefString (dbE_FromName r), em_To = to, em_CC = cc,
                    em_Date = time_of (dbE_Date r), em_ParsedText = derefString (dbE_ParsedText r),
                    em_ParsedHTML = derefString (dbE_ParsedHtml r), em_Raw = derefString (dbE_Raw r),
                    em_Flags = (case dbE_Flags r of None \<Rightarrow> [] | Some fs \<Rightarrow> fs),
                    em_DeletedUpstream = (case dbE_DeletedUpstream r of None \<Rightarrow> False | Some b \<Rightarrow> b),
                    em_CreatedAt = dbE_CreatedAt r, em_Attachments = None\<rparr>))"

text \<open>A nil recipient slice is stored as the empty array; \<open>json.Marshal\<close> makes the texts UTF-8.\<close>

definition marshal_recipients :: "EmailAddress list option \<Rightarrow> EmailAddress list" where
  "marshal_recipients as =
     map (\<lambda>a. \<lparr>ea_Name = json_coerce (ea_Name a), ea_Email = json_coerce (ea_Email a)\<rparr>)
       (case as of None \<Rightarrow> [] | Some bs \<Rightarrow> bs)"

definition insert_email_params :: "CreateEmailInput \<Rightarrow> InsertEmailParams" where
  "insert_email_params i =
     \<lparr>iep_AccountID = cei_AccountID i, iep_Uid = cei_UID i, iep_MessageID = ptrString (cei_MessageID i),
      iep_Folder = cei_Folder i, iep_Subject = ptrString (cei_Subject i),
      iep_FromEmail = ptrString (cei_FromEmail i), iep_FromName = ptrString (cei_FromName i),
      iep_ToRecipients = marshal_recipients (cei_To i),
      iep_CcRecipients = marshal_recipients (cei_CC i),
      iep_Date = timeToPgtype (cei_Date i), iep_ParsedText = ptrString (cei_ParsedText i),
      iep_ParsedHtml = ptrString (cei_ParsedHTML i), iep_Raw = ptrString (cei_Raw i),
      iep_Flags = cei_Flags i\<rparr>"

definition EmailRepository_Create :: "CreateEmailInput \<Rightarrow> email io" where
  "EmailRepository_Create input =
     check (InsertEmail (insert_email_params input))
       (\<lambda>e. if pg_code_is e ''23505'' then repo_ErrEmailAlreadyExists else Errorf_w ''inserting email'' e)
       (\<lambda>row. ret (toEmail row))"

definition EmailRepository_Get :: "uuid \<Rightarrow> email io" where
  "EmailRepository_Get i =
     check (GetEmail i) (not_found repo_ErrEmailNotFound ''getting email'') (\<lambda>row. ret (toEmail row))"

definition EmailRepository_GetByUID :: "uuid \<Rightarrow> string \<Rightarrow> int \<Rightarrow> email io" where
  "EmailRepository_GetByUID acc folder uid =
     check (GetEmailByUID acc folder uid) (not_found repo_ErrEmailNotFound ''getting email by uid'')
       (\<lambda>row. ret (toEmail row))"

definition converting_email :: "externals \<Rightarrow> email_row \<Rightarrow> goerror \<Rightarrow> goerror" where
  "converting_email x r = Errorf_w (''converting email '' @ x_pguuid_String x (dbE_ID r))"

definition list_emails_params :: "ListEmailsFilter \<Rightarrow> ListEmailsParams" where
  "list_emails_params f =
     \<lparr>lep_AccountID = lef_AccountID f, lep_Folder = lef_Folder f,
      lep_Limit = int32 (lef_Limit f), lep_Offset = int32 (lef_Offset f),
      lep_Before = (case lef_Before f of None \<Rightarrow> None | Some t \<Rightarrow> timeToPgtype t),
      lep_After = (case lef_After f of None \<Rightarrow> None | Some t \<Rightarrow> timeToPgtype t)\<rparr>"

definition EmailRepository_List :: "externals \<Rightarrow> ListEmailsFilter \<Rightarrow> email list io" where
  "EmailRepository_List x f =
     check (ListEmails (list_emails_params f)) (Errorf_w ''listing emails'')
       (\<lambda>rows. ret (convert_rows toEmail (converting_email x) rows))"

definition ExistsByUID :: "uuid \<Rightarrow> string \<Rightarrow> int \<Rightarrow> bool io" where
  "ExistsByUID acc folder uid =
     check (EmailExistsByUID acc folder uid) (Errorf_w ''checking email exists by uid'') ok"

definition ExistsByMessageID :: "uuid \<Rightarrow> string \<Rightarrow> bool io" where
  "ExistsByMessageID acc mid =
     check (EmailExistsByMessageID acc (ptrString mid))
       (Errorf_w ''checking email exists by message_id'') ok"

definition UpdateFlags :: "uuid \<Rightarrow> string list option \<Rightarrow> unit io" where
  "UpdateFlags i flags =
     check (UpdateEmailFlags i flags) (Errorf_w ''updating email flags'')
       (\<lambda>rows. if rows = 0 then fail repo_ErrEmailNotFound else ok ())"

definition MarkDeletedUpstream :: "uuid \<Rightarrow> unit io" where
  "MarkDeletedUpstream i =
     check (MarkEmailDeletedUpstream i) (Errorf_w ''marking email deleted upstream'')
       (\<lambda>rows. if rows = 0 then fail repo_ErrEmailNotFound else ok ())"

definition CountInFolder :: "uuid \<Rightarrow> string \<Rightarrow> int io" where
  "CountInFolder acc folder =
     check (CountEmailsInFolder acc folder) (Errorf_w ''counting emails in folder'') ok"

definition search_error :: "string \<Rightarrow> goerror \<Rightarrow> goerror" where
  "search_error prefix e =
     (if pg_code_is e ''42601'' then repo_ErrInvalidSearchQuery else Errorf_w prefix e)"

definition search_emails_params :: "SearchEmailsFilter \<Rightarrow> SearchEmailsParams" where
  "search_emails_params f =
     \<lparr>sep_AccountID = sef_AccountID f, sep_Query = sef_Query f, sep_Limit = int32 (sef_Limit f),
      sep_Offset = int32 (sef_Offset f),
      sep_Folder = (if sef_Folder f \<noteq> [] then Some (sef_Folder f) else None)\<rparr>"

definition Search :: "externals \<Rightarrow> fts \<Rightarrow> SearchEmailsFilter \<Rightarrow> email list io" where
  "Search x fts f =
     check (SearchEmails fts (search_emails_params f)) (search_error ''searching emails'')
       (\<lambda>rows. ret (convert_rows toEmail (converting_email x) rows))"

definition CountSearch :: "fts \<Rightarrow> uuid \<Rightarrow> string \<Rightarrow> string \<Rightarrow> int io" where
  "CountSearch fts acc query folder =
     check (CountSearchEmails fts acc query (if folder \<noteq> [] then Some folder else None))
       (search_error ''counting search results'') ok"

section \<open>AttachmentRepository\<close>

definition toAttachment :: "attachment_row \<Rightarrow> attachment" where
  "toAttachment r =
     \<lparr>att_ID = dbT_ID r, att_EmailID = dbT_EmailID r, att_Filename = dbT_Filename r,
      att_ContentType = dbT_ContentType r, att_Size = dbT_Size r, att_S3Key = dbT_S3Key r\<rparr>"

definition AttachmentRepository_Create :: "CreateAttachmentInput \<Rightarrow> attachment io" where
  "AttachmentRepository_Create i =
     check (InsertAttachment \<lparr>iap_EmailID = cai_EmailID i, iap_Filename = cai_Filename i,
              iap_ContentType = cai_ContentType i, iap_Size = cai_Size i, iap_S3Key = cai_S3Key i\<rparr>)
       (Errorf_w ''inserting attachment'') (\<lambda>row. ok (toAttachment row))"

definition AttachmentRepository_Get :: "uuid \<Rightarrow> attachment io" where
  "AttachmentRepository_Get i =
     check (GetAttachment i) (not_found repo_ErrAttachmentNotFound ''getting attachment'')
       (\<lambda>row. ok (toAttachment row))"

definition GetByEmailID :: "uuid \<Rightarrow> attachment list io" where
  "GetByEmailID i =
     check (GetAttachmentsByEmailID i) (Errorf_w ''getting attachments by email id'')
       (\<lambda>rows. ok (map toAttachment rows))"

definition DeleteByEmailID :: "uuid \<Rightarrow> unit io" where
  "DeleteByEmailID i =
     check (DeleteAttachmentsByEmailID i) (Errorf_w ''deleting attachments by email id'') ok"

section \<open>AccountRepository\<close>

definition key_error :: "string \<Rightarrow> goerror" where
  "key_error key = Errorf_wv (RepoErr RepoInvalidKey) (msg repo_ErrInvalidKey)
     (errors_New Other (''got '' @ Itoa (int (length key)) @ '' bytes''))"

text \<open>A repository with a key is its key: the constructor checks it.\<close>

definition NewAccountRepository :: "string \<Rightarrow> string res" where
  "NewAccountRepository encryptionKey =
     (if length encryptionKey \<noteq> 32 then Inl (key_error encryptionKey) else Inr encryptionKey)"

definition toAccount :: "externals \<Rightarrow> string \<Rightarrow> account_row \<Rightarrow> account res" where
  "toAccount x key r =
     (case Decrypt x (dbA_ImapPassword r) key of
        Inl e \<Rightarrow> Inl (Errorf_w ''decrypting imap password'' e)
      | Inr imapPassword \<Rightarrow>
          (case (case dbA_SmtpPassword r of
                   None \<Rightarrow> Inr []
                 | Some c \<Rightarrow>
                     (if c = [] then Inr []
                      else case Decrypt x c key of
                             Inl e \<Rightarrow> Inl (Errorf_w ''decrypting smtp password'' e)
                           | Inr p \<Rightarrow> Inr p)) of
             Inl e \<Rightarrow> Inl e
           | Inr smtpPassword \<Rightarrow>
               Inr \<lparr>acc_ID = dbA_ID r, acc_Name = dbA_Name r, acc_ImapHost = dbA_ImapHost r,
                    acc_ImapPort = dbA_ImapPort r, acc_ImapUser = dbA_ImapUser r,
                    acc_ImapPassword = imapPassword, acc_SmtpHost = derefString (dbA_SmtpHost r),
                    acc_SmtpPort = derefInt32 (dbA_SmtpPort r),
                    acc_SmtpUser = derefString (dbA_SmtpUser r), acc_SmtpPassword = smtpPassword,
                    acc_CreatedAt = dbA_CreatedAt r\<rparr>))"

definition create_account_params ::
  "CreateAccountInput \<Rightarrow> string \<Rightarrow> string option \<Rightarrow> CreateAccountParams" where
  "create_account_params i encryptedImapPass encryptedSmtpPass =
     \<lparr>cap_Name = cac_Name i, cap_ImapHost = cac_ImapHost i, cap_ImapPort = int32 (cac_ImapPort i),
      cap_ImapUser = cac_ImapUser i, cap_ImapPassword = encryptedImapPass,
      cap_SmtpHost = ptrString (cac_SmtpHost i), cap_SmtpPort = ptrInt32 (cac_SmtpPort i),
      cap_SmtpUser = ptrString (cac_SmtpUser i), cap_SmtpPassword = encryptedSmtpPass\<rparr>"

definition AccountRepository_Create :: "externals \<Rightarrow> string \<Rightarrow> CreateAccountInput \<Rightarrow> account io" where
  "AccountRepository_Create x key input =
     (if cac_ImapPassword input = [] then fail repo_ErrEmptyImapPassword
      else check (Encrypt x (cac_ImapPassword input) key) (Errorf_w ''encrypting imap password'')
        (\<lambda>encryptedImapPass.
          check (if cac_SmtpPassword input \<noteq> []
                 then check (Encrypt x (cac_SmtpPassword input) key)
                        (Errorf_w ''encrypting smtp password'') (\<lambda>c. ok (Some c))
                 else ok None) (\<lambda>e. e)
            (\<lambda>encryptedSmtpPass.
              check (CreateAccount (create_account_params input encryptedImapPass encryptedSmtpPass))
                (Errorf_w ''creating account'') (\<lambda>row. ret (toAccount x key row)))))"

definition AccountRepository_Get :: "externals \<Rightarrow> string \<Rightarrow> uuid \<Rightarrow> account io" where
  "AccountRepository_Get x key i =
     check (GetAccount i) (not_found repo_ErrAccountNotFound ''getting account'')
       (\<lambda>row. ret (toAccount x key row))"

definition listing_account :: "externals \<Rightarrow> account_row \<Rightarrow> goerror \<Rightarrow> goerror" where
  "listing_account x r = Errorf_w
     (''account '' @ x_quote x (dbA_Name r) @ '' (id='' @ uuid_bytes_v (dbA_ID r) @ '')'')"

definition AccountRepository_List :: "externals \<Rightarrow> string \<Rightarrow> account list io" where
  "AccountRepository_List x key =
     check ListAccounts (Errorf_w ''listing accounts'')
       (\<lambda>rows. ret (convert_rows (toAccount x key) (listing_account x) rows))"

definition AccountRepository_Delete :: "uuid \<Rightarrow> unit io" where
  "AccountRepository_Delete i =
     check (DeleteAccount i) (Errorf_w ''deleting account'')
       (\<lambda>rows. if rows = 0 then fail repo_ErrAccountNotFound else ok ())"

section \<open>WebhookRepository\<close>

definition NewWebhookRepository :: "string \<Rightarrow> string res" where
  "NewWebhookRepository encryptionKey =
     (if length encryptionKey \<noteq> 32 then Inl (key_error encryptionKey) else Inr encryptionKey)"

definition toWebhook :: "externals \<Rightarrow> string \<Rightarrow> webhook_row \<Rightarrow> webhook res" where
  "toWebhook x key r =
     (case Decrypt x (dbW_Secret r) key of
        Inl e \<Rightarrow> Inl (Errorf_w ''decrypting secret'' e)
      | Inr secret \<Rightarrow>
          Inr \<lparr>wh_ID = dbW_ID r, wh_AccountID = dbW_AccountID r, wh_URL = dbW_Url r,
               wh_Secret = secret, wh_CreatedAt = dbW_CreatedAt r\<rparr>)"

definition WebhookRepository_Create :: "externals \<Rightarrow> string \<Rightarrow> CreateWebhookInput \<Rightarrow> webhook io" where
  "WebhookRepository_Create x key input =
     (if cwi_AccountID input = uuid_Nil then fail repo_ErrEmptyAccountID
      else if cwi_URL input = [] then fail repo_ErrEmptyURL
      else if cwi_Secret input = [] then fail repo_ErrEmptySecret
      else check (Encrypt x (cwi_Secret input) key) (Errorf_w ''encrypting secret'')
        (\<lambda>encryptedSecret.
          check (CreateWebhook (cwi_AccountID input) (cwi_URL input) encryptedSecret)
            (Errorf_w ''creating webhook'') (\<lambda>row. ret (toWebhook x key row))))"

definition WebhookRepository_Get :: "externals \<Rightarrow> string \<Rightarrow> uuid \<Rightarrow> webhook io" where
  "WebhookRepository_Get x key i =
     check (GetWebhook i) (not_found repo_ErrWebhookNotFound ''getting webhook'')
       (\<lambda>row. ret (toWebhook x key row))"

definition listing_webhook :: "webhook_row \<Rightarrow> goerror \<Rightarrow> goerror" where
  "listing_webhook r = Errorf_w (''webhook id='' @ uuid_bytes_v (dbW_ID r))"

definition WebhookRepository_List :: "externals \<Rightarrow> string \<Rightarrow> webhook list io" where
  "WebhookRepository_List x key =
     check ListWebhooks (Errorf_w ''listing webhooks'')
       (\<lambda>rows. ret (convert_rows (toWebhook x key) listing_webhook rows))"

definition GetForAccount :: "externals \<Rightarrow> string \<Rightarrow> uuid \<Rightarrow> webhook list io" where
  "GetForAccount x key acc =
     check (GetWebhooksForAccount acc) (Errorf_w ''getting webhooks for account'')
       (\<lambda>rows. ret (convert_rows (toWebhook x key) listing_webhook rows))"

definition WebhookRepository_Delete :: "uuid \<Rightarrow> unit io" where
  "WebhookRepository_Delete i =
     check (DeleteWebhook i) (Errorf_w ''deleting webhook'')
       (\<lambda>rows. if rows = 0 then fail repo_ErrWebhookNotFound else ok ())"

section \<open>What the repositories keep\<close>

lemma keeps_rand_Read [inv_intros]: "keeps (winv I) (rand_Read n)"
  unfolding rand_Read_def by (rule keeps_winv_call) (simp add: winv_def)

lemma keeps_Encrypt [inv_intros]: "keeps (winv I) (Encrypt x p key)"
  unfolding Encrypt_def Let_def by (intro inv_intros)

lemmas repository_defs = EmailRepository_Create_def EmailRepository_Get_def
  EmailRepository_GetByUID_def EmailRepository_List_def ExistsByUID_def ExistsByMessageID_def
  UpdateFlags_def MarkDeletedUpstream_def CountInFolder_def Search_def CountSearch_def
  AttachmentRepository_Create_def AttachmentRepository_Get_def GetByEmailID_def
  DeleteByEmailID_def AccountRepository_Create_def AccountRepository_Get_def
  AccountRepository_List_def AccountRepository_Delete_def WebhookRepository_Create_def
  WebhookRepository_Get_def WebhookRepository_List_def GetForAccount_def
  WebhookRepository_Delete_def

lemma keeps_repository_reads [inv_intros]:
  "keeps (winv I) (EmailRepository_Get i)" "keeps (winv I) (EmailRepository_GetByUID i f u)"
  "keeps (winv I) (EmailRepository_List x lf)" "keeps (winv I) (ExistsByUID i f u)"
  "keeps (winv I) (ExistsByMessageID i m)" "keeps (winv I) (CountInFolder i f)"
  "keeps (winv I) (Search x fts sf)" "keeps (winv I) (CountSearch fts i m f)"
  "keeps (winv I) (AttachmentRepository_Get i)" "keeps (winv I) (GetByEmailID i)"
  "keeps (winv I) (AccountRepository_Get x key i)" "keeps (winv I) (AccountRepository_List x key)"
  "keeps (winv I) (WebhookRepository_Get x key i)" "keeps (winv I) (WebhookRepository_List x key)"
  "keeps (winv I) (GetForAccount x key i)"
  unfolding repository_defs by (intro inv_intros keeps_reads)+

context insert_invariant
begin

lemma keeps_repository_inserts:
  "keeps (winv I) (EmailRepository_Create ei)" "keeps (winv I) (AttachmentRepository_Create ai)"
  unfolding repository_defs by (intro inv_intros keeps_inserts)+

end

context table_invariant
begin

lemma keeps_repository_writes:
  "keeps (winv I) (EmailRepository_Create ei)" "keeps (winv I) (UpdateFlags i fl)"
  "keeps (winv I) (MarkDeletedUpstream i)" "keeps (winv I) (AttachmentRepository_Create ai)"
  "keeps (winv I) (DeleteByEmailID i)" "keeps (winv I) (AccountRepository_Create x key ci)"
  "keeps (winv I) (AccountRepository_Delete i)" "keeps (winv I) (WebhookRepository_Create x key wi)"
  "keeps (winv I) (WebhookRepository_Delete i)"
  unfolding repository_defs by (intro inv_intros keeps_writes)+

end

section \<open>Properties of the repositories\<close>

lemma toEmail_inserted:
  assumes "sql_insert_email (insert_email_params i) new now d = (Inr row, d1)"
  shows "toEmail row = Inr
    \<lparr>em_ID = new, em_AccountID = cei_AccountID i, em_UID = cei_UID i,
     em_MessageID = cei_MessageID i, em_Folder = cei_Folder i, em_Subject = cei_Subject i,
     em_FromEmail = cei_FromEmail i, em_FromName = cei_FromName i,
     em_To = marshal_recipients (cei_To i), em_CC = marshal_recipients (cei_CC i),
     em_Date = pg_micros (cei_Date i), em_ParsedText = cei_ParsedText i,
     em_ParsedHTML = cei_ParsedHTML i, em_Raw = cei_Raw i,
     em_Flags = (case cei_Flags i of None \<Rightarrow> [] | Some fs \<Rightarrow> fs), em_DeletedUpstream = False,
     em_CreatedAt = now, em_Attachments = None\<rparr>"
  using assms
  by (auto simp: sql_insert_email_def text_params_def jsonb_params_def insert_email_params_def
      Let_def toEmail_def unmarshal_recipients_def timeToPgtype_def time_of_def pg_micros_def
      time_zero_def split: if_splits)

lemma sql_insert_email_Inr:
  assumes "sql_insert_email p new now d = (Inr row, d1)"
  shows "tEmails d1 = tEmails d @ [row] \<and> dbE_ID row = new
    \<and> tAccounts d1 = tAccounts d \<and> tAttachments d1 = tAttachments d
    \<and> email_key row = (iep_AccountID p, iep_Folder p, iep_Uid p)
    \<and> new \<notin> dbE_ID ` set (tEmails d)
    \<and> (iep_AccountID p, iep_Folder p, iep_Uid p) \<notin> email_key ` set (tEmails d)"
  using assms
  by (auto simp: sql_insert_email_def text_params_def jsonb_params_def Let_def email_key_def
      split: if_splits)

lemma one_row_new:
  assumes "k \<notin> f ` set rs"
  shows "one_row (filter (\<lambda>s. f s = k) rs @ [r]) = Inr r"
proof -
  have "filter (\<lambda>s. f s = k) rs = []" using assms by (auto simp: filter_empty_conv)
  then show ?thesis by (simp add: one_row_def)
qed

lemma exec_healthy:
  "script w = [] \<Longrightarrow>
   exec q w = (fst (q (pg_micros (clock w)) (db w)), w\<lparr>db := snd (q (pg_micros (clock w)) (db w))\<rparr>)"
  by (simp add: exec_def call_healthy case_prod_beta Let_def)

lemma exec_new_healthy:
  "script w = [] \<Longrightarrow>
   exec_new q w =
     (let r = q (uuid_gen w (draws w)) (pg_micros (clock w)) (db w)
      in (fst r, w\<lparr>db := snd r, draws := Suc (draws w)\<rparr>))"
  by (simp add: exec_new_def call_healthy case_prod_beta Let_def)

lemma sql_insert_email_folder_ok:
  "sql_insert_email p new now d = (Inr row, d1) \<Longrightarrow> pg_text_ok (iep_Folder p)"
  by (auto simp: sql_insert_email_def text_params_def split: if_splits)

text \<open>C13: an email that \<open>EmailRepository.Create\<close> stored is found by its ID and by its account,
  folder and UID, with the content that was given: raw message, texts, sender, subject,
  recipients, and the date up to the microsecond.\<close>

theorem email_create_get:
  assumes "script w = []" and "EmailRepository_Create i w = (Inr e, w1)"
  shows "EmailRepository_Get (em_ID e) w1 = (Inr e, w1)
    \<and> EmailRepository_GetByUID (cei_AccountID i) (cei_Folder i) (cei_UID i) w1 = (Inr e, w1)
    \<and> em_Raw e = cei_Raw i \<and> em_ParsedText e = cei_ParsedText i \<and> em_ParsedHTML e = cei_ParsedHTML i
    \<and> em_Subject e = cei_Subject i \<and> em_FromEmail e = cei_FromEmail i
    \<and> em_To e = marshal_recipients (cei_To i) \<and> em_CC e = marshal_recipients (cei_CC i)
    \<and> em_Date e = pg_micros (cei_Date i)"
proof -
  let ?q = "sql_insert_email (insert_email_params i) (uuid_gen w (draws w)) (pg_micros (clock w)) (db w)"
  from assms obtain row where row: "?q = (Inr row, db w1)" "toEmail row = Inr e" "script w1 = []"
    by (cases ?q) (auto simp: EmailRepository_Create_def check_def InsertEmail_def exec_new_healthy Let_def
        split: sum.splits if_splits)
  note ins = sql_insert_email_Inr [OF row(1)] toEmail_inserted [OF row(1)]
  have id: "em_ID e = dbE_ID row" using ins row(2) by auto
  have get: "one_row (filter (\<lambda>r. dbE_ID r = em_ID e) (tEmails (db w1))) = Inr row"
    using ins id by (simp add: one_row_new)
  have uid: "one_row (filter (\<lambda>r. email_key r = (cei_AccountID i, cei_Folder i, cei_UID i)) (tEmails (db w1)))
      = Inr row"
    using ins by (simp add: one_row_new insert_email_params_def)
  have "pg_text_ok (cei_Folder i)"
    using sql_insert_email_folder_ok [OF row(1)] by (simp add: insert_email_params_def)
  then show ?thesis
    using get uid row(2,3) ins(2)
    by (auto simp: EmailRepository_Get_def EmailRepository_GetByUID_def check_def GetEmail_def
        GetEmailByUID_def exec_healthy sql_get_email_def sql_get_email_by_uid_def text_params_def)
qed

definition demo_input :: CreateEmailInput where
  "demo_input = \<lparr>cei_AccountID = 1, cei_UID = 7, cei_MessageID = ''<a@b>'', cei_Folder = ''INBOX'',
     cei_Subject = ''hi'', cei_FromEmail = ''x@y'', cei_FromName = [],
     cei_To = Some [\<lparr>ea_Name = [], ea_Email = ''me@z''\<rparr>], cei_CC = None, cei_Date = 1234567,
     cei_ParsedText = ''text'', cei_ParsedHTML = [], cei_Raw = ''raw'', cei_Flags = Some []\<rparr>"

lemma ascii_text_ok: "list_all (\<lambda>c. 0 < (of_char c :: nat) \<and> (of_char c :: nat) < 128) s \<Longrightarrow> pg_text_ok s"
  by (auto simp: list_all_iff intro: pg_text_ok_ascii)

lemma demo_create:
  "\<exists>e w1. EmailRepository_Create demo_input (demo_world demo_db) = (Inr e, w1)"
  by (simp add: EmailRepository_Create_def check_def InsertEmail_def exec_new_healthy demo_defs
      demo_input_def insert_email_params_def sql_insert_email_def text_params_def jsonb_params_def
      ptrString_def opt_texts_def marshal_recipients_def ascii_text_ok Let_def toEmail_def
      unmarshal_recipients_def rune_len_def)

theorem email_create_get_witness:
  "\<exists>e w1. EmailRepository_Create demo_input (demo_world demo_db) = (Inr e, w1)
     \<and> EmailRepository_Get (em_ID e) w1 = (Inr e, w1) \<and> em_Raw e = ''raw''"
proof -
  from demo_create obtain e w1
    where c: "EmailRepository_Create demo_input (demo_world demo_db) = (Inr e, w1)" by blast
  have "script (demo_world demo_db) = []" by (simp add: demo_world_def)
  from email_create_get [OF this c] c show ?thesis by (auto simp: demo_input_def)
qed

subsection \<open>Listing and pagination\<close>

text \<open>The list that a page is cut from: the selected rows, newest first.\<close>

definition listing :: "ListEmailsFilter \<Rightarrow> database \<Rightarrow> email_row list" where
  "listing f d = order_desc dbE_Date
     (filter (list_selects (lef_AccountID f) (lef_Folder f)
        (lep_Before (list_emails_params f)) (lep_After (list_emails_params f))) (tEmails d))"

definition in_int32 :: "int \<Rightarrow> bool" where
  "in_int32 n \<longleftrightarrow> 0 \<le> n \<and> n < 2147483648"

lemma EmailRepository_List_healthy:
  assumes "script w = []" and "pg_text_ok (lef_Folder f)"
    and "in_int32 (lef_Limit f)" and "in_int32 (lef_Offset f)"
  shows "EmailRepository_List x f w =
    (convert_rows toEmail (converting_email x)
       (take (nat (lef_Limit f)) (drop (nat (lef_Offset f)) (listing f (db w)))), w)"
  using assms
  by (simp add: EmailRepository_List_def check_def ListEmails_def exec_healthy sql_list_emails_def
      text_params_def list_emails_params_def limit_offset_def listing_def int32_id in_int32_def)

lemma listing_window [simp]:
  "listing (f\<lparr>lef_Limit := a\<rparr>) d = listing f d" "listing (f\<lparr>lef_Offset := b\<rparr>) d = listing f d"
  by (simp_all add: listing_def list_emails_params_def)

lemma convert_rows_append:
  "convert_rows f wrap (rs @ ss) =
     (case convert_rows f wrap rs of
        Inl e \<Rightarrow> Inl e
      | Inr xs \<Rightarrow> (case convert_rows f wrap ss of Inl e \<Rightarrow> Inl e | Inr ys \<Rightarrow> Inr (xs @ ys)))"
  by (induction rs) (auto split: sum.splits)


lemma demo_text_ok: "pg_text_ok ''INBOX''"
  by (simp add: ascii_text_ok)

definition demo_filter :: ListEmailsFilter where
  "demo_filter = \<lparr>lef_AccountID = 1, lef_Folder = ''INBOX'', lef_Limit = 0, lef_Offset = 0,
     lef_Before = None, lef_After = None\<rparr>"

definition demo_row :: "nat \<Rightarrow> time \<Rightarrow> email_row" where
  "demo_row n t = \<lparr>dbE_ID = n, dbE_AccountID = 1, dbE_Uid = int n, dbE_MessageID = None,
     dbE_Folder = ''INBOX'', dbE_Subject = None, dbE_FromEmail = None, dbE_FromName = None,
     dbE_Date = Some t, dbE_ParsedText = None, dbE_ParsedHtml = None, dbE_Raw = None,
     dbE_Flags = Some [], dbE_DeletedUpstream = Some False, dbE_CreatedAt = 0,
     dbE_ToRecipients = None, dbE_CcRecipients = None\<rparr>"

definition demo_mails :: database where
  "demo_mails = demo_db\<lparr>tEmails := [demo_row 10 1000, demo_row 11 3000, demo_row 12 2000]\<rparr>"


lemma int32_add_2_32: "int32 (n + 4294967296) = int32 n"
proof -
  have "n + 4294967296 + 2147483648 = (n + 2147483648) + 4294967296" by simp
  then show ?thesis unfolding int32_def by (simp only: mod_add_self2)
qed

text \<open>\<open>List\<close> and \<open>Search\<close> narrow the offset to 32 bits, so an offset that is \<open>2^32\<close> larger
  returns the same page instead of the later one.\<close>

lemma email_offset_wraps:
  "EmailRepository_List x (f\<lparr>lef_Offset := lef_Offset f + 4294967296\<rparr>) w = EmailRepository_List x f w
   \<and> Search x fts (s\<lparr>sef_Offset := sef_Offset s + 4294967296\<rparr>) w = Search x fts s w"
  by (simp add: EmailRepository_List_def list_emails_params_def Search_def search_emails_params_def
      int32_add_2_32)

subsection \<open>Accounts\<close>

text \<open>The credentials of an account are the ones that its encrypted columns decrypt to.\<close>

lemma toAccount_params:
  assumes gcm: "gcm_correct x"
    and imap: "Encrypt x (cac_ImapPassword i) key w = (Inr c, w1)"
    and smtp: "if cac_SmtpPassword i = [] then sc = None
               else \<exists>c' w2. Encrypt x (cac_SmtpPassword i) key w1 = (Inr c', w2) \<and> sc = Some c'"
    and row: "sql_create_account (create_account_params i c sc) new now d = (Inr r, d1)"
    and ports: "in_int32 (cac_ImapPort i)" "in_int32 (cac_SmtpPort i)"
  shows "toAccount x key r = Inr
    \<lparr>acc_ID = new, acc_Name = cac_Name i, acc_ImapHost = cac_ImapHost i,
     acc_ImapPort = cac_ImapPort i, acc_ImapUser = cac_ImapUser i,
     acc_ImapPassword = cac_ImapPassword i, acc_SmtpHost = cac_SmtpHost i,
     acc_SmtpPort = cac_SmtpPort i, acc_SmtpUser = cac_SmtpUser i,
     acc_SmtpPassword = cac_SmtpPassword i, acc_CreatedAt = now\<rparr>"
proof -
  have cols: "dbA_ImapPassword r = c" "dbA_SmtpPassword r = sc" "dbA_ID r = new"
    "dbA_Name r = cac_Name i" "dbA_ImapHost r = cac_ImapHost i" "dbA_ImapUser r = cac_ImapUser i"
    "dbA_ImapPort r = int32 (cac_ImapPort i)" "dbA_SmtpHost r = ptrString (cac_SmtpHost i)"
    "dbA_SmtpPort r = ptrInt32 (cac_SmtpPort i)" "dbA_SmtpUser r = ptrString (cac_SmtpUser i)"
    "dbA_CreatedAt r = now"
    using row by (auto simp: sql_create_account_def text_params_def create_account_params_def
        Let_def split: if_splits)
  show ?thesis
    using smtp ports
    by (auto simp: toAccount_def cols Decrypt_Encrypt [OF gcm imap] int32_id derefInt32_ptrInt32
        in_int32_def Decrypt_Encrypt [OF gcm] dest: Encrypt_not_Nil split: if_splits)
qed

lemma sql_create_account_Inr:
  assumes "sql_create_account p new now d = (Inr r, d1)"
  shows "tAccounts d1 = tAccounts d @ [r] \<and> dbA_ID r = new \<and> new \<notin> dbA_ID ` set (tAccounts d)"
  using assms by (auto simp: sql_create_account_def text_params_def Let_def split: if_splits)

lemma Encrypt_healthy_script: "script w = [] \<Longrightarrow> Encrypt x p key w = (r, w1) \<Longrightarrow> script w1 = []"
  by (auto simp: Encrypt_def check_def rand_Read_def call_healthy Let_def split: if_splits)

text \<open>The steps of a successful \<open>Create\<close>.\<close>

lemma AccountRepository_Create_steps:
  assumes "script w = []" and "AccountRepository_Create x key i w = (Inr a, w')"
  obtains c sc w1 w2 r d1 where
    "Encrypt x (cac_ImapPassword i) key w = (Inr c, w1)"
    "if cac_SmtpPassword i = [] then sc = None
     else \<exists>c' w2. Encrypt x (cac_SmtpPassword i) key w1 = (Inr c', w2) \<and> sc = Some c'"
    "script w2 = []"
    "sql_create_account (create_account_params i c sc) (uuid_gen w2 (draws w2)) (pg_micros (clock w2)) (db w2)
       = (Inr r, d1)"
    "w' = w2\<lparr>db := d1, draws := Suc (draws w2)\<rparr>" "toAccount x key r = Inr a"
proof -
  obtain c w1 where c: "Encrypt x (cac_ImapPassword i) key w = (Inr c, w1)"
    using assms(2) by (auto simp: AccountRepository_Create_def check_def split: if_splits prod.splits sum.splits)
  have s1: "script w1 = []" using Encrypt_healthy_script [OF assms(1) c] .
  define smtp where "smtp = (if cac_SmtpPassword i \<noteq> []
    then check (Encrypt x (cac_SmtpPassword i) key) (Errorf_w ''encrypting smtp password'') (\<lambda>c. ok (Some c))
    else ok None)"
  obtain sc w2 where sc: "smtp w1 = (Inr sc, w2)"
    using assms(2) c by (auto simp: AccountRepository_Create_def check_def smtp_def split: if_splits prod.splits sum.splits)
  have s2: "script w2 = []"
    using sc s1 by (auto simp: smtp_def check_def dest: Encrypt_healthy_script split: if_splits prod.splits sum.splits)
  have opt: "if cac_SmtpPassword i = [] then sc = None
     else \<exists>c' w2. Encrypt x (cac_SmtpPassword i) key w1 = (Inr c', w2) \<and> sc = Some c'"
    using sc by (auto simp: smtp_def check_def split: if_splits prod.splits sum.splits)
  have last: "check (CreateAccount (create_account_params i c sc)) (Errorf_w ''creating account'')
      (\<lambda>row. ret (toAccount x key row)) w2 = (Inr a, w')"
    using assms(2) c sc
    by (auto simp: AccountRepository_Create_def check_Inr smtp_def split: if_splits)
  let ?q = "sql_create_account (create_account_params i c sc) (uuid_gen w2 (draws w2)) (pg_micros (clock w2)) (db w2)"
  from last s2 obtain r where r: "?q = (Inr r, snd ?q)" "toAccount x key r = Inr a"
    "w' = w2\<lparr>db := snd ?q, draws := Suc (draws w2)\<rparr>"
    by (cases ?q) (auto simp: check_def CreateAccount_def exec_new_healthy Let_def split: sum.splits)
  show thesis by (rule that [OF c opt s2 r(1) r(3) r(2)])
qed

text \<open>C12: the account that \<open>AccountRepository.Create\<close> returns has the given settings and both
  passwords in clear, and \<open>Get\<close> of its ID returns the same account: what is encrypted at rest
  decrypts to what was given.\<close>

theorem account_create_get:
  assumes "gcm_correct x" and "script w = []"
    and "in_int32 (cac_ImapPort i)" "in_int32 (cac_SmtpPort i)"
    and "AccountRepository_Create x key i w = (Inr a, w')"
  shows "AccountRepository_Get x key (acc_ID a) w' = (Inr a, w')
    \<and> acc_Name a = cac_Name i \<and> acc_ImapHost a = cac_ImapHost i \<and> acc_ImapPort a = cac_ImapPort i
    \<and> acc_ImapUser a = cac_ImapUser i \<and> acc_ImapPassword a = cac_ImapPassword i
    \<and> acc_SmtpHost a = cac_SmtpHost i \<and> acc_SmtpPort a = cac_SmtpPort i
    \<and> acc_SmtpPassword a = cac_SmtpPassword i"
  using assms(2,5)
proof (rule AccountRepository_Create_steps)
  fix c sc w1 w2 r d1
  assume enc: "Encrypt x (cac_ImapPassword i) key w = (Inr c, w1)"
    "if cac_SmtpPassword i = [] then sc = None
     else \<exists>c' w2. Encrypt x (cac_SmtpPassword i) key w1 = (Inr c', w2) \<and> sc = Some c'"
    and s2: "script w2 = []"
    and sql: "sql_create_account (create_account_params i c sc) (uuid_gen w2 (draws w2))
       (pg_micros (clock w2)) (db w2) = (Inr r, d1)"
    and w': "w' = w2\<lparr>db := d1, draws := Suc (draws w2)\<rparr>" and a: "toAccount x key r = Inr a"
  note shape = toAccount_params [OF assms(1) enc sql assms(3,4)]
  have "one_row (filter (\<lambda>r. dbA_ID r = acc_ID a) (tAccounts d1)) = Inr r"
    using sql_create_account_Inr [OF sql] shape a by (auto simp: one_row_new)
  then show ?thesis
    using shape a s2
    by (auto simp: w' AccountRepository_Get_def check_def GetAccount_def exec_healthy sql_get_account_def)
qed

definition demo_account_input :: CreateAccountInput where
  "demo_account_input = \<lparr>cac_Name = ''a'', cac_ImapHost = ''h'', cac_ImapPort = 993, cac_ImapUser = ''u'',
     cac_ImapPassword = ''secret'', cac_SmtpHost = [], cac_SmtpPort = 0, cac_SmtpUser = [],
     cac_SmtpPassword = ''other''\<rparr>"

definition demo_key :: string where "demo_key = replicate 32 (CHR ''k'')"

lemma base64_text_ok: "pg_text_ok (base64_Encode s)"
  by (rule pg_text_ok_ascii) (blast dest: base64_Encode_ascii)

lemma Encrypt_demo:
  "script w = [] \<Longrightarrow> \<exists>n. length n = 12 \<and> Encrypt demo_externals p demo_key w
     = (Inr (base64_Encode (n @ demo_key @ p)), w\<lparr>draws := Suc (draws w)\<rparr>)"
  by (intro exI [of _ "take 12 (rand_gen w (draws w) @ replicate 12 (CHR 0x00))"])
    (simp add: Encrypt_def demo_key_def check_def rand_Read_def call_healthy gcm_nonce_size_def
      demo_externals_def)

lemma demo_account_create:
  "\<exists>a w'. AccountRepository_Create demo_externals demo_key demo_account_input (demo_world demo_db) = (Inr a, w')"
proof -
  define w where "w = demo_world demo_db"
  have s: "script w = []" by (simp add: w_def demo_world_def)
  obtain n where n: "length n = 12" "Encrypt demo_externals ''secret'' demo_key w
     = (Inr (base64_Encode (n @ demo_key @ ''secret'')), w\<lparr>draws := Suc (draws w)\<rparr>)"
    using Encrypt_demo [OF s] by blast
  define w1 where "w1 = w\<lparr>draws := Suc (draws w)\<rparr>"
  have s1: "script w1 = []" by (simp add: w1_def s)
  obtain m where m: "length m = 12" "Encrypt demo_externals ''other'' demo_key w1
     = (Inr (base64_Encode (m @ demo_key @ ''other'')), w1\<lparr>draws := Suc (draws w1)\<rparr>)"
    using Encrypt_demo [OF s1] by blast
  have dec: "Decrypt demo_externals (base64_Encode (k @ demo_key @ p)) demo_key = Inr p"
    if "length k = 12" for k p
    using that by (simp add: Decrypt_def base64_roundtrip gcm_nonce_size_def demo_key_def demo_externals_def)
  define cp where "cp = create_account_params demo_account_input
    (base64_Encode (n @ demo_key @ ''secret'')) (Some (base64_Encode (m @ demo_key @ ''other'')))"
  define w2 where "w2 = w1\<lparr>draws := Suc (draws w1)\<rparr>"
  have step: "AccountRepository_Create demo_externals demo_key demo_account_input w
     = check (CreateAccount cp) (Errorf_w ''creating account'')
         (\<lambda>row. ret (toAccount demo_externals demo_key row)) w2"
    using n(2) m(2)
    by (simp add: AccountRepository_Create_def check_Inr demo_account_input_def check_def
        cp_def w1_def w2_def del: base64_Encode.simps)
  have cols: "cap_ImapPassword cp = base64_Encode (n @ demo_key @ ''secret'')"
    "cap_SmtpPassword cp = Some (base64_Encode (m @ demo_key @ ''other''))"
    by (simp_all add: cp_def create_account_params_def)
  have texts: "list_all pg_text_ok ([cap_Name cp, cap_ImapHost cp, cap_ImapUser cp, cap_ImapPassword cp]
      @ opt_texts [cap_SmtpHost cp, cap_SmtpUser cp, cap_SmtpPassword cp])"
    unfolding cols
    by (simp add: cp_def create_account_params_def demo_account_input_def ptrString_def opt_texts_def
        ascii_text_ok base64_text_ok)
  have s2: "script w2 = []" by (simp add: w2_def s1)
  have fresh: "uuid_gen w2 (draws w2) \<notin> set (map dbA_ID (tAccounts (db w2)))"
    by (simp add: w2_def w1_def w_def demo_defs)
  obtain row d where "sql_create_account cp (uuid_gen w2 (draws w2)) (pg_micros (clock w2)) (db w2) = (Inr row, d)"
    and "dbA_ImapPassword row = cap_ImapPassword cp" "dbA_SmtpPassword row = cap_SmtpPassword cp"
    using texts fresh by (simp add: sql_create_account_def text_params_def Let_def)
  then have "\<exists>a w'. check (CreateAccount cp) (Errorf_w ''creating account'')
      (\<lambda>row. ret (toAccount demo_externals demo_key row)) w2 = (Inr a, w')"
    using s2 n(1) m(1) by (simp add: check_def CreateAccount_def exec_new_healthy toAccount_def cols dec)
  then show ?thesis using step unfolding w_def by simp
qed

theorem account_create_get_witness:
  "\<exists>a w'. AccountRepository_Create demo_externals demo_key demo_account_input (demo_world demo_db) = (Inr a, w')
     \<and> AccountRepository_Get demo_externals demo_key (acc_ID a) w' = (Inr a, w')
     \<and> acc_ImapPassword a = ''secret'' \<and> acc_SmtpPassword a = ''other''"
proof -
  obtain a w' where c:
    "AccountRepository_Create demo_externals demo_key demo_account_input (demo_world demo_db) = (Inr a, w')"
    using demo_account_create by (auto split: prod.splits sum.splits)
  have "script (demo_world demo_db) = []" by (simp add: demo_world_def)
  from account_create_get [OF demo_gcm this _ _ c] c show ?thesis
    by (simp add: demo_account_input_def in_int32_def)
qed

subsection \<open>The cascade of an account\<close>

text \<open>The account that an email, a webhook and a queue row belong to, through their keys.\<close>

definition email_owner :: "database \<Rightarrow> uuid \<Rightarrow> uuid set" where
  "email_owner d e = {dbE_AccountID r |r. r \<in> set (tEmails d) \<and> dbE_ID r = e}"

definition webhook_owner :: "database \<Rightarrow> uuid \<Rightarrow> uuid set" where
  "webhook_owner d h = {dbW_AccountID r |r. r \<in> set (tWebhooks d) \<and> dbW_ID r = h}"

lemma owner_iff:
  "i \<in> email_owner d e \<longleftrightarrow> e \<in> set (map dbE_ID (filter (\<lambda>r. dbE_AccountID r = i) (tEmails d)))"
  "i \<in> webhook_owner d h \<longleftrightarrow> h \<in> set (map dbW_ID (filter (\<lambda>r. dbW_AccountID r = i) (tWebhooks d)))"
  by (auto simp: email_owner_def webhook_owner_def)

lemma sql_delete_account_tables:
  fixes d d' :: database and i :: uuid and now :: time
  defines "d' \<equiv> snd (sql_delete_account i now d)"
  shows "tAccounts d' = filter (\<lambda>a. dbA_ID a \<noteq> i) (tAccounts d)"
    and "tEmails d' = filter (\<lambda>e. dbE_AccountID e \<noteq> i) (tEmails d)"
    and "tAttachments d' = filter (\<lambda>t. i \<notin> email_owner d (dbT_EmailID t)) (tAttachments d)"
    and "tWebhooks d' = filter (\<lambda>h. dbW_AccountID h \<noteq> i) (tWebhooks d)"
    and "tQueue d' = filter (\<lambda>q. i \<notin> webhook_owner d (dbQ_WebhookID q))
                      (filter (\<lambda>q. i \<notin> email_owner d (dbQ_EmailID q)) (tQueue d))"
  unfolding d'_def owner_iff
  by (simp_all add: sql_delete_account_def delete_emails_def delete_webhooks_def Let_def
      del: filter_filter)

text \<open>C14: deleting an account removes exactly what belongs to it: its emails, their attachments,
  its webhooks, and the queued deliveries of either; every other row stays, and an unknown ID is
  an error that changes nothing.\<close>

theorem account_delete_exact:
  assumes "script w = []" and "AccountRepository_Delete i w = (r, w')"
  shows "(r = Inr () \<longleftrightarrow> i \<in> dbA_ID ` set (tAccounts (db w)))
    \<and> (i \<notin> dbA_ID ` set (tAccounts (db w)) \<longrightarrow> r = Inl repo_ErrAccountNotFound)
    \<and> set (tAccounts (db w')) = {a \<in> set (tAccounts (db w)). dbA_ID a \<noteq> i}
    \<and> set (tEmails (db w')) = {e \<in> set (tEmails (db w)). dbE_AccountID e \<noteq> i}
    \<and> set (tAttachments (db w')) = {t \<in> set (tAttachments (db w)). i \<notin> email_owner (db w) (dbT_EmailID t)}
    \<and> set (tWebhooks (db w')) = {h \<in> set (tWebhooks (db w)). dbW_AccountID h \<noteq> i}
    \<and> set (tQueue (db w')) = {q \<in> set (tQueue (db w)). i \<notin> email_owner (db w) (dbQ_EmailID q)
                                                 \<and> i \<notin> webhook_owner (db w) (dbQ_WebhookID q)}"
proof -
  let ?q = "sql_delete_account i (pg_micros (clock w)) (db w)"
  have rows: "fst ?q = Inr (length (filter (\<lambda>a. dbA_ID a = i) (tAccounts (db w))))"
    by (simp add: sql_delete_account_def Let_def)
  have r: "r = (if i \<in> dbA_ID ` set (tAccounts (db w)) then Inr () else Inl repo_ErrAccountNotFound)"
    and d': "db w' = snd ?q"
    using assms rows
    by (auto simp: AccountRepository_Delete_def check_def DeleteAccount_def exec_healthy
        filter_empty_conv split: if_splits)
  show ?thesis
    unfolding d' sql_delete_account_tables set_filter r by auto
qed

theorem account_delete_exact_witness:
  "\<exists>r w'. AccountRepository_Delete 1 (demo_world demo_mails) = (r, w') \<and> r = Inr ()
     \<and> set (tAccounts (db w')) = {} \<and> set (tEmails (db w')) = {}"
proof -
  obtain r w' where d: "AccountRepository_Delete 1 (demo_world demo_mails) = (r, w')" by fastforce
  have s: "script (demo_world demo_mails) = []" by (simp add: demo_world_def)
  have rows: "set (tAccounts (db (demo_world demo_mails))) = {demo_account}"
    "\<forall>e\<in>set (tEmails (db (demo_world demo_mails))). dbE_AccountID e = 1"
    by (simp_all add: demo_defs demo_mails_def demo_row_def)
  from account_delete_exact [OF s d]
  have "r = Inr () \<longleftrightarrow> 1 \<in> dbA_ID ` set (tAccounts (db (demo_world demo_mails)))"
    and "set (tAccounts (db w')) = {a \<in> set (tAccounts (db (demo_world demo_mails))). dbA_ID a \<noteq> 1}"
    and "set (tEmails (db w')) = {e \<in> set (tEmails (db (demo_world demo_mails))). dbE_AccountID e \<noteq> 1}"
    by blast+
  then have "r = Inr ()" "set (tAccounts (db w')) = {}" "set (tEmails (db w')) = {}"
    using rows by simp_all
  with d show ?thesis by blast
qed

end
