(* ===== verification/Faults.thy ===== *)
theory Faults
  imports Repositories
begin

text \<open>
  Reasoning about operations in a world where some of the calls to come are refused: what an
  operation that only reads leaves alone, and that its result does not depend on the faults when
  it succeeds.
\<close>

text \<open>The parts of a world that the storage requests leave alone.\<close>

definition same_tables :: "world \<Rightarrow> world \<Rightarrow> bool" where
  "same_tables w w' \<longleftrightarrow> db w' = db w \<and> uuid_gen w' = uuid_gen w \<and> draws w' = draws w \<and> clock w' = clock w"

lemma same_tables_next [simp]: "same_tables w (next_call w)" "same_tables (next_call w) w' = same_tables w w'"
  by (auto simp: same_tables_def)

section \<open>Reads under faults\<close>

text \<open>An operation that changes neither tables nor objects, leaves the remaining faults and, when
  it succeeds, returns what it returns without faults.\<close>

definition no_script :: "world \<Rightarrow> world" where "no_script w = w\<lparr>script := []\<rparr>"

definition reads :: "'a io \<Rightarrow> bool" where
  "reads m \<longleftrightarrow> (\<forall>n w r w'. faults n w \<longrightarrow> m w = (r, w') \<longrightarrow>
     same_tables w w' \<and> objects w' = objects w \<and> faults n w'
     \<and> (n = 0 \<or> (\<exists>x. r = Inr x) \<longrightarrow> m (no_script w) = (r, no_script w')))"

lemma readsD:
  "reads m \<Longrightarrow> faults n w \<Longrightarrow> m w = (r, w') \<Longrightarrow> same_tables w w' \<and> objects w' = objects w"
  "reads m \<Longrightarrow> faults n w \<Longrightarrow> m w = (r, w') \<Longrightarrow> faults n w'"
  "reads m \<Longrightarrow> faults n w \<Longrightarrow> m w = (Inr x, w') \<Longrightarrow> m (no_script w) = (Inr x, no_script w')"
  "reads m \<Longrightarrow> faults 0 w \<Longrightarrow> m w = (r, w') \<Longrightarrow> m (no_script w) = (r, no_script w')"
  unfolding reads_def by blast+

lemma same_tables_trans: "same_tables w w1 \<Longrightarrow> same_tables w1 w2 \<Longrightarrow> same_tables w w2"
  by (simp add: same_tables_def)

lemma reads_ret: "reads (ret r)" "reads (ok x)" "reads (fail e)"
  by (simp_all add: reads_def same_tables_def)

lemma reads_check:
  assumes "reads m" and "\<And>x. reads (k x)"
  shows "reads (check m wrap k)"
  unfolding reads_def
proof (intro allI impI)
  fix n w r w'
  assume f: "faults n w" and run: "check m wrap k w = (r, w')"
  obtain r1 w1 where m: "m w = (r1, w1)" by fastforce
  show "same_tables w w' \<and> objects w' = objects w \<and> faults n w'
    \<and> (n = 0 \<or> (\<exists>x. r = Inr x) \<longrightarrow> check m wrap k (no_script w) = (r, no_script w'))"
  proof (cases r1)
    case (Inl e)
    have "check m wrap k (no_script w) = (r, no_script w')" if "n = 0"
      using readsD(4) [OF assms(1) _ m] f that m run Inl by (auto simp: check_def)
    with m run readsD(1,2) [OF assms(1) f m] Inl show ?thesis by (auto simp: check_def)
  next
    case (Inr x)
    with m run have k: "k x w1 = (r, w')" by (simp add: check_def)
    note d = readsD(2) [OF assms(1) f m] readsD(3) [OF assms(1) f m [unfolded Inr]]
    have "check m wrap k (no_script w) = k x (no_script w1)" using d(2) by (simp add: check_def)
    then show ?thesis
      using readsD(1) [OF assms(1) f m] readsD(1) [OF assms(2) d(1) k] readsD(2,3) [OF assms(2) d(1)]
        readsD(4) [OF assms(2) _ k] d(1) k
      by (auto intro: same_tables_trans)
  qed
qed

lemma reads_if: "reads m \<Longrightarrow> reads n \<Longrightarrow> reads (if b then m else n)"
  by simp

lemma reads_call:
  assumes q: "\<And>w. snd (q w) = w" and indep: "\<And>w s. fst (q (w\<lparr>script := s\<rparr>)) = fst (q w)"
  shows "reads (call q)"
  unfolding reads_def
proof (intro allI impI)
  fix n w r w'
  assume f: "faults n w" and run: "call q w = (r, w')"
  have w': "w' = next_call w"
    using call_faults [OF f, of q] run q [of "next_call w"] by (metis prod.inject snd_conv)
  have "call q (no_script w) = (r, no_script w')" if "n = 0 \<or> (\<exists>x. r = Inr x)"
  proof -
    have "call q w = q (next_call w)" using call_faults [OF f, of q] run that by auto
    then have "fst (q (next_call w)) = r" using run by (metis fst_conv)
    then have "fst (q (no_script w)) = r"
      using indep [where w = w and s = "[]"] indep [where w = w and s = "tl (script w)"] by (simp add: next_call_def no_script_def)
    moreover have "call q (no_script w) = q (no_script w)" by (simp add: no_script_def call_healthy)
    moreover have "no_script w' = no_script w" by (simp add: w' no_script_def next_call_def)
    ultimately show ?thesis using q [of "no_script w"] by (metis prod.collapse)
  qed
  then show "same_tables w w' \<and> objects w' = objects w \<and> faults n w'
    \<and> (n = 0 \<or> (\<exists>x. r = Inr x) \<longrightarrow> call q (no_script w) = (r, no_script w'))"
    using same_tables_next(1) [of w] faults_next [OF f] by (simp add: w')
qed

lemma reads_exec: "(\<And>now d. snd (q now d) = d) \<Longrightarrow> reads (exec q)"
  unfolding exec_def by (rule reads_call) (simp_all add: case_prod_beta Let_def)

section \<open>The calls to come\<close>

text \<open>From \<open>w\<close> to \<open>w'\<close> the script has only been used up: no webhook request was sent, the clock has not moved,
  and what every call to come satisfied still holds.\<close>

definition quiet :: "world \<Rightarrow> world \<Rightarrow> bool" where
  "quiet w w' \<longleftrightarrow> set (script w') \<subseteq> set (script w) \<and> http_log w' = http_log w \<and> clock w' = clock w"

lemma quiet_refl [simp]: "quiet w w"
  by (simp add: quiet_def)

lemma quiet_trans [trans]: "quiet w w1 \<Longrightarrow> quiet w1 w2 \<Longrightarrow> quiet w w2"
  by (auto simp: quiet_def)

lemma quiet_healthy: "quiet w w' \<Longrightarrow> script w = [] \<Longrightarrow> script w' = []"
  by (simp add: quiet_def)

definition uses_script :: "'a io \<Rightarrow> bool" where
  "uses_script m \<longleftrightarrow> (\<forall>w. quiet w (snd (m w)))"

named_theorems script_intros "operations that only use up the script"

lemma uses_scriptD: "uses_script m \<Longrightarrow> m w = (r, w') \<Longrightarrow> quiet w w'"
  unfolding uses_script_def by (metis snd_conv)

lemma uses_script_ret [script_intros]: "uses_script (ret r)" "uses_script (ok x)" "uses_script (fail e)"
  by (simp_all add: uses_script_def)

lemma uses_script_check [script_intros]:
  "uses_script m \<Longrightarrow> (\<And>x. uses_script (k x)) \<Longrightarrow> uses_script (check m wrap k)"
  unfolding uses_script_def check_def by (auto split: prod.splits sum.splits) (metis snd_conv quiet_trans)+

lemma uses_script_if [script_intros]: "uses_script m \<Longrightarrow> uses_script n \<Longrightarrow> uses_script (if b then m else n)"
  by simp

lemma uses_script_call:
  assumes "\<And>w. quiet w (snd (q w))"
  shows "uses_script (call q)"
  unfolding uses_script_def
proof
  fix w
  have "quiet w (snd (q v))" if "quiet w v" for v by (rule quiet_trans [OF that assms])
  moreover have "quiet w (w\<lparr>script := fs\<rparr>)" "quiet w (w\<lparr>db := d, objects := obs, script := fs\<rparr>)" if "script w = f # fs" for f fs d obs
    using that by (auto simp: quiet_def)
  ultimately show "quiet w (snd (call q w))"
    unfolding call_def by (auto split: list.split outcome.split)
qed

lemma uses_script_exec [script_intros]: "uses_script (exec q)" "uses_script (exec_new q2)"
  unfolding exec_def exec_new_def by (intro uses_script_call; simp add: quiet_def case_prod_beta Let_def)+

section \<open>Calls without interference\<close>

definition no_races :: "world \<Rightarrow> bool" where
  "no_races w \<longleftrightarrow> (\<forall>f\<in>set (script w). \<forall>d obs. f \<noteq> Raced d obs)"

lemma no_races_next: "no_races w \<Longrightarrow> no_races (next_call w)"
  by (cases "script w") (auto simp: no_races_def next_call_def)

lemma no_races_script: "no_races w \<Longrightarrow> script w' = script w \<Longrightarrow> no_races w'"
  by (simp add: no_races_def)

lemma call_no_races:
  assumes "no_races w"
  obtains (healthy) "call q w = q (next_call w)"
  | (refused) e where "call q w = (Inl e, next_call w)"
  | (lost) e where "call q w = (Inl e, snd (q (next_call w)))"
proof (cases "script w")
  case Nil
  then show thesis by (intro healthy) (simp add: call_healthy next_call_Nil)
next
  case (Cons f fs)
  then show thesis
    using assms healthy refused lost by (cases f) (auto simp: call_def next_call_def no_races_def)
qed

lemma no_races_uses: "uses_script m \<Longrightarrow> m w = (r, w') \<Longrightarrow> no_races w \<Longrightarrow> no_races w'"
  using uses_scriptD [of m w r w'] by (auto simp: no_races_def quiet_def)

lemma no_races_winv: "no_races w \<Longrightarrow> winv I w \<longleftrightarrow> I (db w)"
  by (auto simp: no_races_def winv_def)

lemma call_Inr: "call q w = (Inr r, w') \<Longrightarrow> \<exists>w0. q w0 = (Inr r, w')"
  by (auto simp: call_def split: list.splits outcome.splits)

lemma demo_script [simp]: "script (demo_world d) = []" and demo_db_of [simp]: "db (demo_world d) = d"
  by (simp_all add: demo_world_def)


end
