(* ===== verification/WebhookWorker.thy ===== *)
theory WebhookWorker
  imports Faults
begin

text \<open>
  \<open>internal/webhook/worker.go\<close>: the worker that polls the delivery queue, sends each due payload
  with its signature, and records the outcome: delivered, a retry after a backoff, or failed.
  The HTTP endpoint is the argument \<open>wk_endpoint\<close>, the status code of its response to a request;
  \<open>wk_new_request\<close> is \<open>http.NewRequestWithContext\<close>'s check of the URL.
\<close>

section \<open>The worker\<close>

record WorkerConfig =
  wc_PollInterval :: int
  wc_BatchSize :: int
  wc_HTTPTimeout :: int
  wc_MaxRetries :: int

record Worker =
  wk_ext :: externals
  wk_key :: string
  wk_new_request :: "string \<Rightarrow> unit res"
  wk_endpoint :: "HttpRequest \<Rightarrow> int res"
  wk_config :: WorkerConfig
  wk_started :: bool
  wk_closed :: bool
  wk_cancelled :: bool
  wk_running :: nat

definition DefaultPollInterval :: int where "DefaultPollInterval = 5 * second"
definition DefaultBatchSize :: int where "DefaultBatchSize = 10"
definition DefaultHTTPTimeout :: int where "DefaultHTTPTimeout = 30 * second"
definition DefaultMaxRetries :: int where "DefaultMaxRetries = 5"

definition NewWorker ::
  "externals \<Rightarrow> string \<Rightarrow> (string \<Rightarrow> unit res) \<Rightarrow> (HttpRequest \<Rightarrow> int res) \<Rightarrow> WorkerConfig \<Rightarrow> Worker" where
  "NewWorker x key new_request endpoint c =
     (let c1 = (if wc_PollInterval c = 0 then c\<lparr>wc_PollInterval := DefaultPollInterval\<rparr> else c);
          c2 = (if wc_BatchSize c1 = 0 then c1\<lparr>wc_BatchSize := DefaultBatchSize\<rparr> else c1);
          c3 = (if wc_HTTPTimeout c2 = 0 then c2\<lparr>wc_HTTPTimeout := DefaultHTTPTimeout\<rparr> else c2);
          c4 = (if wc_MaxRetries c3 = 0 then c3\<lparr>wc_MaxRetries := DefaultMaxRetries\<rparr> else c3)
      in \<lparr>wk_ext = x, wk_key = key, wk_new_request = new_request, wk_endpoint = endpoint,
          wk_config = c4, wk_started = False, wk_closed = False, wk_cancelled = False, wk_running = 0\<rparr>)"

text \<open>\<open>Start\<close> spawns the polling goroutine once; \<open>Stop\<close> cancels the context and waits for it.\<close>

definition worker_Start :: "Worker \<Rightarrow> Worker" where
  "worker_Start wk =
     (if wk_started wk then wk else wk\<lparr>wk_started := True, wk_running := wk_running wk + 1\<rparr>)"

definition worker_Stop :: "Worker \<Rightarrow> Worker" where
  "worker_Stop wk =
     (if wk_closed wk then wk else wk\<lparr>wk_closed := True, wk_cancelled := True, wk_running := 0\<rparr>)"

section \<open>Sending\<close>

definition computeSignature :: "externals \<Rightarrow> string \<Rightarrow> string \<Rightarrow> int \<Rightarrow> string" where
  "computeSignature x payload secret timestamp =
     (let message = Itoa timestamp @ ''.'' @ payload
      in hex_EncodeToString (x_hmac_sha256 x secret message))"

definition webhook_request :: "externals \<Rightarrow> string \<Rightarrow> string \<Rightarrow> string \<Rightarrow> time \<Rightarrow> HttpRequest" where
  "webhook_request x url secret payload now =
     (let timestamp = time_Unix now in
      \<lparr>rq_URL = url, rq_ContentType = ''application/json'', rq_Timestamp = Itoa timestamp,
       rq_Signature = computeSignature x payload secret timestamp, rq_Body = payload\<rparr>)"

definition http_Do :: "Worker \<Rightarrow> HttpRequest \<Rightarrow> int io" where
  "http_Do wk req = call (\<lambda>w. (wk_endpoint wk req, w\<lparr>http_log := http_log w @ [req]\<rparr>))"

definition sendWebhook :: "Worker \<Rightarrow> string \<Rightarrow> string \<Rightarrow> string \<Rightarrow> unit io" where
  "sendWebhook wk url secret payload w =
     (case wk_new_request wk url of
        Inl e \<Rightarrow> (Inl (Errorf_w ''creating request'' e), w)
      | Inr _ \<Rightarrow>
          check (http_Do wk (webhook_request (wk_ext wk) url secret payload (clock w)))
            (Errorf_w ''sending request'')
            (\<lambda>status.
               if status < 200 \<or> status \<ge> 300
               then fail (errors_New Other (''unexpected status code: '' @ Itoa status))
               else ok ()) w)"

section \<open>Recording the outcome\<close>

definition markDelivered :: "uuid \<Rightarrow> world \<Rightarrow> bool \<times> world" where
  "markDelivered i w =
     (case MarkWebhookQueueDelivered i w of (Inl _, w1) \<Rightarrow> (False, w1) | (Inr _, w1) \<Rightarrow> (True, w1))"

definition markFailed :: "uuid \<Rightarrow> world \<Rightarrow> bool \<times> world" where
  "markFailed i w =
     (case MarkWebhookQueueFailed i w of (Inl _, w1) \<Rightarrow> (False, w1) | (Inr _, w1) \<Rightarrow> (True, w1))"

definition backoffSchedule :: "int list" where
  "backoffSchedule = [1 * minute, 5 * minute, 15 * minute, 1 * hour, 4 * hour]"

text \<open>Indexing is guarded from above only, as in the code: a negative count would panic there, and
  the invariant below excludes it.\<close>

definition backoff_for :: "int \<Rightarrow> int" where
  "backoff_for currentAttempts =
     (let backoffIndex =
        (if currentAttempts \<ge> int (length backoffSchedule) then int (length backoffSchedule) - 1
         else currentAttempts)
      in backoffSchedule ! nat backoffIndex)"

definition scheduleRetry :: "Worker \<Rightarrow> uuid \<Rightarrow> int \<Rightarrow> world \<Rightarrow> world" where
  "scheduleRetry wk i currentAttempts w =
     (let newAttempts = int32 (currentAttempts + 1) in
      if newAttempts \<ge> wc_MaxRetries (wk_config wk) then snd (markFailed i w)
      else
        (let nextAttempt = clock w + backoff_for currentAttempts in
         case UpdateWebhookQueueStatus i ''pending'' (Some newAttempts) (Some nextAttempt) w of
           (Inl _, w1) \<Rightarrow> snd (markFailed i w1)
         | (Inr _, w1) \<Rightarrow> w1))"

section \<open>Delivery\<close>

definition item_attempts :: "queue_row \<Rightarrow> int" where
  "item_attempts item = (case dbQ_Attempts item of None \<Rightarrow> 0 | Some a \<Rightarrow> a)"

definition deliverWebhook :: "Worker \<Rightarrow> queue_row \<Rightarrow> world \<Rightarrow> world" where
  "deliverWebhook wk item w =
     (let attempts = item_attempts item in
      case WebhookRepository_Get (wk_ext wk) (wk_key wk) (dbQ_WebhookID item) w of
        (Inl e, w1) \<Rightarrow>
          (if errors_Is e ContextCanceled then w1
           else if errors_Is e (RepoErr RepoWebhookNotFound) then snd (markFailed (dbQ_ID item) w1)
           else scheduleRetry wk (dbQ_ID item) attempts w1)
      | (Inr webhook, w1) \<Rightarrow>
          (case sendWebhook wk (wh_URL webhook) (wh_Secret webhook) (dbQ_Payload item) w1 of
             (Inl e, w2) \<Rightarrow>
               (if errors_Is e ContextCanceled then w2
                else scheduleRetry wk (dbQ_ID item) attempts w2)
           | (Inr _, w2) \<Rightarrow> snd (markDelivered (dbQ_ID item) w2)))"

text \<open>The loop over a batch; \<open>stops\<close> are the results of the polls of \<open>ctx.Done()\<close> before each
  item (\<open>False\<close> when the list is used up).\<close>

fun deliver_items :: "Worker \<Rightarrow> bool list \<Rightarrow> queue_row list \<Rightarrow> world \<Rightarrow> world" where
  "deliver_items wk stops [] w = w"
| "deliver_items wk stops (item # items) w =
     (if stops \<noteq> [] \<and> hd stops then w
      else deliver_items wk (tl stops) items (deliverWebhook wk item w))"

definition processBatch :: "Worker \<Rightarrow> bool list \<Rightarrow> world \<Rightarrow> world" where
  "processBatch wk stops w =
     (case GetPendingWebhookQueueItems (wc_BatchSize (wk_config wk)) w of
        (Inl _, w1) \<Rightarrow> w1
      | (Inr items, w1) \<Rightarrow> deliver_items wk stops items w1)"

text \<open>The polling loop: a batch at the start and one per tick, until the context is done. The
  times are those of the ticks; time does not run within a batch.\<close>

fun worker_run :: "Worker \<Rightarrow> (time \<times> bool list) list \<Rightarrow> world \<Rightarrow> world" where
  "worker_run wk [] w = w"
| "worker_run wk ((t, stops) # ticks) w =
     worker_run wk ticks (processBatch wk stops (w\<lparr>clock := t\<rparr>))"

section \<open>What the worker keeps\<close>

lemma keeps_sendWebhook: "keeps (winv I) (sendWebhook wk url secret payload)"
proof (rule keepsI)
  fix w assume w: "winv I w"
  have do: "keeps (winv I) (http_Do wk req)" for req
    unfolding http_Do_def by (rule keeps_winv_call) (simp add: winv_def)
  have "keeps (winv I) (check (http_Do wk req) wrap (\<lambda>status.
      if status < 200 \<or> 300 \<le> status then fail (e status) else ok ()))" for req wrap and e :: "int \<Rightarrow> goerror"
    by (intro keeps_check keeps_if do inv_intros)
  from keeps_winvD [OF this w] w show "winv I (snd (sendWebhook wk url secret payload w))"
    by (simp add: sendWebhook_def split: sum.splits)
qed

text \<open>
  A predicate on the tables that the worker's retries keep, for the attempt counts in \<open>A\<close> that
  rows may show.
\<close>

locale queue_invariant = table_invariant I for I :: "database \<Rightarrow> bool" +
  fixes A :: "int \<Rightarrow> bool" and limit :: int
  assumes attempts_read: "I d \<Longrightarrow> r \<in> set (tQueue d) \<Longrightarrow> A (item_attempts r)"
    and retry: "I d \<Longrightarrow> A a \<Longrightarrow> int32 (a + 1) < limit \<Longrightarrow>
      I (snd (sql_update_webhook_queue_status i ''pending'' (Some (int32 (a + 1))) next now d))"
begin

lemma winv_mark:
  "winv I w \<Longrightarrow> winv I (snd (markFailed i w))" "winv I w \<Longrightarrow> winv I (snd (markDelivered i w))"
  using keeps_winvD [OF keeps_writes(9), of w i] keeps_winvD [OF keeps_writes(8), of w i]
  by (auto simp: markFailed_def markDelivered_def split: prod.splits sum.splits)

lemma winv_scheduleRetry:
  assumes "winv I w" and "A a" and "wc_MaxRetries (wk_config wk) = limit"
  shows "winv I (scheduleRetry wk i a w)"
proof -
  have "winv I (snd (UpdateWebhookQueueStatus i ''pending'' (Some (int32 (a + 1))) nx w))"
    if "int32 (a + 1) < limit" for nx
    unfolding UpdateWebhookQueueStatus_def
    by (rule keeps_winvD [OF keeps_exec assms(1)]) (intro retry that assms)
  with assms(1,3) show ?thesis
    by (auto simp: scheduleRetry_def Let_def winv_mark split: prod.splits sum.splits)
      (metis not_le snd_conv winv_mark(1))+
qed

lemma winv_deliverWebhook:
  assumes w: "winv I w" and "A (item_attempts item)" and "wc_MaxRetries (wk_config wk) = limit"
  shows "winv I (deliverWebhook wk item w)"
proof -
  obtain r w1 where g: "WebhookRepository_Get (wk_ext wk) (wk_key wk) (dbQ_WebhookID item) w = (r, w1)"
    by fastforce
  have w1: "winv I w1" using keepsD_eq [OF keeps_repository_reads(13) w g] .
  show ?thesis
  proof (cases r)
    case (Inl e)
    with g assms w1 show ?thesis by (simp add: deliverWebhook_def Let_def winv_scheduleRetry winv_mark)
  next
    case (Inr wh)
    obtain r2 w2 where s: "sendWebhook wk (wh_URL wh) (wh_Secret wh) (dbQ_Payload item) w1 = (r2, w2)"
      by fastforce
    have "winv I w2" using keepsD_eq [OF keeps_sendWebhook w1 s] .
    with g s Inr assms show ?thesis
      by (simp add: deliverWebhook_def Let_def winv_scheduleRetry winv_mark split: sum.splits)
  qed
qed

lemma winv_deliver_items:
  "winv I w \<Longrightarrow> \<forall>item\<in>set items. A (item_attempts item) \<Longrightarrow> wc_MaxRetries (wk_config wk) = limit
   \<Longrightarrow> winv I (deliver_items wk stops items w)"
  by (induction wk stops items w rule: deliver_items.induct) (simp_all add: winv_deliverWebhook)

lemma winv_processBatch:
  assumes w: "winv I w" and "wc_MaxRetries (wk_config wk) = limit"
  shows "winv I (processBatch wk stops w)"
proof -
  obtain r w1 where g: "GetPendingWebhookQueueItems (wc_BatchSize (wk_config wk)) w = (r, w1)" by fastforce
  have w1: "winv I w1" using keepsD_eq [OF keeps_reads(16) w g] .
  have "\<forall>item\<in>set items. A (item_attempts item)" if "r = Inr items" for items
  proof -
    have "\<exists>d. I d \<and> set items \<subseteq> set (tQueue d)"
      using g w that unfolding GetPendingWebhookQueueItems_def exec_def call_def
      by (auto simp: winv_def sql_get_pending_webhook_queue_items_def order_asc_def Let_def
          dest!: limit_offset_Inr in_set_takeD in_set_dropD split: list.splits outcome.splits
          intro: exI [of _ "db w"])
    then show ?thesis using attempts_read by blast
  qed
  with g w1 assms(2) show ?thesis
    by (simp add: processBatch_def winv_deliver_items split: sum.splits)
qed

lemma winv_clock: "winv I w \<Longrightarrow> winv I (w\<lparr>clock := t\<rparr>)"
  by (simp add: winv_def)

lemma winv_worker_run:
  "winv I w \<Longrightarrow> wc_MaxRetries (wk_config wk) = limit \<Longrightarrow> winv I (worker_run wk ticks w)"
  by (induction wk ticks w rule: worker_run.induct) (simp_all add: winv_processBatch winv_clock)

end

text \<open>Every queue row has counted fewer attempts than the limit, and none is negative.\<close>

definition count_ok :: "int \<Rightarrow> int \<Rightarrow> bool" where
  "count_ok limit a \<longleftrightarrow> a = 0 \<or> 0 < a \<and> a < limit"

definition attempts_ok :: "int \<Rightarrow> database \<Rightarrow> bool" where
  "attempts_ok limit d \<longleftrightarrow> (\<forall>r\<in>set (tQueue d). count_ok limit (item_attempts r))"

lemma attempts_ok_subset:
  "attempts_ok limit d \<Longrightarrow> set (tQueue d') \<subseteq> set (tQueue d) \<Longrightarrow> attempts_ok limit d'"
  by (auto simp: attempts_ok_def)

lemma tQueue_unchanged:
  "tQueue (snd (sql_create_account ap new now d)) = tQueue d"
  "tQueue (snd (sql_insert_email ep new now d)) = tQueue d"
  "tQueue (snd (sql_insert_attachment tp new now d)) = tQueue d"
  "tQueue (snd (sql_create_webhook a u s new now d)) = tQueue d"
  "tQueue (snd (sql_update_email_flags i fl now d)) = tQueue d"
  "tQueue (snd (sql_mark_email_deleted_upstream i now d)) = tQueue d"
  "tQueue (snd (sql_delete_attachments_by_email_id i now d)) = tQueue d"
  by (simp_all add: sql_create_account_def sql_insert_email_def sql_insert_attachment_def
      sql_create_webhook_def sql_update_email_flags_def sql_mark_email_deleted_upstream_def
      sql_delete_attachments_by_email_id_def text_params_def jsonb_params_def update_emails_def Let_def)

lemma int32_Suc: "0 \<le> a \<Longrightarrow> a < 2147483647 \<Longrightarrow> int32 (a + 1) = a + 1"
  by (rule int32_id) simp_all

lemma attempts_mark:
  assumes "attempts_ok limit d"
  shows "attempts_ok limit (snd (sql_mark_webhook_queue_delivered i now d))"
    and "attempts_ok limit (snd (sql_mark_webhook_queue_failed i now d))"
  using assms by (auto simp: attempts_ok_def item_attempts_def sql_mark_webhook_queue_delivered_def
      sql_mark_webhook_queue_failed_def update_queue_def)

lemma attempts_delete:
  assumes "attempts_ok limit d"
  shows "attempts_ok limit (snd (sql_delete_account i now d))"
    and "attempts_ok limit (snd (sql_delete_webhook i now d))"
  by (rule attempts_ok_subset [OF assms]; auto simp: sql_delete_account_tables(5) sql_delete_webhook_def
      delete_webhooks_def Let_def)+

lemma attempts_create:
  "attempts_ok limit d \<Longrightarrow> attempts_ok limit (snd (sql_create_webhook_queue_item wid eid pl new now d))"
  by (auto simp: attempts_ok_def count_ok_def item_attempts_def sql_create_webhook_queue_item_def Let_def)

lemma attempts_retry:
  assumes "attempts_ok limit d" and "count_ok limit a" and "int32 (a + 1) < limit" and "limit \<le> 2147483647"
  shows "attempts_ok limit (snd (sql_update_webhook_queue_status i ''pending'' (Some (int32 (a + 1))) nx now d))"
proof -
  have "count_ok limit (int32 (a + 1))"
    using assms(2-4) by (auto simp: count_ok_def int32_Suc int32_id)
  with assms(1) show ?thesis
    by (auto simp: attempts_ok_def item_attempts_def sql_update_webhook_queue_status_def update_queue_def)
qed

interpretation attempts: queue_invariant "attempts_ok (int32 k)" "count_ok (int32 k)" "int32 k" for k
proof unfold_locales
  fix d a i nx now
  assume "attempts_ok (int32 k) d" "count_ok (int32 k) a" "int32 (a + 1) < int32 k"
  then show "attempts_ok (int32 k)
      (snd (sql_update_webhook_queue_status i ''pending'' (Some (int32 (a + 1))) nx now d))"
    using int32_bounds [of k] by (intro attempts_retry) simp_all
qed (simp_all add: attempts_mark attempts_delete attempts_create, simp_all add: attempts_ok_def tQueue_unchanged)

interpretation queue_tables: queue_invariant db_inv "\<lambda>_. True" limit for limit
  by unfold_locales (simp_all add: inv_update_queue_status)

end
