(* ===== verification/WorkerRefinement.thy ===== *)
theory WorkerRefinement
  imports WebhookWorker
begin

text \<open>
  What the worker promises about a delivery: an abstract state machine with a state per queue row,
  and the proof that the worker of \<open>WebhookWorker\<close> implements it whatever calls fail or lose their
  reply. Interference by other workers is left out here (no \<open>Raced\<close> outcome): with a second
  worker on the same table the rows are not locked after the \<open>SELECT\<close> returns.
\<close>

section \<open>The abstract machine\<close>

datatype delivery = Pending int | Delivered | GaveUp

inductive delivery_step :: "int \<Rightarrow> delivery \<Rightarrow> delivery \<Rightarrow> bool" for limit where
  stay: "delivery_step limit d d"
| success: "delivery_step limit (Pending a) Delivered"
| retry: "a + 1 < limit \<Longrightarrow> delivery_step limit (Pending a) (Pending (a + 1))"
| give_up: "delivery_step limit (Pending a) GaveUp"

inductive_simps delivery_step_simps [simp]:
  "delivery_step limit Delivered d" "delivery_step limit GaveUp d" "delivery_step limit (Pending a) d"

lemma delivery_step_refl [simp]: "delivery_step limit d d"
  by (rule delivery_step.stay)

abbreviation delivery_steps :: "int \<Rightarrow> delivery \<Rightarrow> delivery \<Rightarrow> bool" where
  "delivery_steps limit \<equiv> (delivery_step limit)\<^sup>*\<^sup>*"

lemma delivery_steps_terminal: "delivery_steps limit d d' \<Longrightarrow> d \<in> {Delivered, GaveUp} \<Longrightarrow> d' = d"
  by (induction rule: rtranclp_induct) auto

lemma delivery_steps_Pending:
  "delivery_steps limit d (Pending b) \<Longrightarrow> \<exists>a. d = Pending a \<and> a \<le> b \<and> (a < b \<longrightarrow> b < limit)"
proof (induction "Pending b" arbitrary: b rule: rtranclp_induct)
  case base
  then show ?case by simp
next
  case (step d' b)
  then show ?case by (cases d') auto
qed

definition delivery_of :: "queue_row \<Rightarrow> delivery" where
  "delivery_of r =
     (if dbQ_Status r = ''delivered'' then Delivered
      else if dbQ_Status r = ''failed'' then GaveUp else Pending (item_attempts r))"

section \<open>Changes of one row\<close>

text \<open>Nothing but the row \<open>i\<close> of the queue changes.\<close>

definition row_changed :: "uuid \<Rightarrow> (queue_row \<Rightarrow> queue_row) \<Rightarrow> world \<Rightarrow> world \<Rightarrow> bool" where
  "row_changed i f w w' \<longleftrightarrow>
     db w' = (db w)\<lparr>tQueue := map (\<lambda>r. if dbQ_ID r = i then f r else r) (tQueue (db w))\<rparr>
     \<and> clock w' = clock w \<and> no_races w'"

lemma map_if_id [simp]: "map (\<lambda>r. if P r then id r else r) rs = rs"
  by (induction rs) auto

lemma row_changed_refl: "no_races w \<Longrightarrow> row_changed i id w w"
  by (simp add: row_changed_def)

lemma row_changed_trans:
  assumes "row_changed i f w w1" and "row_changed i g w1 w2" and "\<And>r. dbQ_ID (f r) = dbQ_ID r"
  shows "row_changed i (g \<circ> f) w w2"
proof -
  have "map (\<lambda>r. if dbQ_ID r = i then g r else r) (map (\<lambda>r. if dbQ_ID r = i then f r else r) rs)
      = map (\<lambda>r. if dbQ_ID r = i then (g \<circ> f) r else r) rs" for rs
    by (induction rs) (auto simp: assms(3))
  with assms show ?thesis by (simp add: row_changed_def)
qed

lemma exec_no_races:
  assumes w: "no_races w" and run: "exec q w = (r, w')"
    and q: "\<And>now d. snd (q now d) = d \<or> snd (q now d) = d\<lparr>tQueue := map (\<lambda>r. if dbQ_ID r = i then f r else r) (tQueue d)\<rparr>"
  shows "(row_changed i id w w' \<or> row_changed i f w w') \<and> http_log w' = http_log w"
proof -
  let ?q = "\<lambda>w. let (r, d) = q (pg_micros (clock w)) (db w) in (r, w\<lparr>db := d\<rparr>)"
  have n: "no_races (next_call w)" using no_races_next [OF w] .
  have stay: "row_changed i id w (next_call w)" using n by (simp add: row_changed_def)
  have upd: "row_changed i id w (snd (?q (next_call w))) \<or> row_changed i f w (snd (?q (next_call w)))"
    "http_log (snd (?q (next_call w))) = http_log w"
    using q [of "pg_micros (clock w)" "db w"] no_races_script [OF n]
    by (auto simp: row_changed_def case_prod_beta Let_def next_call_def)
  have log: "http_log (next_call w) = http_log w" by (simp add: next_call_def)
  have ex: "call ?q w = (r, w')" using run by (simp only: exec_def)
  from w show ?thesis
  proof (cases rule: call_no_races [where q = ?q])
    case healthy
    have "w' = snd (?q (next_call w))" using arg_cong [OF healthy, of snd] unfolding ex snd_conv .
    with upd show ?thesis by simp
  next
    case (refused e)
    with ex stay log show ?thesis by simp
  next
    case (lost e)
    have "w' = snd (?q (next_call w))" using arg_cong [OF lost, of snd] unfolding ex snd_conv .
    with upd show ?thesis by simp
  qed
qed

section \<open>The worker's operations\<close>

definition set_failed :: "queue_row \<Rightarrow> queue_row" where
  "set_failed r = r\<lparr>dbQ_Status := ''failed''\<rparr>"

definition set_delivered :: "queue_row \<Rightarrow> queue_row" where
  "set_delivered r = r\<lparr>dbQ_Status := ''delivered''\<rparr>"

definition set_retry :: "int \<Rightarrow> time \<Rightarrow> queue_row \<Rightarrow> queue_row" where
  "set_retry a t r =
     r\<lparr>dbQ_Status := ''pending'', dbQ_Attempts := Some a, dbQ_NextAttempt := Some (pg_micros t)\<rparr>"

lemmas set_row_defs = set_failed_def set_delivered_def set_retry_def

lemma markFailed_change:
  assumes "no_races w"
  shows "(row_changed i id w (snd (markFailed i w)) \<or> row_changed i set_failed w (snd (markFailed i w)))
    \<and> http_log (snd (markFailed i w)) = http_log w"
proof -
  obtain r w' where run: "MarkWebhookQueueFailed i w = (r, w')" by fastforce
  have "snd (markFailed i w) = w'" using run by (simp add: markFailed_def split: sum.splits)
  with exec_no_races [OF assms run [unfolded MarkWebhookQueueFailed_def], where i = i and f = set_failed]
  show ?thesis
    by (simp add: sql_mark_webhook_queue_failed_def update_queue_def set_failed_def)
qed

lemma markDelivered_change:
  assumes "no_races w"
  shows "(row_changed i id w (snd (markDelivered i w)) \<or> row_changed i set_delivered w (snd (markDelivered i w)))
    \<and> http_log (snd (markDelivered i w)) = http_log w"
proof -
  obtain r w' where run: "MarkWebhookQueueDelivered i w = (r, w')" by fastforce
  have "snd (markDelivered i w) = w'" using run by (simp add: markDelivered_def split: sum.splits)
  with exec_no_races [OF assms run [unfolded MarkWebhookQueueDelivered_def], where i = i and f = set_delivered]
  show ?thesis
    by (simp add: sql_mark_webhook_queue_delivered_def update_queue_def set_delivered_def)
qed

lemma update_status_change:
  assumes "no_races w" and "UpdateWebhookQueueStatus i ''pending'' (Some a) (Some t) w = (r, w')"
  shows "(row_changed i id w w' \<or> row_changed i (set_retry a t) w w') \<and> http_log w' = http_log w"
  using exec_no_races [OF assms(1) assms(2) [unfolded UpdateWebhookQueueStatus_def],
      where i = i and f = "set_retry a t"]
  by (simp add: sql_update_webhook_queue_status_def update_queue_def set_retry_def)

text \<open>What a failed attempt may do to its row.\<close>

definition retry_change :: "int \<Rightarrow> int \<Rightarrow> time \<Rightarrow> (queue_row \<Rightarrow> queue_row) \<Rightarrow> bool" where
  "retry_change limit a now f \<longleftrightarrow>
     f \<in> {id, set_failed}
     \<or> int32 (a + 1) < limit
        \<and> f \<in> {set_retry (int32 (a + 1)) (now + backoff_for a),
               set_failed \<circ> set_retry (int32 (a + 1)) (now + backoff_for a)}"

lemma scheduleRetry_change:
  assumes "no_races w"
  shows "\<exists>f. retry_change (wc_MaxRetries (wk_config wk)) a (clock w) f
    \<and> row_changed i f w (scheduleRetry wk i a w) \<and> http_log (scheduleRetry wk i a w) = http_log w"
proof (cases "int32 (a + 1) \<ge> wc_MaxRetries (wk_config wk)")
  case True
  then have "scheduleRetry wk i a w = snd (markFailed i w)" by (simp add: scheduleRetry_def Let_def)
  with markFailed_change [OF assms, of i] show ?thesis by (auto simp: retry_change_def)
next
  case False
  let ?t = "clock w + backoff_for a" and ?a = "int32 (a + 1)"
  obtain r w1 where up: "UpdateWebhookQueueStatus i ''pending'' (Some ?a) (Some ?t) w = (r, w1)" by fastforce
  note u = update_status_change [OF assms up]
  have n1: "no_races w1" using u by (auto simp: row_changed_def)
  have limit: "?a < wc_MaxRetries (wk_config wk)" using False by simp
  show ?thesis
  proof (cases r)
    case (Inr k)
    with up False have "scheduleRetry wk i a w = w1" by (simp add: scheduleRetry_def Let_def)
    with u limit show ?thesis by (auto simp: retry_change_def)
  next
    case (Inl e)
    with up False have s: "scheduleRetry wk i a w = snd (markFailed i w1)" by (simp add: scheduleRetry_def Let_def)
    have keep: "dbQ_ID (id r) = dbQ_ID r" "dbQ_ID (set_retry ?a ?t r) = dbQ_ID r" for r
      by (simp_all add: set_retry_def)
    from u markFailed_change [OF n1, of i] obtain f g where
      fg: "f \<in> {id, set_retry ?a ?t}" "row_changed i f w w1" "g \<in> {id, set_failed}"
        "row_changed i g w1 (snd (markFailed i w1))" by auto
    have "row_changed i (g \<circ> f) w (snd (markFailed i w1))"
      by (rule row_changed_trans [OF fg(2,4)]) (use fg(1) keep in auto)
    moreover have "retry_change (wc_MaxRetries (wk_config wk)) a (clock w) (g \<circ> f)"
      using fg limit by (auto simp: retry_change_def)
    ultimately show ?thesis using u markFailed_change [OF n1, of i] unfolding s by auto
  qed
qed

text \<open>An endpoint accepts a request when it answers 2xx.\<close>

definition accepted :: "Worker \<Rightarrow> HttpRequest \<Rightarrow> bool" where
  "accepted wk req \<longleftrightarrow> (\<exists>status. wk_endpoint wk req = Inr status \<and> 200 \<le> status \<and> status < 300)"

lemma Get_webhook_change:
  assumes "no_races w" and "WebhookRepository_Get x key i w = (r, w')"
  shows "row_changed j id w w' \<and> http_log w' = http_log w"
proof -
  obtain r0 w0 where g: "GetWebhook i w = (r0, w0)" by fastforce
  have "w' = w0" using assms(2) g by (auto simp: WebhookRepository_Get_def check_def split: sum.splits)
  with exec_no_races [OF assms(1) g [unfolded GetWebhook_def], where i = j and f = id] show ?thesis
    by (simp add: selects)
qed

lemma sendWebhook_change:
  assumes w: "no_races w" and run: "sendWebhook wk url secret payload w = (r, w')"
  shows "row_changed j id w w'
    \<and> (http_log w' = http_log w
        \<or> http_log w' = http_log w @ [webhook_request (wk_ext wk) url secret payload (clock w)])
    \<and> (r = Inr () \<longrightarrow> accepted wk (webhook_request (wk_ext wk) url secret payload (clock w))
        \<and> http_log w' = http_log w @ [webhook_request (wk_ext wk) url secret payload (clock w)])"
proof (cases "wk_new_request wk url")
  case (Inl e)
  with run w show ?thesis by (auto simp: sendWebhook_def row_changed_def)
next
  case (Inr u)
  let ?req = "webhook_request (wk_ext wk) url secret payload (clock w)"
  let ?q = "\<lambda>w. (wk_endpoint wk ?req, w\<lparr>http_log := http_log w @ [?req]\<rparr>)"
  obtain r1 w1 where d: "call ?q w = (r1, w1)" by fastforce
  have r: "w' = w1" "r = Inr () \<Longrightarrow> \<exists>s. r1 = Inr s \<and> 200 \<le> s \<and> s < 300"
    using run Inr d by (auto simp: sendWebhook_def check_def http_Do_def split: sum.splits if_splits)
  have n: "no_races (next_call w)" using no_races_next [OF w] .
  have nx: "row_changed j id w (next_call w)" "http_log (next_call w) = http_log w"
    using n by (simp_all add: row_changed_def next_call_def)
  have sent: "row_changed j id w ((next_call w)\<lparr>http_log := http_log w @ [?req]\<rparr>)"
    using no_races_script [OF n] by (simp add: row_changed_def)
  from w show ?thesis
  proof (cases rule: call_no_races [where q = ?q])
    case healthy
    with d nx sent r show ?thesis by (auto simp: accepted_def)
  next
    case (refused e)
    with d nx r show ?thesis by auto
  next
    case (lost e)
    with d nx sent r show ?thesis by auto
  qed
qed

text \<open>What one delivery may do: a retry's changes, a failure, nothing, or delivered, the last only
  after the endpoint accepted the request with this row's payload.\<close>

definition delivery_change :: "Worker \<Rightarrow> queue_row \<Rightarrow> time \<Rightarrow> HttpRequest list \<Rightarrow> (queue_row \<Rightarrow> queue_row) \<Rightarrow> bool" where
  "delivery_change wk item now reqs f \<longleftrightarrow>
     retry_change (wc_MaxRetries (wk_config wk)) (item_attempts item) now f
     \<or> f = set_delivered
        \<and> (\<exists>req. reqs = [req] \<and> accepted wk req \<and> rq_Body req = dbQ_Payload item)"

text \<open>From \<open>w\<close> to \<open>v\<close> one delivery has happened, with at most one request.\<close>

definition delivers :: "Worker \<Rightarrow> queue_row \<Rightarrow> world \<Rightarrow> world \<Rightarrow> bool" where
  "delivers wk item w v \<longleftrightarrow>
     (\<exists>f reqs. delivery_change wk item (clock w) reqs f \<and> length reqs \<le> 1
       \<and> row_changed (dbQ_ID item) f w v \<and> http_log v = http_log w @ reqs)"

text \<open>Up to \<open>w1\<close> the row is unchanged and the requests \<open>reqs\<close> were sent.\<close>

definition sent_only :: "queue_row \<Rightarrow> HttpRequest list \<Rightarrow> world \<Rightarrow> world \<Rightarrow> bool" where
  "sent_only item reqs w w1 \<longleftrightarrow>
     row_changed (dbQ_ID item) id w w1 \<and> http_log w1 = http_log w @ reqs \<and> length reqs \<le> 1"

lemma sent_only_same: "sent_only item reqs w w1 \<Longrightarrow> clock w1 = clock w \<and> no_races w1"
  by (simp add: sent_only_def row_changed_def)

lemma delivers_then:
  assumes "sent_only item reqs w w1" and "row_changed (dbQ_ID item) g w1 v" and "http_log v = http_log w1"
    and "delivery_change wk item (clock w) reqs g"
  shows "delivers wk item w v"
  unfolding delivers_def using assms row_changed_trans [of "dbQ_ID item" id w w1 g v]
  by (intro exI [of _ g] exI [of _ reqs]) (simp add: sent_only_def)

lemma delivers_idle: "sent_only item reqs w w1 \<Longrightarrow> delivers wk item w w1"
  unfolding delivers_def
  by (intro exI [of _ id] exI [of _ reqs]) (simp add: sent_only_def delivery_change_def retry_change_def)

lemma delivers_retry:
  assumes "sent_only item reqs w w1"
  shows "delivers wk item w (scheduleRetry wk (dbQ_ID item) (item_attempts item) w1)" (is "delivers _ _ _ ?v")
proof -
  obtain g where g: "retry_change (wc_MaxRetries (wk_config wk)) (item_attempts item) (clock w1) g"
      "row_changed (dbQ_ID item) g w1 ?v" "http_log ?v = http_log w1"
    using scheduleRetry_change [OF conjunct2 [OF sent_only_same [OF assms]], of wk "item_attempts item" "dbQ_ID item"] by blast
  show ?thesis
    by (rule delivers_then [OF assms g(2,3)]) (use g(1) sent_only_same [OF assms] in \<open>simp add: delivery_change_def\<close>)
qed

lemma delivers_failed:
  assumes "sent_only item reqs w w1"
  shows "delivers wk item w (snd (markFailed (dbQ_ID item) w1))"
proof -
  obtain g where g: "g \<in> {id, set_failed}" "row_changed (dbQ_ID item) g w1 (snd (markFailed (dbQ_ID item) w1))"
      "http_log (snd (markFailed (dbQ_ID item) w1)) = http_log w1"
    using markFailed_change [OF conjunct2 [OF sent_only_same [OF assms]], of "dbQ_ID item"] by auto
  show ?thesis
    by (rule delivers_then [OF assms g(2,3)]) (use g(1) in \<open>auto simp: delivery_change_def retry_change_def\<close>)
qed

lemma delivers_delivered:
  assumes "sent_only item [req] w w1" and "accepted wk req" and "rq_Body req = dbQ_Payload item"
  shows "delivers wk item w (snd (markDelivered (dbQ_ID item) w1))" (is "delivers _ _ _ ?v")
proof -
  obtain g where g: "g \<in> {id, set_delivered}" "row_changed (dbQ_ID item) g w1 ?v" "http_log ?v = http_log w1"
    using markDelivered_change [OF conjunct2 [OF sent_only_same [OF assms(1)]], of "dbQ_ID item"] by auto
  show ?thesis
    by (rule delivers_then [OF assms(1) g(2,3)])
      (use g(1) assms(2,3) in \<open>auto simp: delivery_change_def retry_change_def\<close>)
qed

lemma deliverWebhook_change:
  assumes w: "no_races w"
  shows "delivers wk item w (deliverWebhook wk item w)"
proof -
  obtain r w1 where g: "WebhookRepository_Get (wk_ext wk) (wk_key wk) (dbQ_WebhookID item) w = (r, w1)"
    by fastforce
  have w1: "sent_only item [] w w1"
    using Get_webhook_change [OF w g, of "dbQ_ID item"] by (simp add: sent_only_def)
  show ?thesis
  proof (cases r)
    case (Inl e)
    then show ?thesis
      using g delivers_failed [OF w1] delivers_retry [OF w1] delivers_idle [OF w1]
      by (simp add: deliverWebhook_def Let_def)
  next
    case (Inr wh)
    obtain r2 w2 where s: "sendWebhook wk (wh_URL wh) (wh_Secret wh) (dbQ_Payload item) w1 = (r2, w2)"
      by fastforce
    let ?req = "webhook_request (wk_ext wk) (wh_URL wh) (wh_Secret wh) (dbQ_Payload item) (clock w1)"
    note c2 = sendWebhook_change [OF conjunct2 [OF sent_only_same [OF w1]] s, of "dbQ_ID item"]
    have unchanged: "row_changed (dbQ_ID item) id w w2"
      using row_changed_trans [of "dbQ_ID item" id w w1 id w2] w1 c2 by (simp add: sent_only_def)
    obtain reqs where reqs: "sent_only item reqs w w2" "r2 = Inr () \<Longrightarrow> reqs = [?req] \<and> accepted wk ?req"
      using c2 w1 unchanged by (cases "r2 = Inr ()") (auto simp: sent_only_def)
    show ?thesis
    proof (cases r2)
      case (Inl e)
      then show ?thesis
        using g s \<open>r = Inr wh\<close> delivers_retry [OF reqs(1)] delivers_idle [OF reqs(1)]
        by (simp add: deliverWebhook_def Let_def)
    next
      case Inr2: (Inr u)
      have "rq_Body ?req = dbQ_Payload item" by (simp add: webhook_request_def Let_def)
      with delivers_delivered [of item ?req w w2 wk] reqs Inr2
      have "delivers wk item w (snd (markDelivered (dbQ_ID item) w2))" by simp
      with g s \<open>r = Inr wh\<close> Inr2 show ?thesis by (simp add: deliverWebhook_def Let_def)
    qed
  qed
qed

section \<open>The refinement\<close>

text \<open>What the machine says of one row over a stretch of the run: it is the same delivery, its state
  has moved along the machine, and if it became delivered its payload was accepted meanwhile.\<close>

definition same_delivery :: "queue_row \<Rightarrow> queue_row \<Rightarrow> bool" where
  "same_delivery r r' \<longleftrightarrow> dbQ_ID r' = dbQ_ID r \<and> dbQ_WebhookID r' = dbQ_WebhookID r
     \<and> dbQ_EmailID r' = dbQ_EmailID r \<and> dbQ_Payload r' = dbQ_Payload r \<and> dbQ_CreatedAt r' = dbQ_CreatedAt r"

definition accepted_since :: "Worker \<Rightarrow> HttpRequest list \<Rightarrow> queue_row \<Rightarrow> queue_row \<Rightarrow> bool" where
  "accepted_since wk reqs r r' \<longleftrightarrow>
     (delivery_of r' = Delivered \<and> delivery_of r \<noteq> Delivered \<longrightarrow>
        (\<exists>req\<in>set reqs. accepted wk req \<and> rq_Body req = dbQ_Payload r))"

lemma same_delivery_refl [simp]: "same_delivery r r" by (simp add: same_delivery_def)

lemma same_delivery_trans: "same_delivery r r1 \<Longrightarrow> same_delivery r1 r2 \<Longrightarrow> same_delivery r r2"
  by (simp add: same_delivery_def)

lemma accepted_since_refl [simp]: "accepted_since wk reqs r r" by (simp add: accepted_since_def)

lemma accepted_since_trans:
  "accepted_since wk reqs r r1 \<Longrightarrow> accepted_since wk reqs' r1 r2 \<Longrightarrow> same_delivery r r1
   \<Longrightarrow> accepted_since wk (reqs @ reqs') r r2"
  by (auto simp: accepted_since_def same_delivery_def)

definition valid_limit :: "int \<Rightarrow> bool" where
  "valid_limit limit \<longleftrightarrow> limit \<le> 2147483647"

lemma delivery_change_step:
  assumes "delivery_change wk r now reqs f" and "count_ok (wc_MaxRetries (wk_config wk)) (item_attempts r)"
    and "valid_limit (wc_MaxRetries (wk_config wk))" and "dbQ_Status r = ''pending''"
  shows "same_delivery r (f r) \<and> delivery_step (wc_MaxRetries (wk_config wk)) (delivery_of r) (delivery_of (f r))
    \<and> accepted_since wk reqs r (f r) \<and> count_ok (wc_MaxRetries (wk_config wk)) (item_attempts (f r))"
proof -
  have "int32 (item_attempts r + 1) = item_attempts r + 1 \<and> 0 \<le> item_attempts r"
    using assms(2,3) by (auto simp: count_ok_def valid_limit_def int32_Suc int32_id)
  then show ?thesis
    using assms
    by (auto simp: delivery_change_def retry_change_def same_delivery_def delivery_of_def
        accepted_since_def set_row_defs item_attempts_def count_ok_def)
qed

text \<open>The progress of one row, which composes when one of the two stretches leaves the row alone.\<close>

definition row_progress :: "Worker \<Rightarrow> HttpRequest list \<Rightarrow> queue_row \<Rightarrow> queue_row \<Rightarrow> bool" where
  "row_progress wk reqs r r' \<longleftrightarrow> same_delivery r r' \<and> accepted_since wk reqs r r'
     \<and> delivery_step (wc_MaxRetries (wk_config wk)) (delivery_of r) (delivery_of r')
     \<and> (count_ok (wc_MaxRetries (wk_config wk)) (item_attempts r)
          \<longrightarrow> count_ok (wc_MaxRetries (wk_config wk)) (item_attempts r'))"

lemma row_progress_refl [simp]: "row_progress wk reqs r r"
  by (simp add: row_progress_def delivery_step.stay)

lemma row_progress_trans:
  assumes "row_progress wk reqs r r1" and "row_progress wk reqs' r1 r2" and "r1 = r \<or> r2 = r1"
  shows "row_progress wk (reqs @ reqs') r r2"
  using assms accepted_since_trans [of wk reqs r r1 reqs' r2] by (auto simp: row_progress_def intro: same_delivery_trans)

text \<open>One delivery moves its own row and no other.\<close>

lemma one_delivery:
  assumes "no_races w" and ids: "distinct (map dbQ_ID (tQueue (db w)))" and item: "item \<in> set (tQueue (db w))"
    and ok: "valid_limit (wc_MaxRetries (wk_config wk))" "dbQ_Status item = ''pending''"
      "count_ok (wc_MaxRetries (wk_config wk)) (item_attempts item)"
  obtains g reqs where "db (deliverWebhook wk item w) = (db w)\<lparr>tQueue := map g (tQueue (db w))\<rparr>"
    and "no_races (deliverWebhook wk item w)" and "http_log (deliverWebhook wk item w) = http_log w @ reqs"
    and "length reqs \<le> 1"
    and "\<And>r. r \<in> set (tQueue (db w)) \<Longrightarrow> row_progress wk reqs r (g r) \<and> (r \<noteq> item \<longrightarrow> g r = r)"
proof -
  from deliverWebhook_change [OF assms(1), of wk item] obtain f reqs where
    f: "delivery_change wk item (clock w) reqs f" "length reqs \<le> 1"
    "row_changed (dbQ_ID item) f w (deliverWebhook wk item w)" "http_log (deliverWebhook wk item w) = http_log w @ reqs"
    unfolding delivers_def by blast
  note step = delivery_change_step [OF f(1) ok(3,1,2)]
  define g where "g r = (if dbQ_ID r = dbQ_ID item then f r else r)" for r
  have only: "r = item" if "r \<in> set (tQueue (db w))" "dbQ_ID r = dbQ_ID item" for r
    using distinct_map_filter_inj [OF ids that(1) item that(2)] .
  have "row_progress wk reqs r (g r) \<and> (r \<noteq> item \<longrightarrow> g r = r)" if "r \<in> set (tQueue (db w))" for r
    using step only [OF that] by (auto simp: g_def row_progress_def intro: delivery_step.stay)
  with f that [of g reqs] show thesis by (simp add: row_changed_def g_def [abs_def])
qed

text \<open>One batch moves each row by at most one step, and only rows that were in the batch.\<close>

lemma deliver_items_refine:
  assumes "no_races w" and "distinct (map dbQ_ID (tQueue (db w)))" and "distinct (map dbQ_ID items)"
    and "set items \<subseteq> set (tQueue (db w))" and "valid_limit (wc_MaxRetries (wk_config wk))"
    and "\<forall>r\<in>set items. dbQ_Status r = ''pending'' \<and> count_ok (wc_MaxRetries (wk_config wk)) (item_attempts r)"
  shows "\<exists>g reqs. db (deliver_items wk stops items w) = (db w)\<lparr>tQueue := map g (tQueue (db w))\<rparr>
    \<and> no_races (deliver_items wk stops items w)
    \<and> http_log (deliver_items wk stops items w) = http_log w @ reqs \<and> length reqs \<le> length items
    \<and> (\<forall>r\<in>set (tQueue (db w)). row_progress wk reqs r (g r) \<and> (r \<notin> set items \<longrightarrow> g r = r))"
  using assms
proof (induction wk stops items w rule: deliver_items.induct)
  case (1 wk stops w)
  then show ?case by (intro exI [of _ id] exI [of _ "[]"]) simp
next
  case (2 wk stops item items w)
  show ?case
  proof (cases "stops \<noteq> [] \<and> hd stops")
    case True
    with 2(2) show ?thesis by (intro exI [of _ id] exI [of _ "[]"]) simp
  next
    case False
    define w1 where "w1 = deliverWebhook wk item w"
    have it: "item \<in> set (tQueue (db w))" "dbQ_Status item = ''pending''"
      "count_ok (wc_MaxRetries (wk_config wk)) (item_attempts item)" using 2(5,7) by simp_all
    obtain g1 reqs where db1: "db w1 = (db w)\<lparr>tQueue := map g1 (tQueue (db w))\<rparr>" and n1: "no_races w1"
      and log1: "http_log w1 = http_log w @ reqs" "length reqs \<le> 1"
      and g1: "\<And>r. r \<in> set (tQueue (db w)) \<Longrightarrow> row_progress wk reqs r (g1 r) \<and> (r \<noteq> item \<longrightarrow> g1 r = r)"
      using one_delivery [OF 2(2,3) it(1) 2(6) it(2,3)] unfolding w1_def by blast
    have same: "dbQ_ID (g1 r) = dbQ_ID r" if "r \<in> set (tQueue (db w))" for r
      using g1 [OF that] by (simp add: row_progress_def same_delivery_def)
    have ids: "map dbQ_ID (tQueue (db w1)) = map dbQ_ID (tQueue (db w))" by (simp add: db1 same)
    have "item \<notin> set items" using 2(4) by auto
    then have "g1 r = r" if "r \<in> set items" for r using g1 [of r] 2(5) that by auto
    then have rest: "set items \<subseteq> set (tQueue (db w1))" using 2(5) by (force simp: db1)
    from 2(1) [OF False, folded w1_def] ids rest n1 2(3-7) obtain g2 reqs2 where
      g2: "db (deliver_items wk (tl stops) items w1) = (db w1)\<lparr>tQueue := map g2 (tQueue (db w1))\<rparr>"
      "no_races (deliver_items wk (tl stops) items w1)"
      "http_log (deliver_items wk (tl stops) items w1) = http_log w1 @ reqs2" "length reqs2 \<le> length items"
      "\<forall>r\<in>set (tQueue (db w1)). row_progress wk reqs2 r (g2 r) \<and> (r \<notin> set items \<longrightarrow> g2 r = r)"
      by auto
    have both: "row_progress wk (reqs @ reqs2) r (g2 (g1 r)) \<and> (r \<notin> set (item # items) \<longrightarrow> g2 (g1 r) = r)"
      if r: "r \<in> set (tQueue (db w))" for r
    proof -
      have m: "g1 r \<in> set (tQueue (db w1))" using r by (simp add: db1)
      have "dbQ_ID item \<notin> dbQ_ID ` set items" using 2(4) by simp
      then have "g1 item \<notin> set items" using same [OF it(1)] by (metis imageI)
      then have one: "g1 r = r \<or> g2 (g1 r) = g1 r" using g1 [OF r] g2(5) m by blast
      have p: "row_progress wk reqs r (g1 r)" "row_progress wk reqs2 (g1 r) (g2 (g1 r))" using g1 [OF r] g2(5) m by blast+
      moreover have "g2 (g1 r) = r" if "r \<notin> set (item # items)"
        using g1 [OF r] bspec [OF g2(5) m] that by simp
      ultimately show ?thesis using row_progress_trans [OF p one] by blast
    qed
    have run: "deliver_items wk stops (item # items) w = deliver_items wk (tl stops) items w1"
      unfolding w1_def by (simp only: deliver_items.simps if_not_P [OF False])
    show ?thesis
      unfolding run using g2 log1 both
      by (intro exI [of _ "g2 \<circ> g1"] exI [of _ "reqs @ reqs2"]) (simp add: db1)
  qed
qed

lemma distinct_take_filter: "distinct (map f xs) \<Longrightarrow> distinct (map f (take n (sort_key k (filter P xs))))"
  by (simp add: take_map [symmetric] distinct_map inj_on_def)

lemma GetPending_rows:
  assumes "no_races w" and "GetPendingWebhookQueueItems lim w = (r, w1)"
  shows "db w1 = db w \<and> no_races w1 \<and> http_log w1 = http_log w
    \<and> (\<forall>items. r = Inr items \<longrightarrow> set items \<subseteq> {r \<in> set (tQueue (db w)). queue_due (pg_micros (clock w)) r}
         \<and> length items \<le> nat lim
         \<and> (distinct (map dbQ_ID (tQueue (db w))) \<longrightarrow> distinct (map dbQ_ID items)))"
proof -
  let ?sql = "sql_get_pending_webhook_queue_items lim"
  have same: "row_changed 0 id w w1 \<and> http_log w1 = http_log w"
    using exec_no_races [OF assms(1) assms(2) [unfolded GetPendingWebhookQueueItems_def], where i = 0 and f = id]
    by (simp add: selects)
  have "set items \<subseteq> {r \<in> set (tQueue (db w)). queue_due (pg_micros (clock w)) r} \<and> length items \<le> nat lim
      \<and> (distinct (map dbQ_ID (tQueue (db w))) \<longrightarrow> distinct (map dbQ_ID items))" if "r = Inr items" for items
  proof -
    have "fst (?sql (pg_micros (clock w)) (db w)) = Inr items"
      using assms(1)
    proof (cases rule: call_no_races [where q = "\<lambda>w. let (r, d) = ?sql (pg_micros (clock w)) (db w) in (r, w\<lparr>db := d\<rparr>)"])
      case healthy
      then show ?thesis using assms(2) that
        by (simp add: GetPendingWebhookQueueItems_def exec_def case_prod_beta Let_def)
    qed (use assms(2) that in \<open>simp_all add: GetPendingWebhookQueueItems_def exec_def\<close>)
    then have "items = take (nat lim) (sort_key dbQ_CreatedAt
        (filter (queue_due (pg_micros (clock w))) (tQueue (db w))))"
      by (auto simp: sql_get_pending_webhook_queue_items_def order_asc_def dest: limit_offset_Inr)
    then show ?thesis
      using distinct_take_filter [of dbQ_ID "tQueue (db w)"]
      by (auto dest: in_set_takeD in_set_dropD)
  qed
  then show ?thesis using same by (simp add: row_changed_def)
qed

definition worker_ready :: "Worker \<Rightarrow> world \<Rightarrow> bool" where
  "worker_ready wk w \<longleftrightarrow> no_races w \<and> distinct (map dbQ_ID (tQueue (db w)))
     \<and> attempts_ok (wc_MaxRetries (wk_config wk)) (db w) \<and> valid_limit (wc_MaxRetries (wk_config wk))"

definition batch_change :: "Worker \<Rightarrow> time \<Rightarrow> HttpRequest list \<Rightarrow> queue_row \<Rightarrow> queue_row \<Rightarrow> bool" where
  "batch_change wk now reqs r r' \<longleftrightarrow> row_progress wk reqs r r' \<and> (\<not> queue_due (pg_micros now) r \<longrightarrow> r' = r)"

lemma processBatch_refine:
  assumes "worker_ready wk w"
  shows "\<exists>g reqs. db (processBatch wk stops w) = (db w)\<lparr>tQueue := map g (tQueue (db w))\<rparr>
    \<and> no_races (processBatch wk stops w) \<and> http_log (processBatch wk stops w) = http_log w @ reqs
    \<and> length reqs \<le> nat (wc_BatchSize (wk_config wk))
    \<and> (\<forall>r\<in>set (tQueue (db w)). batch_change wk (clock w) reqs r (g r))"
proof -
  note w = assms [unfolded worker_ready_def]
  obtain r w1 where g: "GetPendingWebhookQueueItems (wc_BatchSize (wk_config wk)) w = (r, w1)" by fastforce
  note p = GetPending_rows [OF conjunct1 [OF w] g]
  show ?thesis
  proof (cases r)
    case (Inl e)
    with g have "processBatch wk stops w = w1" by (simp add: processBatch_def)
    with p show ?thesis by (intro exI [of _ id] exI [of _ "[]"]) (simp add: batch_change_def)
  next
    case (Inr items)
    have run: "processBatch wk stops w = deliver_items wk stops items w1"
      using g Inr by (simp add: processBatch_def)
    have d: "db w1 = db w" "no_races w1" "http_log w1 = http_log w" "length items \<le> nat (wc_BatchSize (wk_config wk))"
      and due: "\<forall>r\<in>set items. queue_due (pg_micros (clock w)) r" "set items \<subseteq> set (tQueue (db w))"
      and ids: "distinct (map dbQ_ID items)"
      using p Inr w by auto
    have pend: "\<forall>r\<in>set items. dbQ_Status r = ''pending'' \<and> count_ok (wc_MaxRetries (wk_config wk)) (item_attempts r)"
    proof
      fix r assume r: "r \<in> set items"
      with due have "queue_due (pg_micros (clock w)) r" "r \<in> set (tQueue (db w))" by blast+
      with w show "dbQ_Status r = ''pending'' \<and> count_ok (wc_MaxRetries (wk_config wk)) (item_attempts r)"
        by (simp add: queue_due_def attempts_ok_def)
    qed
    note prem = d(2) w [THEN conjunct2, THEN conjunct1, folded d(1)] ids due(2) [folded d(1)]
      w [THEN conjunct2, THEN conjunct2, THEN conjunct2] pend
    from deliver_items_refine [OF prem, of stops, unfolded d(1,3), folded run]
    obtain g reqs where gr: "db (processBatch wk stops w) = (db w)\<lparr>tQueue := map g (tQueue (db w))\<rparr>"
      "no_races (processBatch wk stops w)" "http_log (processBatch wk stops w) = http_log w @ reqs"
      "length reqs \<le> length items"
      and g: "\<And>r. r \<in> set (tQueue (db w)) \<Longrightarrow> row_progress wk reqs r (g r) \<and> (r \<notin> set items \<longrightarrow> g r = r)" by blast
    have "batch_change wk (clock w) reqs r (g r)" if "r \<in> set (tQueue (db w))" for r
      using g [OF that] bspec [OF due(1), of r] unfolding batch_change_def by blast
    then show ?thesis using gr d(4) by (intro exI [of _ g] exI [of _ reqs]) simp
  qed
qed

lemma worker_ready_batch:
  assumes "worker_ready wk w"
  shows "worker_ready wk (processBatch wk stops w)"
proof -
  let ?limit = "wc_MaxRetries (wk_config wk)"
  note w = assms [unfolded worker_ready_def]
  from processBatch_refine [OF assms, of stops] obtain g reqs where
    g: "db (processBatch wk stops w) = (db w)\<lparr>tQueue := map g (tQueue (db w))\<rparr>"
    "no_races (processBatch wk stops w)"
    "\<forall>r\<in>set (tQueue (db w)). batch_change wk (clock w) reqs r (g r)" by blast
  have ids: "map dbQ_ID (tQueue (db (processBatch wk stops w))) = map dbQ_ID (tQueue (db w))"
    using g(3) by (simp add: g(1) batch_change_def row_progress_def same_delivery_def)
  show ?thesis
    unfolding worker_ready_def
  proof (intro conjI)
    show "attempts_ok ?limit (db (processBatch wk stops w))"
      using w g(3) by (simp add: g(1) attempts_ok_def batch_change_def row_progress_def)
  qed (use w g(2) ids in simp_all)
qed

end
