(* ===== verification/WebhookProducer.thy ===== *)
theory WebhookProducer
  imports Faults "HOL-Library.Sublist"
begin

text \<open>
  \<open>internal/webhook/producer.go\<close>: for a stored email, the payload with its attachments inlined
  or as presigned URLs, and one queue row per webhook of the account. \<open>json.Marshal\<close> of the
  payload is the argument \<open>prod_marshal\<close> (it fails for a date that JSON cannot hold).
\<close>

section \<open>Payload\<close>

record AttachmentPayload =
  ap_Filename :: string
  ap_ContentType :: string
  ap_Size :: int
  ap_URL :: string
  ap_Data :: string

record ParsedContent =
  pc_Text :: string
  pc_HTML :: string

record EmailPayload =
  ep_ID :: uuid
  ep_UID :: int
  ep_MessageID :: string
  ep_Date :: time
  ep_From :: EmailAddress
  ep_To :: "EmailAddress list"
  ep_CC :: "EmailAddress list"
  ep_Subject :: string
  ep_Parsed :: ParsedContent
  ep_Raw :: string
  ep_Attachments :: "AttachmentPayload list"
  ep_Flags :: "string list"
  ep_Folder :: string

record WebhookPayload =
  wp_Event :: string
  wp_Timestamp :: time
  wp_AccountID :: uuid
  wp_Email :: EmailPayload

record Producer =
  prod_ext :: externals
  prod_key :: string
  prod_storage :: S3Storage
  prod_marshal :: "WebhookPayload \<Rightarrow> string res"

definition PresignedURLExpiry :: int where "PresignedURLExpiry = 1 * hour"
definition InlineAttachmentThreshold :: int where "InlineAttachmentThreshold = 1024 * 1024"

text \<open>One attachment: \<open>None\<close> when it is skipped.\<close>

definition attachment_url ::
  "S3Storage \<Rightarrow> attachment \<Rightarrow> AttachmentPayload \<Rightarrow> world \<Rightarrow> AttachmentPayload option \<times> world" where
  "attachment_url s att payload w =
     (case GeneratePresignedURL s (att_S3Key att) PresignedURLExpiry w of
        (Inl _, w1) \<Rightarrow> (None, w1)
      | (Inr url, w1) \<Rightarrow> (Some (payload\<lparr>ap_URL := url\<rparr>), w1))"

definition attachment_payload ::
  "S3Storage \<Rightarrow> attachment \<Rightarrow> world \<Rightarrow> AttachmentPayload option \<times> world" where
  "attachment_payload s att w =
     (let payload = \<lparr>ap_Filename = att_Filename att, ap_ContentType = att_ContentType att,
                     ap_Size = att_Size att, ap_URL = [], ap_Data = []\<rparr>
      in if att_Size att < InlineAttachmentThreshold then
           (case Download s (att_S3Key att) w of
              (Inl _, w1) \<Rightarrow> attachment_url s att payload w1
            | (Inr data, w1) \<Rightarrow> (Some (payload\<lparr>ap_Data := base64_Encode data\<rparr>), w1))
         else attachment_url s att payload w)"

fun attachment_payloads ::
  "S3Storage \<Rightarrow> attachment list \<Rightarrow> world \<Rightarrow> AttachmentPayload list \<times> world" where
  "attachment_payloads s [] w = ([], w)"
| "attachment_payloads s (att # atts) w =
     (let (p, w1) = attachment_payload s att w;
          (ps, w2) = attachment_payloads s atts w1
      in (case p of None \<Rightarrow> ps | Some q \<Rightarrow> q # ps, w2))"

definition buildPayload :: "Producer \<Rightarrow> email \<Rightarrow> world \<Rightarrow> WebhookPayload \<times> world" where
  "buildPayload p email w =
     (let (attachments, w1) = attachment_payloads (prod_storage p)
            (case em_Attachments email of None \<Rightarrow> [] | Some atts \<Rightarrow> atts) w
      in (\<lparr>wp_Event = ''email.received'', wp_Timestamp = clock w1, wp_AccountID = em_AccountID email,
           wp_Email = \<lparr>ep_ID = em_ID email, ep_UID = em_UID email, ep_MessageID = em_MessageID email,
             ep_Date = em_Date email,
             ep_From = \<lparr>ea_Name = em_FromName email, ea_Email = em_FromEmail email\<rparr>,
             ep_To = em_To email, ep_CC = em_CC email, ep_Subject = em_Subject email,
             ep_Parsed = \<lparr>pc_Text = em_ParsedText email, pc_HTML = em_ParsedHTML email\<rparr>,
             ep_Raw = em_Raw email, ep_Attachments = attachments, ep_Flags = em_Flags email,
             ep_Folder = em_Folder email\<rparr>\<rparr>, w1))"

section \<open>Queueing\<close>

text \<open>One row per webhook; an insertion that fails is logged and the loop goes on. The number is
  \<open>queuedCount\<close>.\<close>

fun queue_rows :: "webhook list \<Rightarrow> uuid \<Rightarrow> string \<Rightarrow> world \<Rightarrow> nat \<times> world" where
  "queue_rows [] eid payload w = (0, w)"
| "queue_rows (wh # whs) eid payload w =
     (case CreateWebhookQueueItem (wh_ID wh) eid payload w of
        (Inl _, w1) \<Rightarrow> queue_rows whs eid payload w1
      | (Inr _, w1) \<Rightarrow> (let (n, w2) = queue_rows whs eid payload w1 in (Suc n, w2)))"

definition QueueForEmail :: "Producer \<Rightarrow> email \<Rightarrow> unit io" where
  "QueueForEmail p email =
     check (GetForAccount (prod_ext p) (prod_key p) (em_AccountID email))
       (Errorf_w ''getting webhooks for account'')
       (\<lambda>webhooks w.
          if webhooks = [] then (Inr (), w)
          else
            (let (payload, w1) = buildPayload p email w
             in case prod_marshal p payload of
                  Inl e \<Rightarrow> (Inl (Errorf_w ''marshaling payload'' e), w1)
                | Inr payloadBytes \<Rightarrow>
                    (let (queuedCount, w2) = queue_rows webhooks (em_ID email) payloadBytes w1
                     in if queuedCount = 0
                        then (Inl (errors_New Other (''failed to queue all ''
                               @ Itoa (int (length webhooks)) @ '' webhooks for email ''
                               @ x_uuid_String (prod_ext p) (em_ID email))), w2)
                        else (Inr (), w2))))"

text \<open>The handler that the coordinator calls: an error is logged.\<close>

definition producer_EventHandler :: "Producer \<Rightarrow> email \<Rightarrow> world \<Rightarrow> world" where
  "producer_EventHandler p email w = snd (QueueForEmail p email w)"

section \<open>What queueing keeps\<close>

lemma keeps_downloads [inv_intros]:
  "keeps (winv I) (Download s k)" "keeps (winv I) (GeneratePresignedURL s k t)"
proof -
  have call_id: "keeps (winv I) (call q)" if "\<And>w. snd (q w) = w" for q :: "string io"
    by (rule keeps_winv_call) (simp add: that)
  show "keeps (winv I) (GeneratePresignedURL s k t)"
    unfolding GeneratePresignedURL_def by (intro inv_intros call_id) simp
  show "keeps (winv I) (Download s k)"
    unfolding Download_def s3_GetObject_def
    by (intro inv_intros call_id) (auto split: option.splits)
qed

lemma winv_attachment_payload: "winv I w \<Longrightarrow> winv I (snd (attachment_payload s att w))"
proof -
  assume w: "winv I w"
  have url: "winv I v \<Longrightarrow> winv I (snd (attachment_url s att p v))" for p v
    using keeps_winvD [OF keeps_downloads(2), of I v s "att_S3Key att" PresignedURLExpiry]
    by (auto simp: attachment_url_def split: prod.splits sum.splits)
  have "winv I (snd (Download s (att_S3Key att) w))" by (intro keeps_winvD [OF _ w] keeps_downloads)
  then show ?thesis
    using url w by (auto simp: attachment_payload_def Let_def split: prod.splits sum.splits)
qed

lemma winv_attachment_payloads: "winv I w \<Longrightarrow> winv I (snd (attachment_payloads s atts w))"
proof (induction atts arbitrary: w)
  case (Cons att atts)
  then show ?case using winv_attachment_payload [of I w s att]
    by (auto simp: Let_def case_prod_beta split: option.splits)
qed simp

context insert_invariant
begin

lemma winv_queue_rows: "winv I w \<Longrightarrow> winv I (snd (queue_rows whs eid payload w))"
proof (induction whs arbitrary: w)
  case (Cons wh whs)
  have "winv I (snd (CreateWebhookQueueItem (wh_ID wh) eid payload w))"
    by (intro keeps_winvD [OF _ Cons.prems] keeps_inserts)
  with Cons.IH show ?case by (auto simp: Let_def case_prod_beta split: prod.splits sum.splits)
qed simp

lemma keeps_QueueForEmail: "keeps (winv I) (QueueForEmail p email)"
  unfolding QueueForEmail_def
proof (intro keeps_check keeps_repository_reads keepsI)
  fix webhooks w assume "winv I w"
  then have "winv I (snd (buildPayload p email w))"
    by (simp add: buildPayload_def Let_def case_prod_beta winv_attachment_payloads)
  then show "winv I (snd (if webhooks = [] then (Inr (), w)
          else
            (let (payload, w1) = buildPayload p email w
             in case prod_marshal p payload of
                  Inl e \<Rightarrow> (Inl (Errorf_w ''marshaling payload'' e), w1)
                | Inr payloadBytes \<Rightarrow>
                    (let (queuedCount, w2) = queue_rows webhooks (em_ID email) payloadBytes w1
                     in if queuedCount = 0
                        then (Inl (errors_New Other (''failed to queue all ''
                               @ Itoa (int (length webhooks)) @ '' webhooks for email ''
                               @ x_uuid_String (prod_ext p) (em_ID email))), w2)
                        else (Inr (), w2)))))"
    using \<open>winv I w\<close>
    by (auto simp: Let_def case_prod_beta winv_queue_rows split: sum.splits)
qed

end

section \<open>The payload\<close>

lemma reads_downloads: "reads (Download s k)" "reads (GeneratePresignedURL s k t)"
proof -
  have get: "reads (s3_GetObject k)"
    unfolding s3_GetObject_def by (rule reads_call) (auto split: option.splits)
  have call_ok: "reads (call (ok b))" for b :: string by (rule reads_call) simp_all
  have sign: "reads (call (\<lambda>w. (s3_presign s (s3_bucket s) k t, w)))" by (rule reads_call) simp_all
  show "reads (Download s k)" unfolding Download_def by (intro reads_check get call_ok reads_ret)
  show "reads (GeneratePresignedURL s k t)"
    unfolding GeneratePresignedURL_def by (intro reads_check sign reads_ret)
qed

text \<open>What a delivered attachment entry may be: the object's bytes in base64 if the attachment is
  small, or a presigned URL, and never both.\<close>

definition payload_of :: "S3Storage \<Rightarrow> objects \<Rightarrow> attachment \<Rightarrow> AttachmentPayload \<Rightarrow> bool" where
  "payload_of s obs att q \<longleftrightarrow>
     ap_Filename q = att_Filename att \<and> ap_ContentType q = att_ContentType att \<and> ap_Size q = att_Size att
     \<and> ((ap_URL q = [] \<and> att_Size att < InlineAttachmentThreshold
           \<and> obs (att_S3Key att) \<noteq> None \<and> base64_Decode (ap_Data q) = obs (att_S3Key att))
        \<or> (ap_Data q = []
           \<and> s3_presign s (s3_bucket s) (att_S3Key att) PresignedURLExpiry = Inr (ap_URL q)))"

lemma Download_object:
  assumes "faults n w" and "Download s k w = (Inr data, w1)"
  shows "objects w k = Some data"
proof -
  have "Download s k (no_script w) = (Inr data, no_script w1)"
    using readsD(3) [OF reads_downloads(1) assms] .
  then show ?thesis
    by (auto simp: Download_def check_def s3_GetObject_def call_healthy no_script_def split: option.splits)
qed

lemma Presign_url:
  assumes "faults n w" and "GeneratePresignedURL s k t w = (Inr u, w1)"
  shows "s3_presign s (s3_bucket s) k t = Inr u"
proof -
  have "GeneratePresignedURL s k t (no_script w) = (Inr u, no_script w1)"
    using readsD(3) [OF reads_downloads(2) assms] .
  then show ?thesis
    by (auto simp: GeneratePresignedURL_def check_def call_healthy no_script_def split: sum.splits)
qed

lemma Presign_healthy:
  "faults 0 w \<Longrightarrow> s3_presign s (s3_bucket s) k t = Inr u \<Longrightarrow>
   GeneratePresignedURL s k t w = (Inr u, next_call w)"
  by (simp add: GeneratePresignedURL_def check_def call_no_fault)

lemma attachment_url_faults:
  assumes "faults n w" and "attachment_url s att q w = (r, w1)"
  shows "same_tables w w1 \<and> objects w1 = objects w \<and> faults n w1
    \<and> (\<forall>q1. r = Some q1 \<longrightarrow> (\<exists>u. q1 = q\<lparr>ap_URL := u\<rparr>
          \<and> s3_presign s (s3_bucket s) (att_S3Key att) PresignedURLExpiry = Inr u))
    \<and> (n = 0 \<and> (\<exists>u. s3_presign s (s3_bucket s) (att_S3Key att) PresignedURLExpiry = Inr u) \<longrightarrow> r \<noteq> None)"
proof -
  obtain r0 w0 where g: "GeneratePresignedURL s (att_S3Key att) PresignedURLExpiry w = (r0, w0)" by fastforce
  note rd = readsD(1,2) [OF reads_downloads(2) assms(1) g]
  show ?thesis
  proof (cases r0)
    case (Inl e)
    with g assms rd show ?thesis
      by (auto simp: attachment_url_def Presign_healthy)
  next
    case (Inr u)
    with g assms rd Presign_url [OF assms(1) g [unfolded Inr]] show ?thesis
      by (auto simp: attachment_url_def)
  qed
qed

lemma attachment_payload_faults:
  assumes "faults n w" and "attachment_payload s att w = (r, w1)"
  shows "same_tables w w1 \<and> objects w1 = objects w \<and> faults n w1
    \<and> (\<forall>q. r = Some q \<longrightarrow> payload_of s (objects w) att q)
    \<and> (n = 0 \<and> (\<exists>u. s3_presign s (s3_bucket s) (att_S3Key att) PresignedURLExpiry = Inr u) \<longrightarrow> r \<noteq> None)"
proof -
  define q0 where "q0 = \<lparr>ap_Filename = att_Filename att, ap_ContentType = att_ContentType att,
    ap_Size = att_Size att, ap_URL = [], ap_Data = []\<rparr>"
  have url: "same_tables w w1 \<and> objects w1 = objects w \<and> faults n w1
      \<and> (\<forall>q. r = Some q \<longrightarrow> payload_of s (objects w) att q)
      \<and> (n = 0 \<and> (\<exists>u. s3_presign s (s3_bucket s) (att_S3Key att) PresignedURLExpiry = Inr u) \<longrightarrow> r \<noteq> None)"
    if v: "faults n v" "same_tables w v" "objects v = objects w" "attachment_url s att q0 v = (r, w1)" for v
    using attachment_url_faults [OF v(1,4)] v(2,3)
    by (auto simp: payload_of_def q0_def intro: same_tables_trans)
  show ?thesis
  proof (cases "att_Size att < InlineAttachmentThreshold")
    case False
    with assms show ?thesis
      by (intro url [of w]) (auto simp: attachment_payload_def q0_def same_tables_def Let_def)
  next
    case True
    obtain r0 w0 where g: "Download s (att_S3Key att) w = (r0, w0)" by fastforce
    note rd = readsD(1,2) [OF reads_downloads(1) assms(1) g]
    show ?thesis
    proof (cases r0)
      case (Inl e)
      with True g assms(2) rd show ?thesis
        by (intro url [of w0]) (auto simp: attachment_payload_def q0_def Let_def)
    next
      case (Inr data)
      have "objects w (att_S3Key att) = Some data" using Download_object [OF assms(1) g [unfolded Inr]] .
      with True g Inr assms(2) rd show ?thesis
        by (auto simp: attachment_payload_def payload_of_def base64_roundtrip Let_def)
    qed
  qed
qed

lemma attachment_payloads_faults:
  assumes "faults n w" and "attachment_payloads s atts w = (qs, w1)"
  shows "same_tables w w1 \<and> objects w1 = objects w \<and> faults n w1
    \<and> (\<exists>sel. subseq sel atts \<and> list_all2 (payload_of s (objects w)) sel qs
         \<and> (n = 0 \<and> (\<forall>att\<in>set atts. \<exists>u. s3_presign s (s3_bucket s) (att_S3Key att) PresignedURLExpiry = Inr u)
              \<longrightarrow> sel = atts))"
  using assms
proof (induction atts arbitrary: w qs)
  case Nil
  then show ?case by (auto simp: same_tables_def)
next
  case (Cons att atts)
  obtain r v where a: "attachment_payload s att w = (r, v)" by fastforce
  obtain qs' where b: "attachment_payloads s atts v = (qs', w1)"
    using Cons.prems(2) a by (cases "attachment_payloads s atts v") (auto simp: Let_def)
  note p = attachment_payload_faults [OF Cons.prems(1) a]
  have v: "faults n v" "objects v = objects w" "same_tables w v" using p by blast+
  from Cons.IH [OF v(1) b] v(2) obtain sel where
    ih: "same_tables v w1" "objects w1 = objects w" "faults n w1" "subseq sel atts"
    "list_all2 (payload_of s (objects w)) sel qs'"
    "n = 0 \<and> (\<forall>att\<in>set atts. \<exists>u. s3_presign s (s3_bucket s) (att_S3Key att) PresignedURLExpiry = Inr u)
              \<longrightarrow> sel = atts" by auto
  have st: "same_tables w w1" using same_tables_trans [OF v(3) ih(1)] .
  show ?case
  proof (cases r)
    case None
    with Cons.prems(2) a b have "qs = qs'" by (simp add: Let_def)
    with p None ih st show ?thesis by (intro conjI exI [of _ sel]) auto
  next
    case (Some q)
    with Cons.prems(2) a b have "qs = q # qs'" by (simp add: Let_def)
    with p Some ih st show ?thesis by (intro conjI exI [of _ "att # sel"]) auto
  qed
qed

text \<open>C11: the attachment entries of a payload follow the email's attachments in order; each is either the
  object's bytes in base64 (only below 1 MiB) or a presigned URL, and never both. An attachment is
  missing only when its URL could not be signed or a call failed.\<close>

theorem payload_attachments:
  assumes "faults n w" and "em_Attachments email = Some atts" and "buildPayload p email w = (payload, w1)"
  shows "\<exists>sel. subseq sel atts
    \<and> list_all2 (payload_of (prod_storage p) (objects w)) sel (ep_Attachments (wp_Email payload))
    \<and> (n = 0 \<and> (\<forall>att\<in>set atts. \<exists>u. s3_presign (prod_storage p) (s3_bucket (prod_storage p))
                     (att_S3Key att) PresignedURLExpiry = Inr u) \<longrightarrow> sel = atts)
    \<and> db w1 = db w \<and> objects w1 = objects w"
proof -
  obtain qs v where a: "attachment_payloads (prod_storage p) atts w = (qs, v)" by fastforce
  have "w1 = v" "ep_Attachments (wp_Email payload) = qs"
    using assms(2,3) a by (auto simp: buildPayload_def)
  with attachment_payloads_faults [OF assms(1) a] show ?thesis by (auto simp: same_tables_def)
qed

section \<open>The queue\<close>

definition queued_row :: "uuid \<Rightarrow> string \<Rightarrow> time \<Rightarrow> webhook \<Rightarrow> queue_row \<Rightarrow> bool" where
  "queued_row eid payload now wh r \<longleftrightarrow>
     dbQ_WebhookID r = wh_ID wh \<and> dbQ_EmailID r = eid \<and> dbQ_Payload r = payload
     \<and> dbQ_Attempts r = Some 0 \<and> dbQ_NextAttempt r = Some now \<and> dbQ_Status r = ''pending''
     \<and> dbQ_CreatedAt r = now"

text \<open>The identifiers that the database will draw are new and differ.\<close>

definition fresh_ids :: "world \<Rightarrow> uuid set \<Rightarrow> bool" where
  "fresh_ids w used \<longleftrightarrow>
     (\<forall>k\<ge>draws w. uuid_gen w k \<notin> used) \<and> (\<forall>j\<ge>draws w. \<forall>k\<ge>draws w. uuid_gen w j = uuid_gen w k \<longrightarrow> j = k)"

definition only_queue :: "world \<Rightarrow> world \<Rightarrow> bool" where
  "only_queue w w' \<longleftrightarrow> (\<exists>q. db w' = (db w)\<lparr>tQueue := q\<rparr>) \<and> objects w' = objects w
     \<and> clock w' = clock w \<and> uuid_gen w' = uuid_gen w"

lemma only_queue_trans: "only_queue w w1 \<Longrightarrow> only_queue w1 w2 \<Longrightarrow> only_queue w w2"
  by (auto simp: only_queue_def)

lemma only_queue_refl [simp]: "only_queue w w"
  by (auto simp: only_queue_def intro: exI [of _ "tQueue (db w)"])

lemma only_queue_same: "same_tables w w' \<Longrightarrow> objects w' = objects w \<Longrightarrow> only_queue w w'"
  by (auto simp: only_queue_def same_tables_def intro: exI [of _ "tQueue (db w)"])

lemma only_queue_tables:
  assumes "only_queue w w1"
  shows "tWebhooks (db w1) = tWebhooks (db w)" "tEmails (db w1) = tEmails (db w)" "clock w1 = clock w"
  using assms by (auto simp: only_queue_def)

lemma queue_item_faults:
  assumes "faults n w" and "CreateWebhookQueueItem wid eid payload w = (r, w1)"
  shows "faults n w1 \<and> only_queue w w1
    \<and> (case r of
         Inl _ \<Rightarrow> tQueue (db w1) = tQueue (db w)
       | Inr row \<Rightarrow> tQueue (db w1) = tQueue (db w) @ [row] \<and> dbQ_ID row = uuid_gen w (draws w)
           \<and> draws w1 = Suc (draws w)
           \<and> (\<forall>wh. wh_ID wh = wid \<longrightarrow> queued_row eid payload (pg_micros (clock w)) wh row))
    \<and> (n = 0 \<and> uuid_gen w (draws w) \<notin> dbQ_ID ` set (tQueue (db w)) \<and> wid \<in> dbW_ID ` set (tWebhooks (db w))
         \<and> eid \<in> dbE_ID ` set (tEmails (db w)) \<longrightarrow> (\<exists>row. r = Inr row))"
proof -
  let ?q = "\<lambda>w. let (r, d) = sql_create_webhook_queue_item wid eid payload (uuid_gen w (draws w))
      (pg_micros (clock w)) (db w) in (r, w\<lparr>db := d, draws := Suc (draws w)\<rparr>)"
  have run: "call ?q w = (r, w1)" using assms(2) by (simp add: CreateWebhookQueueItem_def exec_new_def)
  from call_faults [OF assms(1), of ?q] run show ?thesis
  proof (elim disjE exE conjE)
    assume "call ?q w = ?q (next_call w)"
    with run have "(r, w1) = ?q (next_call w)" by simp
    moreover have "faults n (next_call w\<lparr>db := d, draws := k\<rparr>)" for d k
      using faults_next [OF assms(1)] by (rule faults_script_eq) simp
    ultimately show ?thesis
      by (auto simp: sql_create_webhook_queue_item_def Let_def only_queue_def queued_row_def
          intro: exI [of _ "tQueue (db w)"] split: if_splits)
  next
    fix e assume "call ?q w = (Inl e, next_call w)" "n \<noteq> 0"
    with run show ?thesis
      using faults_next [OF assms(1)]
      by (auto simp: only_queue_def intro: exI [of _ "tQueue (db w)"])
  qed
qed

lemma fresh_ids_Suc:
  assumes "fresh_ids w used" and "uuid_gen w1 = uuid_gen w" and "draws w1 = Suc (draws w)"
  shows "fresh_ids w1 (insert (uuid_gen w (draws w)) used)"
  using assms unfolding fresh_ids_def
  by (auto simp: Suc_le_eq) (metis less_imp_le_nat nat_neq_iff order_refl)

lemma queue_rows_faults:
  assumes "faults n w" and "queue_rows whs eid payload w = (c, w1)"
  shows "only_queue w w1
    \<and> (\<exists>sel rows. subseq sel whs \<and> tQueue (db w1) = tQueue (db w) @ rows \<and> c = length rows
         \<and> list_all2 (queued_row eid payload (pg_micros (clock w))) sel rows
         \<and> (n = 0 \<and> fresh_ids w (dbQ_ID ` set (tQueue (db w))) \<and> wh_ID ` set whs \<subseteq> dbW_ID ` set (tWebhooks (db w))
              \<and> eid \<in> dbE_ID ` set (tEmails (db w)) \<longrightarrow> sel = whs))"
  using assms
proof (induction whs arbitrary: w c)
  case Nil
  then show ?case by simp
next
  case (Cons wh whs)
  obtain r v where a: "CreateWebhookQueueItem (wh_ID wh) eid payload w = (r, v)" by fastforce
  obtain c' where b: "queue_rows whs eid payload v = (c', w1)"
    and c: "c = (case r of Inl _ \<Rightarrow> c' | Inr _ \<Rightarrow> Suc c')"
    using Cons.prems(2) a by (cases r; cases "queue_rows whs eid payload v") (auto simp: Let_def)
  note q = queue_item_faults [OF Cons.prems(1) a]
  have v: "faults n v" "only_queue w v" using q by blast+
  from Cons.IH [OF v(1) b, unfolded only_queue_tables [OF v(2)]] obtain sel rows where
    ih: "only_queue v w1" "subseq sel whs" "tQueue (db w1) = tQueue (db v) @ rows" "c' = length rows"
    "list_all2 (queued_row eid payload (pg_micros (clock w))) sel rows"
    "n = 0 \<and> fresh_ids v (dbQ_ID ` set (tQueue (db v))) \<and> wh_ID ` set whs \<subseteq> dbW_ID ` set (tWebhooks (db w))
       \<and> eid \<in> dbE_ID ` set (tEmails (db w)) \<longrightarrow> sel = whs"
    by blast
  have oq: "only_queue w w1" using only_queue_trans [OF v(2) ih(1)] .
  show ?case
  proof (cases r)
    case (Inl e)
    have "\<not> (n = 0 \<and> fresh_ids w (dbQ_ID ` set (tQueue (db w))) \<and> wh_ID ` set (wh # whs) \<subseteq> dbW_ID ` set (tWebhooks (db w))
              \<and> eid \<in> dbE_ID ` set (tEmails (db w)))"
      using q Inl by (auto simp: fresh_ids_def)
    then show ?thesis
      using q ih oq c Inl
      by (intro conjI exI [of _ sel] exI [of _ rows]) auto
  next
    case (Inr row)
    have "fresh_ids v (dbQ_ID ` set (tQueue (db v)))" if "fresh_ids w (dbQ_ID ` set (tQueue (db w)))"
      using fresh_ids_Suc [OF that, of v] q Inr by (auto simp: only_queue_def)
    then show ?thesis
      using q ih oq c Inr
      by (intro conjI exI [of _ "wh # sel"] exI [of _ "row # rows"]) auto
  qed
qed

lemma GetForAccount_db:
  "faults n w \<Longrightarrow> GetForAccount x key acc w = (r, w1) \<Longrightarrow> only_queue w w1 \<and> db w1 = db w \<and> faults n w1
     \<and> draws w1 = draws w
     \<and> (n = 0 \<or> (\<exists>whs. r = Inr whs) \<longrightarrow> GetForAccount x key acc (no_script w) = (r, no_script w1))"
proof -
  have rd: "reads (GetForAccount x key acc)"
    unfolding GetForAccount_def GetWebhooksForAccount_def
    by (intro reads_check reads_exec reads_ret) (simp add: selects)
  assume f: "faults n w" and g: "GetForAccount x key acc w = (r, w1)"
  show ?thesis
    using readsD(1,2) [OF rd f g] readsD(3) [OF rd f] readsD(4) [OF rd _ g] f g
    by (auto simp: only_queue_same) (simp_all add: same_tables_def)
qed

lemma GetForAccount_rows:
  assumes "GetForAccount x key acc (no_script w) = (Inr whs, w1)" and "wh \<in> set whs"
  obtains row where "row \<in> set (tWebhooks (db w))" and "dbW_AccountID row = acc" and "toWebhook x key row = Inr wh"
    and "wh_ID wh = dbW_ID row" and "wh_AccountID wh = acc"
proof -
  have "\<exists>rows. set rows = {r \<in> set (tWebhooks (db w)). dbW_AccountID r = acc}
      \<and> convert_rows (toWebhook x key) listing_webhook rows = Inr whs"
    using assms(1)
    by (intro exI [of _ "order_desc (\<lambda>r. Some (dbW_CreatedAt r)) (filter (\<lambda>r. dbW_AccountID r = acc) (tWebhooks (db w)))"])
      (auto simp: GetForAccount_def check_def GetWebhooksForAccount_def exec_healthy no_script_def
        sql_get_webhooks_for_account_def)
  then obtain rows where rows: "set rows = {r \<in> set (tWebhooks (db w)). dbW_AccountID r = acc}"
    and conv: "list_all2 (\<lambda>r x'. toWebhook x key r = Inr x') rows whs"
    using convert_rows_Inr by blast
  obtain r where r: "r \<in> set rows" "toWebhook x key r = Inr wh"
    using list_all2_partner [OF conv assms(2)] by blast
  then have "wh_ID wh = dbW_ID r" "wh_AccountID wh = dbW_AccountID r"
    by (auto simp: toWebhook_def split: sum.splits)
  with that r rows show thesis by auto
qed

lemma GetForAccount_ids:
  assumes "GetForAccount x key acc (no_script w) = (Inr whs, w1)"
  shows "wh_ID ` set whs \<subseteq> dbW_ID ` set (tWebhooks (db w)) \<and> (\<forall>wh\<in>set whs. wh_AccountID wh = acc)"
  using GetForAccount_rows [OF assms] by blast

text \<open>What a call leaves behind, given the account's webhooks \<open>whs\<close>: rows for some of them, in order.\<close>

definition queued ::
  "Producer \<Rightarrow> email \<Rightarrow> webhook list \<Rightarrow> nat \<Rightarrow> world \<Rightarrow> unit res \<Rightarrow> world \<Rightarrow> bool" where
  "queued p email whs n w r w' \<longleftrightarrow>
     (\<exists>sel rows payload. subseq sel whs \<and> db w' = (db w)\<lparr>tQueue := tQueue (db w) @ rows\<rparr> \<and> objects w' = objects w
      \<and> list_all2 (queued_row (em_ID email) payload (pg_micros (clock w))) sel rows
      \<and> (whs \<noteq> [] \<longrightarrow> (r = Inr () \<longleftrightarrow> rows \<noteq> []))
      \<and> (n = 0 \<and> fresh_ids w (dbQ_ID ` set (tQueue (db w))) \<and> em_ID email \<in> dbE_ID ` set (tEmails (db w))
          \<and> (\<forall>pl. \<exists>b. prod_marshal p pl = Inr b) \<longrightarrow> sel = whs \<and> r = Inr ()))"

lemma queued_nothing:
  assumes "db w' = db w" and "objects w' = objects w" and "\<exists>e. r = Inl e"
    and "n \<noteq> 0 \<or> \<not> (\<forall>pl. \<exists>b. prod_marshal p pl = Inr b)"
  shows "queued p email whs n w r w'"
  unfolding queued_def using assms by (intro exI [of _ "[]"] exI [of _ "[]"] exI [of _ "[]"]) auto

lemma queued_no_webhooks: "db w' = db w \<Longrightarrow> objects w' = objects w \<Longrightarrow> queued p email [] n w (Inr ()) w'"
  unfolding queued_def by (intro exI [of _ "[]"] exI [of _ "[]"] exI [of _ "[]"]) auto

lemma buildPayload_faults:
  assumes "faults n w" and "buildPayload p email w = (payload, w1)"
  shows "same_tables w w1 \<and> objects w1 = objects w \<and> faults n w1"
proof -
  obtain qs v where a: "attachment_payloads (prod_storage p)
      (case em_Attachments email of None \<Rightarrow> [] | Some atts \<Rightarrow> atts) w = (qs, v)" by fastforce
  with assms(2) have "w1 = v" by (simp add: buildPayload_def)
  with attachment_payloads_faults [OF assms(1) a] show ?thesis by blast
qed

lemma queued_rows:
  assumes f: "faults n w2" and whs: "whs \<noteq> []" "wh_ID ` set whs \<subseteq> dbW_ID ` set (tWebhooks (db w))"
    and q: "queue_rows whs (em_ID email) bytes w2 = (c, w3)" and r: "r = Inr () \<longleftrightarrow> c \<noteq> 0"
    and eqs: "db w2 = db w" "clock w2 = clock w" "objects w2 = objects w" "uuid_gen w2 = uuid_gen w" "draws w2 = draws w"
  shows "queued p email whs n w r w3"
proof -
  from queue_rows_faults [OF f q] obtain sel rows where
    oq: "only_queue w2 w3" "subseq sel whs" "tQueue (db w3) = tQueue (db w2) @ rows" "c = length rows"
    "list_all2 (queued_row (em_ID email) bytes (pg_micros (clock w2))) sel rows"
    "n = 0 \<and> fresh_ids w2 (dbQ_ID ` set (tQueue (db w2))) \<and> wh_ID ` set whs \<subseteq> dbW_ID ` set (tWebhooks (db w2))
        \<and> em_ID email \<in> dbE_ID ` set (tEmails (db w2)) \<longrightarrow> sel = whs" by blast
  have db3: "db w3 = (db w)\<lparr>tQueue := tQueue (db w) @ rows\<rparr>" "objects w3 = objects w"
    using oq(1,3) eqs by (auto simp: only_queue_def)
  have fr: "fresh_ids w2 used = fresh_ids w used" for used by (simp add: fresh_ids_def eqs)
  have "length sel = length rows" using oq(5) list_all2_lengthD by blast
  then show ?thesis
    unfolding queued_def using oq db3 whs r fr eqs
    by (intro exI [of _ sel] exI [of _ rows] exI [of _ bytes]) auto
qed

text \<open>C10: \<open>QueueForEmail\<close> adds to the queue, for webhooks of the email's account, one pending row
  each that is due at once, and changes nothing else. It returns an error exactly when it queued
  nothing although a webhook is registered; when no call fails every webhook gets its row.\<close>

theorem queue_for_email:
  assumes f: "faults n w"
    and whs: "GetForAccount (prod_ext p) (prod_key p) (em_AccountID email) (no_script w) = (Inr whs, w0)"
    and run: "QueueForEmail p email w = (r, w')"
  shows "\<exists>sel rows payload. subseq sel whs \<and> (\<forall>wh\<in>set whs. wh_AccountID wh = em_AccountID email)
    \<and> db w' = (db w)\<lparr>tQueue := tQueue (db w) @ rows\<rparr> \<and> objects w' = objects w
    \<and> list_all2 (queued_row (em_ID email) payload (pg_micros (clock w))) sel rows
    \<and> (whs \<noteq> [] \<longrightarrow> (r = Inr () \<longleftrightarrow> rows \<noteq> []))
    \<and> (n = 0 \<and> fresh_ids w (dbQ_ID ` set (tQueue (db w))) \<and> em_ID email \<in> dbE_ID ` set (tEmails (db w))
        \<and> (\<forall>pl. \<exists>b. prod_marshal p pl = Inr b) \<longrightarrow> sel = whs \<and> r = Inr ())"
proof -
  let ?get = "GetForAccount (prod_ext p) (prod_key p) (em_AccountID email)"
  note ids = GetForAccount_ids [OF whs]
  obtain r1 w1 where g: "?get w = (r1, w1)" by fastforce
  have g': "same_tables w w1" "objects w1 = objects w" "faults n w1" "n = 0 \<Longrightarrow> r1 = Inr whs"
    "\<And>xs. r1 = Inr xs \<Longrightarrow> xs = whs"
    using GetForAccount_db [OF f g] whs by (auto simp: only_queue_def same_tables_def)
  have "queued p email whs n w r w'"
  proof (cases r1)
    case (Inl e)
    with g run have "w' = w1" "\<exists>e. r = Inl e" by (auto simp: QueueForEmail_def check_def)
    with Inl g' show ?thesis by (intro queued_nothing) (auto simp: same_tables_def)
  next
    case (Inr whs')
    then have [simp]: "whs' = whs" using g'(5) by simp
    obtain payload w2 where b: "buildPayload p email w1 = (payload, w2)" by fastforce
    have w2: "same_tables w1 w2 \<and> objects w2 = objects w1 \<and> faults n w2" by (rule buildPayload_faults [OF g'(3) b])
    show ?thesis
    proof (cases "prod_marshal p payload")
      case marshal: (Inl e)
      with run g Inr b have "whs = [] \<and> r = Inr () \<and> w' = w1 \<or> whs \<noteq> [] \<and> w' = w2 \<and> (\<exists>e. r = Inl e)"
        by (auto simp: QueueForEmail_def check_def split: if_splits)
      moreover have "\<not> (\<forall>pl. \<exists>b. prod_marshal p pl = Inr b)" using marshal by (metis Inl_Inr_False)
      ultimately show ?thesis using g' w2
        by (elim disjE conjE) (auto simp: same_tables_def intro: queued_no_webhooks queued_nothing)
    next
      case bytes: (Inr bytes)
      obtain c w3 where q: "queue_rows whs (em_ID email) bytes w2 = (c, w3)" by fastforce
      show ?thesis
      proof (cases "whs = []")
        case True
        with run g Inr g' show ?thesis
          by (auto simp: QueueForEmail_def check_def same_tables_def intro: queued_no_webhooks)
      next
        case False
        with run g b q Inr bytes have "w' = w3" "r = Inr () \<longleftrightarrow> c \<noteq> 0"
          by (auto simp: QueueForEmail_def check_def split: if_splits)
        with queued_rows [OF conjunct2 [OF conjunct2 [OF w2]] False conjunct1 [OF ids] q] g' w2
        show ?thesis by (simp add: same_tables_def)
      qed
    qed
  qed
  with ids show ?thesis unfolding queued_def by blast
qed

section \<open>A concrete run\<close>

definition demo_webhook_row :: webhook_row where
  "demo_webhook_row = \<lparr>dbW_ID = 20, dbW_AccountID = 1, dbW_Url = ''http://hook'',
     dbW_Secret = base64_Encode (replicate 12 (CHR ''n'') @ demo_key @ ''s''), dbW_CreatedAt = 0\<rparr>"

definition demo_webhook :: webhook where
  "demo_webhook = \<lparr>wh_ID = 20, wh_AccountID = 1, wh_URL = ''http://hook'', wh_Secret = ''s'', wh_CreatedAt = 0\<rparr>"

definition demo_email :: email where
  "demo_email = \<lparr>em_ID = 10, em_AccountID = 1, em_UID = 10, em_MessageID = [], em_Folder = ''INBOX'',
     em_Subject = [], em_FromEmail = [], em_FromName = [], em_To = [], em_CC = [], em_Date = 0,
     em_ParsedText = [], em_ParsedHTML = [], em_Raw = [], em_Flags = [], em_DeletedUpstream = False,
     em_CreatedAt = 0, em_Attachments = Some
       [\<lparr>att_ID = 30, att_EmailID = 10, att_Filename = ''a.txt'', att_ContentType = ''text/plain'',
         att_Size = 4, att_S3Key = ''k''\<rparr>]\<rparr>"

definition demo_producer :: Producer where
  "demo_producer = \<lparr>prod_ext = demo_externals, prod_key = demo_key,
     prod_storage = \<lparr>s3_presign = (\<lambda>b k t. Inr k), s3_bucket = ''b'', s3_endpoint = ''http://s3''\<rparr>,
     prod_marshal = (\<lambda>_. Inr ''{}'')\<rparr>"

definition demo_hooked :: world where
  "demo_hooked = (demo_world (demo_mails\<lparr>tWebhooks := [demo_webhook_row]\<rparr>))\<lparr>objects := [''k'' \<mapsto> ''data'']\<rparr>"

lemma demo_toWebhook: "toWebhook demo_externals demo_key demo_webhook_row = Inr demo_webhook"
proof -
  have "Decrypt demo_externals (dbW_Secret demo_webhook_row) demo_key = Inr ''s''"
    unfolding demo_webhook_row_def webhook_row.select_convs
    by (simp add: Decrypt_def base64_roundtrip gcm_nonce_size_def demo_key_def demo_externals_def)
  then show ?thesis
    by (simp add: toWebhook_def) (simp add: demo_webhook_row_def demo_webhook_def)
qed

lemma demo_GetForAccount:
  "GetForAccount (prod_ext demo_producer) (prod_key demo_producer) (em_AccountID demo_email) (no_script demo_hooked)
     = (Inr [demo_webhook], demo_hooked)"
proof -
  have "dbW_AccountID demo_webhook_row = 1" by (simp add: demo_webhook_row_def)
  then show ?thesis
    by (simp add: GetForAccount_def check_def GetWebhooksForAccount_def exec_healthy no_script_def
        sql_get_webhooks_for_account_def demo_hooked_def demo_world_def demo_mails_def order_desc_def
        demo_producer_def demo_email_def demo_toWebhook)
qed

lemma demo_hooked_faults: "faults 0 demo_hooked"
  by (simp add: faults_def demo_hooked_def)

theorem payload_attachments_witness:
  "\<exists>payload w1 q. buildPayload demo_producer demo_email demo_hooked = (payload, w1)
     \<and> ep_Attachments (wp_Email payload) = [q]
     \<and> payload_of (prod_storage demo_producer) (objects demo_hooked) (hd (the (em_Attachments demo_email))) q"
proof -
  obtain payload w1 where b: "buildPayload demo_producer demo_email demo_hooked = (payload, w1)" by fastforce
  have atts: "em_Attachments demo_email = Some [hd (the (em_Attachments demo_email))]"
    by (simp add: demo_email_def)
  have "\<forall>att\<in>set [hd (the (em_Attachments demo_email))]. \<exists>u. s3_presign (prod_storage demo_producer)
      (s3_bucket (prod_storage demo_producer)) (att_S3Key att) PresignedURLExpiry = Inr u"
    by (simp add: demo_producer_def)
  with payload_attachments [OF demo_hooked_faults atts b] show ?thesis
    using b by (auto simp: list_all2_Cons1)
qed

theorem queue_for_email_witness:
  "\<exists>w' row. QueueForEmail demo_producer demo_email demo_hooked = (Inr (), w')
     \<and> tQueue (db w') = [row] \<and> dbQ_WebhookID row = 20 \<and> dbQ_Status row = ''pending''"
proof -
  obtain r w' where run: "QueueForEmail demo_producer demo_email demo_hooked = (r, w')" by fastforce
  have base: "tQueue (db demo_hooked) = []" "em_ID demo_email \<in> dbE_ID ` set (tEmails (db demo_hooked))"
    "fresh_ids demo_hooked (dbQ_ID ` set (tQueue (db demo_hooked)))"
    "\<forall>pl. \<exists>b. prod_marshal demo_producer pl = Inr b"
    by (simp_all add: demo_hooked_def demo_world_def demo_mails_def demo_db_def empty_db_def demo_row_def
        demo_email_def fresh_ids_def demo_producer_def)
  from queue_for_email [OF demo_hooked_faults demo_GetForAccount run] base
  obtain rows payload where "r = Inr ()" and d: "db w' = (db demo_hooked)\<lparr>tQueue := [] @ rows\<rparr>"
    and l: "list_all2 (queued_row (em_ID demo_email) payload (pg_micros (clock demo_hooked))) [demo_webhook] rows"
    by metis
  moreover from l obtain row where "rows = [row]" "dbQ_WebhookID row = 20" "dbQ_Status row = ''pending''"
    by (auto simp: list_all2_Cons1 queued_row_def demo_webhook_def)
  ultimately show ?thesis using run by auto
qed

end
