(* ===== verification/WebhookRuns.thy ===== *)
theory WebhookRuns
  imports WorkerRefinement WebhookProducer
begin

text \<open>
  Whole runs of the webhook worker: the refinement of the delivery machine over any number of
  ticks, the bound on the attempt counter, the schedule of an endpoint that never answers 2xx, the
  repeated delivery when the outcome is not recorded, and what the signature authenticates.
\<close>

section \<open>The refinement over a run\<close>

definition run_change :: "Worker \<Rightarrow> HttpRequest list \<Rightarrow> queue_row \<Rightarrow> queue_row \<Rightarrow> bool" where
  "run_change wk reqs r r' \<longleftrightarrow> same_delivery r r' \<and> accepted_since wk reqs r r'
     \<and> delivery_steps (wc_MaxRetries (wk_config wk)) (delivery_of r) (delivery_of r')"

lemma run_change_refl: "run_change wk [] r r"
  by (simp add: run_change_def)

lemma run_change_batch:
  assumes "batch_change wk now reqs r r1" and "run_change wk reqs' r1 r2"
  shows "run_change wk (reqs @ reqs') r r2"
  using assms accepted_since_trans same_delivery_trans unfolding run_change_def batch_change_def row_progress_def
  by (meson converse_rtranclp_into_rtranclp)

lemma worker_ready_clock: "worker_ready wk w \<Longrightarrow> worker_ready wk (w\<lparr>clock := t\<rparr>)"
  by (simp add: worker_ready_def no_races_def)

lemma worker_run_change:
  "worker_ready wk w \<Longrightarrow>
     \<exists>g reqs. db (worker_run wk ticks w) = (db w)\<lparr>tQueue := map g (tQueue (db w))\<rparr>
       \<and> http_log (worker_run wk ticks w) = http_log w @ reqs
       \<and> length reqs \<le> length ticks * nat (wc_BatchSize (wk_config wk))
       \<and> (\<forall>r\<in>set (tQueue (db w)). run_change wk reqs r (g r))"
proof (induction wk ticks w rule: worker_run.induct)
  case (1 wk w)
  then show ?case by (intro exI [of _ id] exI [of _ "[]"]) (simp add: run_change_refl)
next
  case (2 wk t stops ticks w)
  define w1 where "w1 = processBatch wk stops (w\<lparr>clock := t\<rparr>)"
  note ready = worker_ready_clock [OF 2(2), of t]
  from processBatch_refine [OF ready, of stops, folded w1_def] obtain g reqs where
    g: "db w1 = (db w)\<lparr>tQueue := map g (tQueue (db w))\<rparr>" "http_log w1 = http_log w @ reqs"
    "length reqs \<le> nat (wc_BatchSize (wk_config wk))"
    "\<And>r. r \<in> set (tQueue (db w)) \<Longrightarrow> batch_change wk t reqs r (g r)" by auto
  from 2(1) [OF worker_ready_batch [OF ready], folded w1_def] obtain g' reqs' where
    g': "db (worker_run wk ticks w1) = (db w1)\<lparr>tQueue := map g' (tQueue (db w1))\<rparr>"
    "http_log (worker_run wk ticks w1) = http_log w1 @ reqs'"
    "length reqs' \<le> length ticks * nat (wc_BatchSize (wk_config wk))"
    "\<And>r. r \<in> set (tQueue (db w1)) \<Longrightarrow> run_change wk reqs' r (g' r)" by blast
  have run: "worker_run wk ((t, stops) # ticks) w = worker_run wk ticks w1" by (simp add: w1_def)
  have "run_change wk (reqs @ reqs') r (g' (g r))" if "r \<in> set (tQueue (db w))" for r
    using run_change_batch [OF g(4) [OF that] g'(4)] that by (simp add: g(1))
  then show ?case
    unfolding run using g(1-3) g'(1-3)
    by (intro exI [of _ "g' \<circ> g"] exI [of _ "reqs @ reqs'"]) simp
qed

text \<open>C1: The worker implements the delivery machine. Over any run without a second writer, and with
  any of its calls refused or their replies lost, the queue keeps its rows in order; each row keeps
  its id, webhook, e-mail and payload; its state moves along the machine's steps, so a
  delivered or failed row is never touched again and the attempts of a pending one only grow and
  stay below the limit; a row becomes delivered only if an endpoint answered 2xx to a request
  carrying its payload during the run; and a run sends at most batch-size requests per tick.\<close>

theorem worker_refines:
  assumes "worker_ready wk w"
  shows "\<exists>g reqs. db (worker_run wk ticks w) = (db w)\<lparr>tQueue := map g (tQueue (db w))\<rparr>
    \<and> http_log (worker_run wk ticks w) = http_log w @ reqs
    \<and> length reqs \<le> length ticks * nat (wc_BatchSize (wk_config wk))
    \<and> (\<forall>r\<in>set (tQueue (db w)). same_delivery r (g r)
         \<and> delivery_steps (wc_MaxRetries (wk_config wk)) (delivery_of r) (delivery_of (g r))
         \<and> (delivery_of r \<in> {Delivered, GaveUp} \<longrightarrow> delivery_of (g r) = delivery_of r)
         \<and> (\<forall>b. delivery_of (g r) = Pending b \<longrightarrow>
              (\<exists>a. delivery_of r = Pending a \<and> a \<le> b \<and> (a < b \<longrightarrow> b < wc_MaxRetries (wk_config wk))))
         \<and> (delivery_of (g r) = Delivered \<and> delivery_of r \<noteq> Delivered \<longrightarrow>
              (\<exists>req\<in>set reqs. accepted wk req \<and> rq_Body req = dbQ_Payload r)))"
proof -
  from worker_run_change [OF assms, of ticks] obtain g reqs where
    g: "db (worker_run wk ticks w) = (db w)\<lparr>tQueue := map g (tQueue (db w))\<rparr>"
    "http_log (worker_run wk ticks w) = http_log w @ reqs"
    "length reqs \<le> length ticks * nat (wc_BatchSize (wk_config wk))"
    "\<And>r. r \<in> set (tQueue (db w)) \<Longrightarrow> run_change wk reqs r (g r)" by blast
  show ?thesis
  proof (intro exI conjI ballI)
    fix r assume "r \<in> set (tQueue (db w))"
    note c = g(4) [OF this, unfolded run_change_def accepted_since_def]
    show "same_delivery r (g r)" using c by blast
    show "delivery_steps (wc_MaxRetries (wk_config wk)) (delivery_of r) (delivery_of (g r))" using c by blast
    then show "delivery_of r \<in> {Delivered, GaveUp} \<longrightarrow> delivery_of (g r) = delivery_of r"
      and "\<forall>b. delivery_of (g r) = Pending b \<longrightarrow>
              (\<exists>a. delivery_of r = Pending a \<and> a \<le> b \<and> (a < b \<longrightarrow> b < wc_MaxRetries (wk_config wk)))"
      using delivery_steps_terminal delivery_steps_Pending by metis+
    show "delivery_of (g r) = Delivered \<and> delivery_of r \<noteq> Delivered \<longrightarrow>
              (\<exists>req\<in>set reqs. accepted wk req \<and> rq_Body req = dbQ_Payload r)" using c by blast
  qed (rule g)+
qed

text \<open>C16: Whatever the calls do, other writers that keep the property included, the worker keeps the
  consistency of the tables, and every queue row's attempt counter stays below its retry limit and
  never negative, so that indexing the backoff schedule cannot panic.\<close>

theorem worker_attempts_bounded:
  assumes "winv (\<lambda>d. db_inv d \<and> attempts_ok (wc_MaxRetries (wk_config wk)) d) w"
    and "valid_limit (wc_MaxRetries (wk_config wk))" and "0 \<le> wc_MaxRetries (wk_config wk)"
    and "r \<in> set (tQueue (db (worker_run wk ticks w)))"
  shows "db_inv (db (worker_run wk ticks w))
    \<and> 0 \<le> item_attempts r \<and> item_attempts r < max 1 (wc_MaxRetries (wk_config wk))"
proof -
  let ?limit = "wc_MaxRetries (wk_config wk)"
  have limit: "int32 ?limit = ?limit" using assms(2,3) by (simp add: valid_limit_def int32_id)
  have w: "winv db_inv w" "winv (attempts_ok (int32 ?limit)) w"
    using assms(1) by (auto simp: winv_def limit)
  have "winv db_inv (worker_run wk ticks w)" by (rule queue_tables.winv_worker_run [OF w(1) refl])
  moreover have "winv (attempts_ok (int32 ?limit)) (worker_run wk ticks w)"
    by (rule attempts.winv_worker_run [OF w(2)]) (simp add: limit)
  ultimately show ?thesis
    using assms(4) unfolding limit by (auto simp: winv_def attempts_ok_def count_ok_def)
qed

section \<open>An endpoint that never accepts\<close>

text \<open>The webhook is found and its secret decrypts, but no request to it is answered 2xx.\<close>

definition webhook_found :: "Worker \<Rightarrow> database \<Rightarrow> uuid \<Rightarrow> webhook \<Rightarrow> bool" where
  "webhook_found wk d i wh \<longleftrightarrow>
     (\<exists>row. filter (\<lambda>r. dbW_ID r = i) (tWebhooks d) = [row] \<and> toWebhook (wk_ext wk) (wk_key wk) row = Inr wh)"

definition never_accepts :: "Worker \<Rightarrow> webhook \<Rightarrow> bool" where
  "never_accepts wk wh \<longleftrightarrow> wk_new_request wk (wh_URL wh) = Inr ()
     \<and> (\<forall>req. rq_URL req = wh_URL wh \<longrightarrow> \<not> accepted wk req
          \<and> (\<forall>e. wk_endpoint wk req = Inl e \<longrightarrow> \<not> errors_Is e ContextCanceled))"

lemma Get_webhook_found:
  assumes "script w = []" and "webhook_found wk (db w) i wh"
  shows "WebhookRepository_Get (wk_ext wk) (wk_key wk) i w = (Inr wh, w)"
  using assms by (auto simp: webhook_found_def WebhookRepository_Get_def check_def GetWebhook_def
      exec_healthy sql_get_webhook_def one_row_def)

lemma sendWebhook_never:
  assumes "script w = []" and "never_accepts wk wh"
  shows "\<exists>e. sendWebhook wk (wh_URL wh) (wh_Secret wh) payload w = (Inl e, w\<lparr>http_log := http_log w @
      [webhook_request (wk_ext wk) (wh_URL wh) (wh_Secret wh) payload (clock w)]\<rparr>)
    \<and> \<not> errors_Is e ContextCanceled"
proof -
  let ?req = "webhook_request (wk_ext wk) (wh_URL wh) (wh_Secret wh) payload (clock w)"
  have url: "rq_URL ?req = wh_URL wh" by (simp add: webhook_request_def Let_def)
  with assms(2) have n: "wk_new_request wk (wh_URL wh) = Inr ()" "\<not> accepted wk ?req"
    "\<And>e. wk_endpoint wk ?req = Inl e \<Longrightarrow> \<not> errors_Is e ContextCanceled"
    by (simp_all add: never_accepts_def)
  have run: "http_Do wk ?req w = (wk_endpoint wk ?req, w\<lparr>http_log := http_log w @ [?req]\<rparr>)"
    using assms(1) by (simp add: http_Do_def call_healthy)
  show ?thesis
    using n run by (cases "wk_endpoint wk ?req") (auto simp: sendWebhook_def check_def accepted_def)
qed

text \<open>One attempt at such an endpoint, the calls being healthy.\<close>

definition failed_row :: "Worker \<Rightarrow> int \<Rightarrow> time \<Rightarrow> queue_row \<Rightarrow> queue_row" where
  "failed_row wk a now r =
     (if a + 1 \<ge> wc_MaxRetries (wk_config wk) then set_failed r
      else set_retry (a + 1) (now + backoff_for a) r)"

lemma scheduleRetry_healthy:
  assumes "script w = []" and "0 \<le> a" and "a < 2147483647" and "i \<in> dbQ_ID ` set (tQueue (db w))"
  shows "scheduleRetry wk i a w =
    w\<lparr>db := (db w)\<lparr>tQueue := map (\<lambda>r. if dbQ_ID r = i then failed_row wk a (clock w) r else r) (tQueue (db w))\<rparr>\<rparr>"
  using assms
  by (simp add: scheduleRetry_def Let_def int32_Suc markFailed_def MarkWebhookQueueFailed_def
      UpdateWebhookQueueStatus_def exec_healthy sql_mark_webhook_queue_failed_def
      sql_update_webhook_queue_status_def update_queue_def failed_row_def set_row_defs)

lemma deliverWebhook_never:
  assumes w: "script w = []" and q: "tQueue (db w) = [item]" and a: "item_attempts item = a" "0 \<le> a" "a < 2147483647"
    and wh: "webhook_found wk (db w) (dbQ_WebhookID item) wh" "never_accepts wk wh"
  shows "deliverWebhook wk item w = w\<lparr>
    db := (db w)\<lparr>tQueue := [failed_row wk a (clock w) item]\<rparr>,
    http_log := http_log w @ [webhook_request (wk_ext wk) (wh_URL wh) (wh_Secret wh) (dbQ_Payload item) (clock w)]\<rparr>"
proof -
  let ?req = "webhook_request (wk_ext wk) (wh_URL wh) (wh_Secret wh) (dbQ_Payload item) (clock w)"
  let ?w = "w\<lparr>http_log := http_log w @ [?req]\<rparr>"
  from sendWebhook_never [OF w wh(2), of "dbQ_Payload item"] obtain e where
    e: "sendWebhook wk (wh_URL wh) (wh_Secret wh) (dbQ_Payload item) w = (Inl e, ?w)"
    "\<not> errors_Is e ContextCanceled" by blast
  have "deliverWebhook wk item w = scheduleRetry wk (dbQ_ID item) a ?w"
    using Get_webhook_found [OF w wh(1)] e a(1) by (simp add: deliverWebhook_def Let_def)
  also have "\<dots> = ?w\<lparr>db := (db w)\<lparr>tQueue := [failed_row wk a (clock w) item]\<rparr>\<rparr>"
    using scheduleRetry_healthy [of ?w a "dbQ_ID item" wk] w q a by simp
  finally show ?thesis by simp
qed

lemma worker_run_tick_never:
  assumes w: "script w = []" and q: "tQueue (db w) = [item]" and a: "item_attempts item = a" "0 \<le> a" "a < 2147483647"
    and wh: "webhook_found wk (db w) (dbQ_WebhookID item) wh" "never_accepts wk wh"
    and due: "queue_due (pg_micros t) item" and batch: "0 < wc_BatchSize (wk_config wk)"
  shows "worker_run wk ((t, []) # ticks) w = worker_run wk ticks (w\<lparr>clock := t,
    db := (db w)\<lparr>tQueue := [failed_row wk a t item]\<rparr>,
    http_log := http_log w @ [webhook_request (wk_ext wk) (wh_URL wh) (wh_Secret wh) (dbQ_Payload item) t]\<rparr>)"
proof -
  let ?w = "w\<lparr>clock := t\<rparr>"
  have "GetPendingWebhookQueueItems (wc_BatchSize (wk_config wk)) ?w = (Inr [item], ?w)"
    using w q due batch by (simp add: GetPendingWebhookQueueItems_def exec_healthy
        sql_get_pending_webhook_queue_items_def limit_offset_def order_asc_def)
  then have "processBatch wk [] ?w = deliverWebhook wk item ?w" by (simp add: processBatch_def)
  also have "\<dots> = ?w\<lparr>db := (db w)\<lparr>tQueue := [failed_row wk a t item]\<rparr>,
    http_log := http_log w @ [webhook_request (wk_ext wk) (wh_URL wh) (wh_Secret wh) (dbQ_Payload item) t]\<rparr>"
    using deliverWebhook_never [of ?w item a wk wh] assms by simp
  finally show ?thesis by simp
qed

text \<open>A row that is not pending is left alone, however long the worker runs.\<close>

lemma worker_run_idle:
  assumes "script w = []" and "tQueue (db w) = [item]" and "dbQ_Status item \<noteq> ''pending''"
  shows "db (worker_run wk ticks w) = db w \<and> http_log (worker_run wk ticks w) = http_log w"
  using assms
proof (induction wk ticks w rule: worker_run.induct)
  case (2 wk t stops ticks w)
  have "processBatch wk stops (w\<lparr>clock := t\<rparr>) = w\<lparr>clock := t\<rparr>"
    using 2(2-4) by (simp add: processBatch_def GetPendingWebhookQueueItems_def exec_healthy queue_due_def
        sql_get_pending_webhook_queue_items_def limit_offset_def order_asc_def split: sum.splits)
  with 2 show ?case by simp
qed simp

definition retry_ticks :: "time \<Rightarrow> time \<Rightarrow> time \<Rightarrow> time \<Rightarrow> time \<Rightarrow> bool" where
  "retry_ticks t0 t1 t2 t3 t4 \<longleftrightarrow>
     t0 + 1 * minute \<le> t1 \<and> t1 + 5 * minute \<le> t2 \<and> t2 + 15 * minute \<le> t3 \<and> t3 + 1 * hour \<le> t4"

lemma pg_micros_mono: "s \<le> t \<Longrightarrow> pg_micros s \<le> pg_micros t"
proof -
  assume "s \<le> t"
  then have "s div 1000 \<le> t div 1000" by (rule zdiv_mono1) simp
  moreover have "pg_micros u = 1000 * (u div 1000)" for u
    unfolding pg_micros_def by (simp add: minus_mod_eq_mult_div)
  ultimately show ?thesis by simp
qed

lemma backoff_for_values:
  "backoff_for 0 = 1 * minute" "backoff_for 1 = 5 * minute" "backoff_for 2 = 15 * minute"
  "backoff_for 3 = 1 * hour"
  by (simp_all add: backoff_for_def backoffSchedule_def Let_def numeral_2_eq_2 numeral_3_eq_3)

lemma failed_row_simps [simp]:
  "dbQ_ID (failed_row wk a t r) = dbQ_ID r" "dbQ_WebhookID (failed_row wk a t r) = dbQ_WebhookID r"
  "dbQ_Payload (failed_row wk a t r) = dbQ_Payload r"
  by (simp_all add: failed_row_def set_row_defs)

lemma failed_row_retry:
  assumes "a + 1 < wc_MaxRetries (wk_config wk)"
  shows "item_attempts (failed_row wk a t r) = a + 1"
    and "t + backoff_for a \<le> t' \<Longrightarrow> queue_due (pg_micros t') (failed_row wk a t r)"
  using assms pg_micros_mono by (auto simp: failed_row_def set_retry_def item_attempts_def queue_due_def)

text \<open>C2: An endpoint that never answers 2xx gets exactly five requests under the default limit, the
  retries waiting 1, 5, 15 minutes and one hour; after the fourth the row is pending with four
  attempts, due one hour later; after the fifth it is failed; and then no further run of the worker
  sends it again or changes anything.\<close>

theorem worker_gives_up:
  assumes w: "script w = []" and q: "tQueue (db w) = [item]" and a: "item_attempts item = 0"
    and due: "queue_due (pg_micros t0) item" and t: "retry_ticks t0 t1 t2 t3 t4"
    and wk: "wc_MaxRetries (wk_config wk) = DefaultMaxRetries" "0 < wc_BatchSize (wk_config wk)"
    and wh: "webhook_found wk (db w) (dbQ_WebhookID item) wh" "never_accepts wk wh"
  shows "\<exists>four five last. tQueue (db (worker_run wk [(t0, []), (t1, []), (t2, []), (t3, [])] w))
      = [item\<lparr>dbQ_Status := ''pending'', dbQ_Attempts := Some 4,
              dbQ_NextAttempt := Some (pg_micros (t3 + 1 * hour))\<rparr>]
    \<and> http_log (worker_run wk [(t0, []), (t1, []), (t2, []), (t3, [])] w) = http_log w @ four
    \<and> length four = 4
    \<and> tQueue (db (worker_run wk ((t0, []) # (t1, []) # (t2, []) # (t3, []) # (t4, []) # ticks) w)) = [last]
    \<and> dbQ_Status last = ''failed'' \<and> same_delivery item last
    \<and> http_log (worker_run wk ((t0, []) # (t1, []) # (t2, []) # (t3, []) # (t4, []) # ticks) w)
        = http_log w @ five
    \<and> length five = 5
    \<and> (\<forall>req\<in>set five. rq_URL req = wh_URL wh \<and> rq_Body req = dbQ_Payload item)"
proof -
  let ?req = "webhook_request (wk_ext wk) (wh_URL wh) (wh_Secret wh) (dbQ_Payload item)"
  let ?i1 = "failed_row wk 0 t0 item"
  let ?i2 = "failed_row wk 1 t1 ?i1"
  let ?i3 = "failed_row wk 2 t2 ?i2"
  let ?i4 = "failed_row wk 3 t3 ?i3"
  let ?i5 = "failed_row wk 4 t4 ?i4"
  have limit: "wc_MaxRetries (wk_config wk) = 5" using wk(1) by (simp add: DefaultMaxRetries_def)
  have atts: "item_attempts ?i1 = 1" "item_attempts ?i2 = 2" "item_attempts ?i3 = 3" "item_attempts ?i4 = 4"
    using limit by (simp_all add: failed_row_retry(1))
  have dues: "queue_due (pg_micros t1) ?i1" "queue_due (pg_micros t2) ?i2" "queue_due (pg_micros t3) ?i3"
    "queue_due (pg_micros t4) ?i4"
    using t limit by (auto intro!: failed_row_retry(2) simp: retry_ticks_def backoff_for_values)
  have found: "webhook_found wk (d\<lparr>tQueue := rows\<rparr>) i wh \<longleftrightarrow> webhook_found wk d i wh" for d rows i
    by (simp add: webhook_found_def)
  note tick = worker_run_tick_never [OF _ _ _ _ _ _ wh(2) _ wk(2)]
  have four: "worker_run wk ((t0, []) # (t1, []) # (t2, []) # (t3, []) # more) w = worker_run wk more
      (w\<lparr>clock := t3, db := (db w)\<lparr>tQueue := [?i4]\<rparr>,
         http_log := http_log w @ [?req t0, ?req t1, ?req t2, ?req t3]\<rparr>)" for more
    using w q a due wh(1) atts dues by (simp add: tick found del: worker_run.simps)
  have five: "worker_run wk ((t0, []) # (t1, []) # (t2, []) # (t3, []) # (t4, []) # more) w = worker_run wk more
      (w\<lparr>clock := t4, db := (db w)\<lparr>tQueue := [?i5]\<rparr>,
         http_log := http_log w @ [?req t0, ?req t1, ?req t2, ?req t3, ?req t4]\<rparr>)" for more
    using w q a due wh(1) atts dues by (simp add: four tick found del: worker_run.simps)
  have i5: "dbQ_Status ?i5 = ''failed''" "same_delivery item ?i5"
    using limit by (simp_all add: failed_row_def set_row_defs same_delivery_def)
  have i4: "?i4 = item\<lparr>dbQ_Status := ''pending'', dbQ_Attempts := Some 4,
      dbQ_NextAttempt := Some (pg_micros (t3 + 1 * hour))\<rparr>"
    using limit by (simp add: failed_row_def set_retry_def backoff_for_values)
  have bodies: "\<forall>req\<in>set [?req t0, ?req t1, ?req t2, ?req t3, ?req t4].
      rq_URL req = wh_URL wh \<and> rq_Body req = dbQ_Payload item"
    by (simp add: webhook_request_def Let_def)
  let ?w5 = "w\<lparr>clock := t4, db := (db w)\<lparr>tQueue := [?i5]\<rparr>,
    http_log := http_log w @ [?req t0, ?req t1, ?req t2, ?req t3, ?req t4]\<rparr>"
  have "db (worker_run wk ticks ?w5) = db ?w5 \<and> http_log (worker_run wk ticks ?w5) = http_log ?w5"
    by (rule worker_run_idle [where item = ?i5]) (use w i5 in simp_all)
  then have end5: "tQueue (db (worker_run wk ticks ?w5)) = [?i5]"
    "http_log (worker_run wk ticks ?w5) = http_log w @ [?req t0, ?req t1, ?req t2, ?req t3, ?req t4]" by simp_all
  show ?thesis
    by (rule exI [of _ "[?req t0, ?req t1, ?req t2, ?req t3]"],
        rule exI [of _ "[?req t0, ?req t1, ?req t2, ?req t3, ?req t4]"], rule exI [of _ ?i5])
      (intro conjI; (rule i5 bodies end5 [folded five])?; simp add: four [of "[]"] i4 del: worker_run.simps(2))
qed

section \<open>The retry schedule\<close>

text \<open>C18: With the default limit of five attempts a retry is never put off by more than an hour: whatever
  the calls do, each row after \<open>scheduleRetry\<close> is as before, failed, or due one of the first four
  delays of the schedule later. The schedule's last entry, four hours, is never used.\<close>

theorem retry_within_an_hour:
  assumes "no_races w" and "count_ok 5 a" and "wc_MaxRetries (wk_config wk) = DefaultMaxRetries"
    and "r' \<in> set (tQueue (db (scheduleRetry wk i a w)))"
  shows "r' \<in> set (tQueue (db w)) \<or> dbQ_Status r' = ''failed''
    \<or> (\<exists>delay\<in>{1 * minute, 5 * minute, 15 * minute, 1 * hour}.
         dbQ_NextAttempt r' = Some (pg_micros (clock w + delay)) \<and> dbQ_Attempts r' = Some (a + 1))"
proof -
  from scheduleRetry_change [OF assms(1), of wk a i] obtain f where
    f: "retry_change 5 a (clock w) f" "row_changed i f w (scheduleRetry wk i a w)"
    using assms(3) by (auto simp: DefaultMaxRetries_def)
  from assms(4) f(2) obtain r where r: "r \<in> set (tQueue (db w))" "r' = (if dbQ_ID r = i then f r else r)"
    by (auto simp: row_changed_def)
  have a: "int32 (a + 1) = a + 1" using assms(2) by (auto simp: count_ok_def int32_Suc int32_id)
  have delay: "backoff_for a \<in> {1 * minute, 5 * minute, 15 * minute, 1 * hour}" if "a + 1 < 5"
  proof -
    have "a = 0 \<or> a = 1 \<or> a = 2 \<or> a = 3" using assms(2) that by (auto simp: count_ok_def)
    then show ?thesis using backoff_for_values by auto
  qed
  have change: "r' = r \<or> dbQ_Status r' = ''failed'' \<or>
      a + 1 < 5 \<and> dbQ_NextAttempt r' = Some (pg_micros (clock w + backoff_for a)) \<and> dbQ_Attempts r' = Some (a + 1)"
    using f(1) r(2) by (auto simp: retry_change_def set_row_defs a split: if_splits)
  then show ?thesis
  proof (elim disjE)
    assume "r' = r"
    with r(1) show ?thesis by simp
  next
    assume "a + 1 < 5 \<and> dbQ_NextAttempt r' = Some (pg_micros (clock w + backoff_for a)) \<and> dbQ_Attempts r' = Some (a + 1)"
    then show ?thesis using delay by blast
  qed simp
qed

section \<open>Repeated delivery\<close>

definition always_accepts :: "Worker \<Rightarrow> webhook \<Rightarrow> bool" where
  "always_accepts wk wh \<longleftrightarrow> wk_new_request wk (wh_URL wh) = Inr ()
     \<and> (\<forall>req. rq_URL req = wh_URL wh \<longrightarrow> accepted wk req)"

lemma call_Healthy: "script w = Healthy # fs \<Longrightarrow> call q w = q (w\<lparr>script := fs\<rparr>)"
  by (simp add: call_def)

lemma sendWebhook_accepts:
  assumes "always_accepts wk wh" and "script w = [] \<and> fs = [] \<or> script w = Healthy # fs"
  shows "sendWebhook wk (wh_URL wh) (wh_Secret wh) payload w = (Inr (), w\<lparr>script := fs, http_log := http_log w @
      [webhook_request (wk_ext wk) (wh_URL wh) (wh_Secret wh) payload (clock w)]\<rparr>)"
proof -
  let ?req = "webhook_request (wk_ext wk) (wh_URL wh) (wh_Secret wh) payload (clock w)"
  have "accepted wk ?req" "wk_new_request wk (wh_URL wh) = Inr ()"
    using assms(1) by (simp_all add: always_accepts_def webhook_request_def Let_def)
  moreover have "http_Do wk ?req w = (wk_endpoint wk ?req, w\<lparr>script := fs, http_log := http_log w @ [?req]\<rparr>)"
    using assms(2) by (elim disjE) (simp_all add: http_Do_def call_healthy call_Healthy)
  ultimately show ?thesis
    unfolding sendWebhook_def check_def by (auto simp: accepted_def)
qed

text \<open>C17: Delivery is at least once. When the endpoint accepts a payload but the update that records it
  is refused, the row stays as it was, pending and due, and the next batch sends the same payload
  again and then records it as delivered.\<close>

theorem delivery_repeats_when_unrecorded:
  assumes w: "script w = [Healthy, Healthy, Healthy, Refused e]" and q: "tQueue (db w) = [item]"
    and due: "queue_due (pg_micros t0) item" and t: "t0 \<le> t1" and wk: "0 < wc_BatchSize (wk_config wk)"
    and wh: "webhook_found wk (db w) (dbQ_WebhookID item) wh" "always_accepts wk wh"
  shows "\<exists>req req'. db (worker_run wk [(t0, [])] w) = db w \<and> http_log (worker_run wk [(t0, [])] w) = http_log w @ [req]
    \<and> tQueue (db (worker_run wk [(t0, []), (t1, [])] w)) = [item\<lparr>dbQ_Status := ''delivered''\<rparr>]
    \<and> http_log (worker_run wk [(t0, []), (t1, [])] w) = http_log w @ [req, req']
    \<and> rq_Body req = dbQ_Payload item \<and> rq_Body req' = dbQ_Payload item"
proof -
  let ?req = "webhook_request (wk_ext wk) (wh_URL wh) (wh_Secret wh) (dbQ_Payload item)"
  have due1: "queue_due (pg_micros t1) item"
    using due pg_micros_mono [OF t] by (auto simp: queue_due_def split: option.splits)
  from wh(1) obtain row where row: "filter (\<lambda>r. dbW_ID r = dbQ_WebhookID item) (tWebhooks (db w)) = [row]"
    "toWebhook (wk_ext wk) (wk_key wk) row = Inr wh" by (auto simp: webhook_found_def)
  have first: "worker_run wk [(t0, [])] w = w\<lparr>clock := t0, script := [], http_log := http_log w @ [?req t0]\<rparr>"
    using w q due wk row
    by (simp add: processBatch_def GetPendingWebhookQueueItems_def exec_def call_def
        sql_get_pending_webhook_queue_items_def limit_offset_def order_asc_def deliverWebhook_def Let_def
        WebhookRepository_Get_def check_def GetWebhook_def sql_get_webhook_def one_row_def
        sendWebhook_accepts [OF wh(2), where fs = "[Refused e]"] markDelivered_def MarkWebhookQueueDelivered_def)
  have again: "worker_run wk [(t1, [])] v = v\<lparr>clock := t1, db := (db w)\<lparr>tQueue := [set_delivered item]\<rparr>,
      http_log := http_log v @ [?req t1]\<rparr>" if "script v = []" "db v = db w" for v
    using that q due1 wk row
    by (simp add: processBatch_def GetPendingWebhookQueueItems_def exec_healthy
        sql_get_pending_webhook_queue_items_def limit_offset_def order_asc_def deliverWebhook_def Let_def
        WebhookRepository_Get_def check_def GetWebhook_def sql_get_webhook_def one_row_def
        sendWebhook_accepts [OF wh(2), where fs = "[]"] markDelivered_def MarkWebhookQueueDelivered_def
        sql_mark_webhook_queue_delivered_def update_queue_def set_delivered_def)
  have both: "worker_run wk [(t0, []), (t1, [])] w = worker_run wk [(t1, [])] (worker_run wk [(t0, [])] w)"
    by simp
  have body: "rq_Body (?req t) = dbQ_Payload item" for t by (simp add: webhook_request_def Let_def)
  show ?thesis
    by (rule exI [of _ "?req t0"], rule exI [of _ "?req t1"])
      (simp add: both first again body set_delivered_def del: worker_run.simps(2))
qed

section \<open>The signature\<close>

text \<open>C19: A signature vouches for the payload and the timestamp: two requests with the same signature
  under the same secret carry the same of both, unless two different messages collide under
  HMAC-SHA256. The timestamp and the payload are joined unambiguously.\<close>

theorem signature_binds:
  assumes "computeSignature x p secret t = computeSignature x p' secret t'"
  shows "(p = p' \<and> t = t') \<or> (\<exists>m m'. m \<noteq> m' \<and> x_hmac_sha256 x secret m = x_hmac_sha256 x secret m')"
proof (cases "Itoa t @ ''.'' @ p = Itoa t' @ ''.'' @ p'")
  case True
  have "CHR ''.'' \<notin> set (Itoa u)" for u using Itoa_chars [of "CHR ''.''" u] by (auto simp: digit_val_def)
  from split_at_first [OF this this, of t p t' p'] True show ?thesis by simp
next
  case False
  moreover have "x_hmac_sha256 x secret (Itoa t @ ''.'' @ p) = x_hmac_sha256 x secret (Itoa t' @ ''.'' @ p')"
    using assms by (auto simp: computeSignature_def Let_def dest: hex_EncodeToString_inject)
  ultimately show ?thesis by blast
qed

section \<open>Concrete runs\<close>

definition demo_item :: queue_row where
  "demo_item = \<lparr>dbQ_ID = 40, dbQ_WebhookID = 20, dbQ_EmailID = 10, dbQ_Payload = ''{}'',
     dbQ_Attempts = Some 0, dbQ_NextAttempt = Some 0, dbQ_Status = ''pending'', dbQ_CreatedAt = 0\<rparr>"

definition demo_queued :: world where
  "demo_queued = demo_world (demo_mails\<lparr>tWebhooks := [demo_webhook_row], tQueue := [demo_item]\<rparr>)"

definition demo_worker :: "int \<Rightarrow> Worker" where
  "demo_worker status = NewWorker demo_externals demo_key (\<lambda>_. Inr ()) (\<lambda>_. Inr status)
     \<lparr>wc_PollInterval = 0, wc_BatchSize = 0, wc_HTTPTimeout = 0, wc_MaxRetries = 0\<rparr>"

lemma demo_worker_config [simp]:
  "wc_MaxRetries (wk_config (demo_worker s)) = DefaultMaxRetries" "wc_BatchSize (wk_config (demo_worker s)) = DefaultBatchSize"
  "wk_ext (demo_worker s) = demo_externals" "wk_key (demo_worker s) = demo_key"
  "wk_new_request (demo_worker s) = (\<lambda>_. Inr ())" "wk_endpoint (demo_worker s) = (\<lambda>_. Inr s)"
  by (simp_all add: demo_worker_def NewWorker_def Let_def)

lemma demo_queued_simps [simp]:
  "script demo_queued = []" "tQueue (db demo_queued) = [demo_item]" "http_log demo_queued = []"
  "dbQ_WebhookID demo_item = 20" "item_attempts demo_item = 0" "dbQ_Status demo_item = ''pending''"
  "dbQ_Payload demo_item = ''{}''"
  by (simp_all add: demo_queued_def demo_item_def demo_world_def item_attempts_def)

lemma demo_item_due: "0 \<le> t \<Longrightarrow> queue_due (pg_micros t) demo_item"
  using pg_micros_mono [of 0 t] by (simp add: queue_due_def) (simp add: demo_item_def pg_micros_def)

lemma demo_found: "webhook_found (demo_worker s) (db demo_queued) 20 demo_webhook"
  using demo_toWebhook by (simp add: webhook_found_def demo_queued_def) (simp add: demo_webhook_row_def)

lemma demo_never: "never_accepts (demo_worker 500) demo_webhook"
  by (simp add: never_accepts_def accepted_def)

lemma demo_always: "always_accepts (demo_worker 200) demo_webhook"
  by (simp add: always_accepts_def accepted_def)

lemma demo_worker_ready: "worker_ready (demo_worker s) demo_queued"
  by (simp add: worker_ready_def no_races_def attempts_ok_def count_ok_def valid_limit_def DefaultMaxRetries_def)

theorem worker_refines_witness:
  "\<exists>r. tQueue (db (worker_run (demo_worker 200) [(0, [])] demo_queued)) = [r] \<and> same_delivery demo_item r
     \<and> (delivery_of r = Delivered \<longrightarrow>
          (\<exists>req\<in>set (http_log (worker_run (demo_worker 200) [(0, [])] demo_queued)). rq_Body req = ''{}''))"
proof -
  have pending: "delivery_of demo_item = Pending 0" by (simp add: delivery_of_def)
  from worker_refines [OF demo_worker_ready [of 200], of "[(0, [])]"] obtain g reqs where
    g: "db (worker_run (demo_worker 200) [(0, [])] demo_queued) = (db demo_queued)\<lparr>tQueue := [g demo_item]\<rparr>"
      "http_log (worker_run (demo_worker 200) [(0, [])] demo_queued) = reqs"
      "same_delivery demo_item (g demo_item)"
      "delivery_of (g demo_item) = Delivered \<longrightarrow> (\<exists>req\<in>set reqs. rq_Body req = ''{}'')"
    by (auto simp: pending simp del: worker_run.simps)
  show ?thesis
    by (rule exI [of _ "g demo_item"]) (use g in \<open>simp del: worker_run.simps\<close>)
qed

lemma demo_queued_inv: "db_inv (db demo_queued)"
  by (simp add: demo_queued_def db_inv_def demo_mails_def demo_db_def empty_db_def demo_row_def
      demo_webhook_row_def demo_item_def keys_unique_def references_ok_def
      email_key_def status_ok_def statuses_def)

theorem worker_attempts_bounded_witness:
  "\<exists>r. tQueue (db (worker_run (demo_worker 500) [(0, []), (minute, [])] demo_queued)) = [r]
     \<and> 0 \<le> item_attempts r \<and> item_attempts r < 5"
proof -
  have w: "winv (\<lambda>d. db_inv d \<and> attempts_ok (wc_MaxRetries (wk_config (demo_worker 500))) d) demo_queued"
    using demo_queued_inv demo_worker_ready [of 500] by (simp add: winv_def worker_ready_def)
  from worker_run_change [OF demo_worker_ready [of 500], of "[(0, []), (minute, [])]"] obtain r where
    r: "tQueue (db (worker_run (demo_worker 500) [(0, []), (minute, [])] demo_queued)) = [r]"
    by (auto simp del: worker_run.simps)
  with worker_attempts_bounded [OF w, of r "[(0, []), (minute, [])]"] show ?thesis
    by (simp add: DefaultMaxRetries_def valid_limit_def del: worker_run.simps)
qed

theorem worker_gives_up_witness:
  "\<exists>last. tQueue (db (worker_run (demo_worker 500)
       [(0, []), (minute, []), (6 * minute, []), (21 * minute, []), (2 * hour, []), (3 * hour, [])] demo_queued)) = [last]
     \<and> dbQ_Status last = ''failed''"
proof -
  have "retry_ticks 0 minute (6 * minute) (21 * minute) (2 * hour)"
    by (simp add: retry_ticks_def duration_defs)
  from worker_gives_up [OF _ _ _ demo_item_due this, of demo_queued "demo_worker 500" demo_webhook "[(3 * hour, [])]"]
  show ?thesis
    using demo_found demo_never by (auto simp: DefaultBatchSize_def simp del: worker_run.simps)
qed

theorem retry_within_an_hour_witness:
  "\<exists>r'. tQueue (db (scheduleRetry (demo_worker 500) 40 0 demo_queued)) = [r']
     \<and> (r' = demo_item \<or> dbQ_Status r' = ''failed'' \<or> (\<exists>delay\<in>{1 * minute, 5 * minute, 15 * minute, 1 * hour}.
       dbQ_NextAttempt r' = Some (pg_micros (clock demo_queued + delay)) \<and> dbQ_Attempts r' = Some 1))"
proof -
  have w: "no_races demo_queued" "count_ok 5 0" by (simp_all add: no_races_def count_ok_def)
  have "dbQ_ID demo_item = 40" by (simp add: demo_item_def)
  then obtain r' where r': "tQueue (db (scheduleRetry (demo_worker 500) 40 0 demo_queued)) = [r']"
    using scheduleRetry_healthy [of demo_queued 0 40 "demo_worker 500"] by simp
  with retry_within_an_hour [OF w, of "demo_worker 500" r' 40] show ?thesis by simp
qed

theorem delivery_repeats_when_unrecorded_witness:
  "\<exists>req req'. http_log (worker_run (demo_worker 200) [(0, []), (5, [])]
       (demo_queued\<lparr>script := [Healthy, Healthy, Healthy, Refused (errors_New Other ''x'')]\<rparr>)) = [req, req']
     \<and> rq_Body req = rq_Body req'"
proof -
  let ?w = "demo_queued\<lparr>script := [Healthy, Healthy, Healthy, Refused (errors_New Other ''x'')]\<rparr>"
  from delivery_repeats_when_unrecorded [of ?w _ demo_item 0 5 "demo_worker 200" demo_webhook]
  show ?thesis
    using demo_found demo_always demo_item_due [of 0]
    by (auto simp: DefaultBatchSize_def simp del: worker_run.simps)
qed

theorem signature_binds_witness:
  "\<exists>m m'. m \<noteq> m' \<and> x_hmac_sha256 (demo_externals\<lparr>x_hmac_sha256 := \<lambda>_ _. []\<rparr>) ''s'' m
      = x_hmac_sha256 (demo_externals\<lparr>x_hmac_sha256 := \<lambda>_ _. []\<rparr>) ''s'' m'"
  using signature_binds [of "demo_externals\<lparr>x_hmac_sha256 := \<lambda>_ _. []\<rparr>" "''a''" "''s''" 7 "''b''" 7]
  by (simp add: computeSignature_def)

end
