(* ===== verification/Imap.thy ===== *)
theory Imap
  imports Domain
begin

text \<open>
  \<open>internal/imap/client.go\<close>, with \<open>HasIdleCapability\<close> and \<open>connect\<close> of \<open>internal/sync/idle.go\<close> and
  \<open>fetchStatus\<close> of \<open>poller.go\<close>: every conversation with an IMAP server. The server is an argument: what
  it answers to a connection, a login and each command. Each operation returns its result
  together with the opening and closing of the connection and the session that it performs.
\<close>

section \<open>The server\<close>

text \<open>The commands of a logged-in session, by folder where one is selected first: LIST, STATUS (message
  count and UIDNEXT), SELECT (message count), the bodies a FETCH of a UID returns, UID SEARCH for all
  messages or from a UID on, IDLE, and the capabilities.\<close>

record imap_session =
  im_list :: "string list res"
  im_status :: "string \<Rightarrow> (u32 option \<times> u32) res"
  im_select :: "string \<Rightarrow> u32 res"
  im_fetch :: "string \<Rightarrow> u32 \<Rightarrow> string option list res"
  im_search :: "string \<Rightarrow> u32 option \<Rightarrow> u32 list res"
  im_idle :: "unit res"
  im_caps :: "string list option"

record imap_net =
  net_dial :: "string \<Rightarrow> int \<Rightarrow> unit res"
  net_tls :: "string \<Rightarrow> int \<Rightarrow> unit res"
  net_starttls :: "string \<Rightarrow> int \<Rightarrow> unit res"
  net_login :: "string \<Rightarrow> int \<Rightarrow> string \<Rightarrow> string \<Rightarrow> imap_session res"

datatype imap_op = Opened | LoggedIn | LoggedOut | ConnClosed

type_synonym 'a imap = "'a res \<times> imap_op list"

section \<open>Connecting\<close>

text \<open>\<open>Dial\<close> and \<open>dial\<close>: implicit TLS on port 993, STARTTLS elsewhere; a failed handshake closes the
  connection.\<close>

definition imap_Dial :: "imap_net \<Rightarrow> string \<Rightarrow> int \<Rightarrow> unit imap" where
  "imap_Dial net host port =
     (case net_dial net host port of
        Inl e \<Rightarrow> (Inl e, [])
      | Inr _ \<Rightarrow>
          (case (if port = 993 then net_tls net host port else net_starttls net host port) of
             Inl e \<Rightarrow> (Inl e, [Opened, ConnClosed])
           | Inr _ \<Rightarrow> (Inr (), [Opened])))"

fun first_NetError :: "cause list \<Rightarrow> bool option" where
  "first_NetError [] = None"
| "first_NetError (NetError t # cs) = Some t"
| "first_NetError (_ # cs) = first_NetError cs"

definition isTimeoutError :: "goerror \<Rightarrow> bool" where
  "isTimeoutError e \<longleftrightarrow> first_NetError (causes e) = Some True"

definition isTLSError :: "goerror \<Rightarrow> bool" where
  "isTLSError e \<longleftrightarrow> errors_Is e TlsError"

definition classifyError :: "goerror \<Rightarrow> goerror" where
  "classifyError e =
     (if isTimeoutError e then Errorf_wv (ImapErr ImapTimeout) ''connection timed out'' e
      else if isTLSError e then Errorf_wv (ImapErr ImapTLSFailed) ''TLS handshake failed'' e
      else Errorf_wv (ImapErr ImapConnectionFailed) ''failed to connect to IMAP server'' e)"

fun first_ImapCode :: "cause list \<Rightarrow> string option" where
  "first_ImapCode [] = None"
| "first_ImapCode (ImapCode c # cs) = Some c"
| "first_ImapCode (_ # cs) = first_ImapCode cs"

definition isNoSuchMailboxError :: "goerror \<Rightarrow> bool" where
  "isNoSuchMailboxError e \<longleftrightarrow>
     (case first_ImapCode (causes e) of None \<Rightarrow> False | Some c \<Rightarrow> c = ''NONEXISTENT'' \<or> c = ''TRYCREATE'')"

definition imap_ErrAuthFailed :: "goerror \<Rightarrow> goerror" where
  "imap_ErrAuthFailed e = Errorf_wv (ImapErr ImapAuthFailed) ''authentication failed'' e"

text \<open>The frame of \<open>FetchRaw\<close>, \<open>FetchUIDsAfter\<close> and \<open>ListFolders\<close>: connect, log in, and log out and close on
  every path after that.\<close>

definition imap_with_session ::
  "imap_net \<Rightarrow> string \<Rightarrow> int \<Rightarrow> string \<Rightarrow> string \<Rightarrow> (imap_session \<Rightarrow> 'a res) \<Rightarrow> 'a imap" where
  "imap_with_session net host port user password body =
     (case imap_Dial net host port of
        (Inl e, t) \<Rightarrow> (Inl (classifyError e), t)
      | (Inr _, t) \<Rightarrow>
          (case net_login net host port user password of
             Inl e \<Rightarrow> (Inl (imap_ErrAuthFailed e), t @ [ConnClosed])
           | Inr s \<Rightarrow> (body s, t @ [LoggedIn, LoggedOut, ConnClosed])))"

definition imap_select :: "imap_session \<Rightarrow> string \<Rightarrow> u32 res" where
  "imap_select s folder =
     (case im_select s folder of
        Inl e \<Rightarrow>
          Inl (if isNoSuchMailboxError e
               then Errorf_wv (ImapErr ImapFolderNotFound) (''folder not found: folder '' @ folder) e
               else Errorf_wv (ImapErr ImapSelectFailed) (''failed to select folder: folder '' @ folder) e)
      | Inr n \<Rightarrow> Inr n)"

section \<open>The client's operations\<close>

definition TestConnection :: "imap_net \<Rightarrow> string \<Rightarrow> int \<Rightarrow> string \<Rightarrow> string \<Rightarrow> string list imap" where
  "TestConnection net host port user password =
     (case imap_Dial net host port of
        (Inl e, t) \<Rightarrow> (Inl (classifyError e), t)
      | (Inr _, t) \<Rightarrow>
          (case net_login net host port user password of
             Inl e \<Rightarrow> (Inl (imap_ErrAuthFailed e), t @ [ConnClosed])
           | Inr s \<Rightarrow>
               (case im_list s of
                  Inl e \<Rightarrow> (Inl (Errorf_wv (ImapErr ImapListFoldersFailed) ''failed to list folders'' e),
                            t @ [LoggedIn, ConnClosed])
                | Inr folders \<Rightarrow> (Inr folders, t @ [LoggedIn, LoggedOut, ConnClosed]))))"

definition message_not_found :: "u32 \<Rightarrow> string \<Rightarrow> string \<Rightarrow> goerror" where
  "message_not_found uid folder suffix =
     errors_New (ImapErr ImapMessageNotFound)
       (''message not found: UID '' @ Itoa (uint uid) @ '' in folder '' @ folder @ suffix)"

definition fetch_body :: "string \<Rightarrow> u32 \<Rightarrow> imap_session \<Rightarrow> string res" where
  "fetch_body folder uid s =
     (case imap_select s folder of
        Inl e \<Rightarrow> Inl e
      | Inr _ \<Rightarrow>
          (case im_fetch s folder uid of
             Inl e \<Rightarrow> Inl (Errorf_wv (ImapErr ImapFetchFailed) ''failed to fetch message'' e)
           | Inr [] \<Rightarrow> Inl (message_not_found uid folder [])
           | Inr (None # _) \<Rightarrow> Inl (message_not_found uid folder '' (empty body)'')
           | Inr (Some body # _) \<Rightarrow> Inr body))"

definition imap_FetchRaw ::
  "imap_net \<Rightarrow> string \<Rightarrow> int \<Rightarrow> string \<Rightarrow> string \<Rightarrow> string \<Rightarrow> u32 \<Rightarrow> string imap" where
  "imap_FetchRaw net host port user password folder uid =
     imap_with_session net host port user password (fetch_body folder uid)"

text \<open>\<open>afterUID + 1\<close> is computed on a \<open>uint32\<close>.\<close>

definition search_after :: "string \<Rightarrow> u32 \<Rightarrow> imap_session \<Rightarrow> u32 list res" where
  "search_after folder afterUID s =
     (case imap_select s folder of
        Inl e \<Rightarrow> Inl e
      | Inr numMessages \<Rightarrow>
          if numMessages = 0 then Inr []
          else
            (case im_search s folder (if afterUID > 0 then Some (afterUID + 1) else None) of
               Inl e \<Rightarrow> Inl (Errorf_w ''searching UIDs'' e)
             | Inr uids \<Rightarrow> Inr uids))"

definition FetchUIDsAfter ::
  "imap_net \<Rightarrow> string \<Rightarrow> int \<Rightarrow> string \<Rightarrow> string \<Rightarrow> string \<Rightarrow> u32 \<Rightarrow> u32 list imap" where
  "FetchUIDsAfter net host port user password folder afterUID =
     imap_with_session net host port user password (search_after folder afterUID)"

record Folder =
  fd_Name :: string
  fd_MessageCount :: u32

text \<open>A folder whose STATUS fails is listed with count 0.\<close>

definition list_folders :: "imap_session \<Rightarrow> Folder list res" where
  "list_folders s =
     (case im_list s of
        Inl e \<Rightarrow> Inl (Errorf_wv (ImapErr ImapListFoldersFailed) ''failed to list folders'' e)
      | Inr mailboxes \<Rightarrow>
          Inr (map (\<lambda>name. \<lparr>fd_Name = name, fd_MessageCount =
                 (case im_status s name of
                    Inl _ \<Rightarrow> 0
                  | Inr (count, _) \<Rightarrow> (case count of None \<Rightarrow> 0 | Some n \<Rightarrow> n))\<rparr>) mailboxes))"

definition ListFolders :: "imap_net \<Rightarrow> string \<Rightarrow> int \<Rightarrow> string \<Rightarrow> string \<Rightarrow> Folder list imap" where
  "ListFolders net host port user password = imap_with_session net host port user password list_folders"

section \<open>Connections are given back\<close>

definition balanced :: "imap_op list \<Rightarrow> bool" where
  "balanced t \<longleftrightarrow> count_list t Opened = count_list t ConnClosed \<and> count_list t LoggedIn = count_list t LoggedOut"

lemma imap_Dial_trace:
  "imap_Dial net host port = (r, t) \<Longrightarrow> (case r of Inl _ \<Rightarrow> balanced t | Inr _ \<Rightarrow> t = [Opened])"
  by (auto simp: imap_Dial_def balanced_def split: sum.splits if_splits)

lemma imap_with_session_balanced: "balanced (snd (imap_with_session net host port user password body))"
  using imap_Dial_trace [of net host port]
  by (auto simp: imap_with_session_def balanced_def split: prod.splits sum.splits)

text \<open>Fetching a message, the UIDs or the folders closes every connection it opened and ends every
  session it began, whatever the server answers; testing a connection closes it too.\<close>

lemma operations_balanced:
  "balanced (snd (imap_FetchRaw net host port user password folder uid))
   \<and> balanced (snd (FetchUIDsAfter net host port user password folder afterUID))
   \<and> balanced (snd (ListFolders net host port user password))
   \<and> count_list (snd (TestConnection net host port user password)) Opened
       = count_list (snd (TestConnection net host port user password)) ConnClosed"
proof (intro conjI)
  show "count_list (snd (TestConnection net host port user password)) Opened
       = count_list (snd (TestConnection net host port user password)) ConnClosed"
    using imap_Dial_trace [of net host port]
    by (auto simp: TestConnection_def balanced_def split: prod.splits sum.splits)
qed (simp_all add: imap_FetchRaw_def FetchUIDsAfter_def ListFolders_def imap_with_session_balanced)

section \<open>UIDs after a given one\<close>

text \<open>The server's documented behaviour on a folder with the given UIDs: the range \<open>a:*\<close> selects the UIDs
  between \<open>a\<close> and the highest one in either order, so it always selects the highest.\<close>

definition search_documented :: "imap_session \<Rightarrow> string \<Rightarrow> u32 list \<Rightarrow> bool" where
  "search_documented s folder uids \<longleftrightarrow>
     (\<exists>n. im_select s folder = Inr n \<and> (n = 0 \<longleftrightarrow> uids = []))
     \<and> im_search s folder None = Inr uids
     \<and> (\<forall>a. im_search s folder (Some a) = Inr (filter (\<lambda>u. a \<le> u \<or> u = Max (set uids)) uids))"

definition logs_in :: "imap_net \<Rightarrow> string \<Rightarrow> int \<Rightarrow> string \<Rightarrow> string \<Rightarrow> imap_session \<Rightarrow> bool" where
  "logs_in net host port user password s \<longleftrightarrow>
     net_dial net host port = Inr () \<and> net_tls net host port = Inr () \<and> net_starttls net host port = Inr ()
     \<and> net_login net host port user password = Inr s"

lemma imap_with_session_logged_in:
  "logs_in net host port user password s \<Longrightarrow> fst (imap_with_session net host port user password body) = body s"
  by (cases "port = 993") (simp_all add: imap_with_session_def logs_in_def imap_Dial_def)

lemma word_Suc_le: "(a :: u32) \<noteq> - 1 \<Longrightarrow> a + 1 \<le> u \<longleftrightarrow> a < u"
  using inc_less_eq_iff by auto

text \<open>C30: On a server that implements UID SEARCH as documented, \<open>FetchUIDsAfter\<close> misses no new message:
  its result holds every UID of the folder above the given one. It can hold one more: when
  none is above, it returns the highest UID of the folder although that is not greater than the given
  one.\<close>

theorem fetch_uids_after:
  assumes "logs_in net host port user password s" and "search_documented s folder uids"
    and "afterUID \<noteq> - 1" and "uids \<noteq> []"
  shows "fst (FetchUIDsAfter net host port user password folder afterUID) = Inr
    (if \<exists>u\<in>set uids. afterUID < u \<or> afterUID = 0 then filter (\<lambda>u. afterUID < u \<or> afterUID = 0) uids
     else filter (\<lambda>u. u = Max (set uids)) uids)"
proof -
  obtain n where n: "im_select s folder = Inr n" "n \<noteq> 0" using assms(2,4) by (auto simp: search_documented_def)
  have "fst (FetchUIDsAfter net host port user password folder afterUID) = search_after folder afterUID s"
    using imap_with_session_logged_in [OF assms(1)] by (simp add: FetchUIDsAfter_def)
  also have "\<dots> = Inr (if afterUID = 0 then uids else filter (\<lambda>u. afterUID < u \<or> u = Max (set uids)) uids)"
    using assms(2,3) n by (auto simp: search_after_def imap_select_def search_documented_def word_Suc_le word_gt_0)
  also have "(if afterUID = 0 then uids else filter (\<lambda>u. afterUID < u \<or> u = Max (set uids)) uids)
    = (if \<exists>u\<in>set uids. afterUID < u \<or> afterUID = 0 then filter (\<lambda>u. afterUID < u \<or> afterUID = 0) uids
     else filter (\<lambda>u. u = Max (set uids)) uids)"
  proof (cases "afterUID = 0")
    case True
    with assms(4) show ?thesis by (auto simp: set_empty2 simp flip: set_empty intro!: filter_True [symmetric])
  next
    case False
    have "afterUID < Max (set uids)" if "u \<in> set uids" "afterUID < u" for u
      using less_le_trans [OF that(2) Max_ge [OF finite_set that(1)]] .
    with False show ?thesis by (auto intro!: filter_cong)
  qed
  finally show ?thesis .
qed

section \<open>A concrete server\<close>

definition demo_search :: "u32 list \<Rightarrow> u32 option \<Rightarrow> u32 list" where
  "demo_search uids from =
     (case from of None \<Rightarrow> uids | Some a \<Rightarrow> filter (\<lambda>u. a \<le> u \<or> u = Max (set uids)) uids)"

definition demo_session :: "u32 list \<Rightarrow> imap_session" where
  "demo_session uids = \<lparr>im_list = Inr [''INBOX''],
     im_status = (\<lambda>_. Inr (Some (of_nat (length uids)), Max (set (0 # uids)) + 1)),
     im_select = (\<lambda>_. Inr (if uids = [] then 0 else 1)),
     im_fetch = (\<lambda>_ u. Inr (if u \<in> set uids then [Some ''raw''] else [])),
     im_search = (\<lambda>_ from. Inr (demo_search uids from)),
     im_idle = Inr (), im_caps = Some [''IDLE'']\<rparr>"

definition demo_net :: "u32 list \<Rightarrow> imap_net" where
  "demo_net uids = \<lparr>net_dial = (\<lambda>_ _. Inr ()), net_tls = (\<lambda>_ _. Inr ()), net_starttls = (\<lambda>_ _. Inr ()),
     net_login = (\<lambda>_ _ _ _. Inr (demo_session uids))\<rparr>"

lemma demo_documented: "search_documented (demo_session uids) folder uids"
  by (simp add: search_documented_def demo_session_def demo_search_def)

lemma demo_logs_in: "logs_in (demo_net uids) host port user password (demo_session uids)"
  by (simp add: logs_in_def demo_net_def)

theorem fetch_uids_after_witness:
  "fst (FetchUIDsAfter (demo_net [3, 5]) ''h'' 993 ''u'' ''p'' ''INBOX'' 7) = Inr [5]
   \<and> fst (FetchUIDsAfter (demo_net [3, 5]) ''h'' 993 ''u'' ''p'' ''INBOX'' 3) = Inr [5]"
  using fetch_uids_after [OF demo_logs_in demo_documented, of 7 "[3, 5]"]
    fetch_uids_after [OF demo_logs_in demo_documented, of 3 "[3, 5]"]
  by (simp add: max_def)

end
