(* ===== verification/SyncEvents.thy ===== *)
theory SyncEvents
  imports Domain
begin

text \<open>
  What \<open>internal/sync\<close> passes between its goroutines: the mailbox events of \<open>idle.go\<close>, Go's
  buffered channels as the package uses them, the IDLE connection that emits events, and an
  abstract machine of goroutines that emit into a shared channel, with the argument that it never
  sends on a closed channel. The pool and the poller implement this machine.
\<close>

section \<open>Events and their configuration\<close>

datatype EventType = EventNewMessage | EventExpunge | EventOther int

fun EventType_String :: "EventType \<Rightarrow> string" where
  "EventType_String EventNewMessage = ''new_message''"
| "EventType_String EventExpunge = ''expunge''"
| "EventType_String (EventOther _) = ''unknown''"

record IdleEvent =
  ie_Type :: EventType
  ie_AccountID :: string
  ie_Folder :: string
  ie_NumMessages :: "u32 option"
  ie_SeqNum :: u32

record IdleConfig =
  icf_AccountID :: string
  icf_Host :: string
  icf_Port :: int
  icf_Username :: string
  icf_Password :: string
  icf_Folder :: string

definition IdleConfig_validate :: "IdleConfig \<Rightarrow> unit res" where
  "IdleConfig_validate c =
     (if icf_AccountID c = [] then Inl (errors_New Other ''account_id is required'')
      else if icf_Host c = [] then Inl (errors_New Other ''host is required'')
      else if icf_Port c \<le> 0 then Inl (errors_New Other ''port must be positive'')
      else if icf_Username c = [] then Inl (errors_New Other ''username is required'')
      else if icf_Password c = [] then Inl (errors_New Other ''password is required'')
      else if icf_Folder c = [] then Inl (errors_New Other ''folder is required'')
      else Inr ())"

definition demo_config :: IdleConfig where
  "demo_config = \<lparr>icf_AccountID = ''1'', icf_Host = ''h'', icf_Port = 993, icf_Username = ''u'',
     icf_Password = ''p'', icf_Folder = ''INBOX''\<rparr>"

definition ErrAlreadyClosed where
  "ErrAlreadyClosed = errors_New (SyncErr SyncAlreadyClosed) ''connection already closed''"
definition ErrPoolClosed where
  "ErrPoolClosed = errors_New (SyncErr SyncPoolClosed) ''pool is closed''"
definition ErrAccountExists where
  "ErrAccountExists = errors_New (SyncErr SyncAccountExists) ''account already exists in pool''"
definition ErrAccountNotFound where
  "ErrAccountNotFound = errors_New (SyncErr SyncAccountNotFound) ''account not found in pool''"
definition ErrPollerClosed where
  "ErrPollerClosed = errors_New (SyncErr SyncPollerClosed) ''poller is closed''"
definition ErrCoordinatorClosed where
  "ErrCoordinatorClosed = errors_New (SyncErr SyncCoordinatorClosed) ''coordinator is closed''"

section \<open>Channels\<close>

text \<open>
  A channel made with \<open>make(chan IdleEvent, 100)\<close>. Sending on a closed channel panics, also inside a
  \<open>select\<close>, and so does closing it twice; the panic is kept in the state so that its absence can
  be proved.
\<close>

record channel =
  ch_buf :: "IdleEvent list"
  ch_closed :: bool
  ch_panicked :: bool

definition event_buffer :: nat where "event_buffer = 100"

definition make_chan :: channel where
  "make_chan = \<lparr>ch_buf = [], ch_closed = False, ch_panicked = False\<rparr>"

text \<open>\<open>select { case ch <- event: default: }\<close> drops the event when the buffer is full.\<close>

definition try_send :: "IdleEvent \<Rightarrow> channel \<Rightarrow> channel" where
  "try_send e c =
     (if ch_closed c then c\<lparr>ch_panicked := True\<rparr>
      else if length (ch_buf c) < event_buffer then c\<lparr>ch_buf := ch_buf c @ [e]\<rparr>
      else c)"

definition chan_close :: "channel \<Rightarrow> channel" where
  "chan_close c = (if ch_closed c then c\<lparr>ch_panicked := True\<rparr> else c\<lparr>ch_closed := True\<rparr>)"

datatype received = Event IdleEvent | Closed | Blocked

definition chan_recv :: "channel \<Rightarrow> received \<times> channel" where
  "chan_recv c =
     (case ch_buf c of
        e # es \<Rightarrow> (Event e, c\<lparr>ch_buf := es\<rparr>)
      | [] \<Rightarrow> (if ch_closed c then Closed else Blocked, c))"

definition chan_ok :: "channel \<Rightarrow> bool" where
  "chan_ok c \<longleftrightarrow> \<not> ch_panicked c \<and> length (ch_buf c) \<le> event_buffer"

lemma chan_ok_make [simp]: "chan_ok make_chan" "ch_closed make_chan = False" "ch_buf make_chan = []"
  by (simp_all add: chan_ok_def make_chan_def)

lemma chan_ok_send: "chan_ok c \<Longrightarrow> \<not> ch_closed c \<Longrightarrow> chan_ok (try_send e c)"
  by (simp add: chan_ok_def try_send_def)

lemma chan_ok_close: "chan_ok c \<Longrightarrow> \<not> ch_closed c \<Longrightarrow> chan_ok (chan_close c)"
  by (simp add: chan_ok_def chan_close_def)

lemma chan_ok_recv: "chan_ok c \<Longrightarrow> chan_ok (snd (chan_recv c))"
  by (cases "ch_buf c") (simp_all add: chan_ok_def chan_recv_def)

lemma chan_closed_simps [simp]:
  "ch_closed (try_send e c) = ch_closed c" "ch_closed (snd (chan_recv c)) = ch_closed c"
  "ch_closed (chan_close c)"
  by (auto simp: try_send_def chan_recv_def chan_close_def split: list.splits)

section \<open>The IDLE connection\<close>

record IdleConnection =
  icn_config :: IdleConfig
  icn_events :: channel
  icn_closed :: bool

definition new_IdleConnection :: "IdleConfig \<Rightarrow> IdleConnection" where
  "new_IdleConnection config = \<lparr>icn_config = config, icn_events = make_chan, icn_closed = False\<rparr>"

text \<open>The two callbacks of the IMAP library. They hold the connection's mutex from the test of
  \<open>closed\<close> to the send, and \<open>Close\<close> holds it while it closes the channel.\<close>

definition handleMailboxUpdate :: "u32 option \<Rightarrow> IdleConnection \<Rightarrow> IdleConnection" where
  "handleMailboxUpdate numMessages ic =
     (case numMessages of
        None \<Rightarrow> ic
      | Some n \<Rightarrow>
          (if icn_closed ic then ic
           else ic\<lparr>icn_events := try_send
                 \<lparr>ie_Type = EventNewMessage, ie_AccountID = icf_AccountID (icn_config ic),
                  ie_Folder = icf_Folder (icn_config ic), ie_NumMessages = numMessages, ie_SeqNum = 0\<rparr>
                 (icn_events ic)\<rparr>))"

definition handleExpunge :: "u32 \<Rightarrow> IdleConnection \<Rightarrow> IdleConnection" where
  "handleExpunge seqNum ic =
     (if icn_closed ic then ic
      else ic\<lparr>icn_events := try_send
            \<lparr>ie_Type = EventExpunge, ie_AccountID = icf_AccountID (icn_config ic),
             ie_Folder = icf_Folder (icn_config ic), ie_NumMessages = None, ie_SeqNum = seqNum\<rparr>
            (icn_events ic)\<rparr>)"

definition errors_Join :: "goerror list \<Rightarrow> goerror" where
  "errors_Join errs = \<lparr>causes = concat (map causes errs), msg = Join (map msg errs) [CHR 0x0A]\<rparr>"

text \<open>\<open>errs\<close> are the errors of ending IDLE, of the logout and of closing the socket.\<close>

definition IdleConnection_Close :: "goerror list \<Rightarrow> IdleConnection \<Rightarrow> unit res \<times> IdleConnection" where
  "IdleConnection_Close errs ic =
     (if icn_closed ic then (Inl ErrAlreadyClosed, ic)
      else (if errs = [] then Inr () else Inl (errors_Join errs),
            ic\<lparr>icn_closed := True, icn_events := chan_close (icn_events ic)\<rparr>))"

text \<open>A connection's channel is open exactly as long as the connection is.\<close>

definition connection_ok :: "IdleConnection \<Rightarrow> bool" where
  "connection_ok ic \<longleftrightarrow> chan_ok (icn_events ic) \<and> ch_closed (icn_events ic) = icn_closed ic"

lemma connection_ok_new: "connection_ok (new_IdleConnection config)"
  by (simp add: connection_ok_def new_IdleConnection_def)

lemma connection_ok_step:
  assumes "connection_ok ic"
  shows "connection_ok (handleMailboxUpdate n ic)" "connection_ok (handleExpunge q ic)"
    "connection_ok (snd (IdleConnection_Close errs ic))"
    "connection_ok (ic\<lparr>icn_events := snd (chan_recv (icn_events ic))\<rparr>)"
  using assms chan_ok_send chan_ok_close chan_ok_recv
  by (auto simp: connection_ok_def handleMailboxUpdate_def handleExpunge_def IdleConnection_Close_def
      split: option.splits)

section \<open>Goroutines that emit into one channel\<close>

text \<open>
  What the pool and the poller have in common. A goroutine per account is busy, or has tested the
  closed flag and is about to send, or has returned. \<open>RemoveAccount\<close> takes an account out of
  the map and then waits for its goroutine; \<open>Close\<close> sets the flag, empties the map, waits for the
  goroutines that were in it and closes the channel. \<open>exclusive\<close> says that \<open>Close\<close> is
  not called while a \<open>RemoveAccount\<close> waits.
\<close>

datatype phase = Busy | Sending IdleEvent | Finished

record hub =
  hb_events :: channel
  hb_closed :: bool
  hb_registered :: "nat set"
  hb_removing :: "nat set"
  hb_closing :: "nat set option"
  hb_phase :: "nat \<Rightarrow> phase option"

definition new_hub :: hub where
  "new_hub = \<lparr>hb_events = make_chan, hb_closed = False, hb_registered = {}, hb_removing = {},
     hb_closing = None, hb_phase = (\<lambda>_. None)\<rparr>"

inductive hub_step :: "bool \<Rightarrow> hub \<Rightarrow> hub \<Rightarrow> bool" for exclusive where
  receive: "hub_step exclusive h (h\<lparr>hb_events := snd (chan_recv (hb_events h))\<rparr>)"
| add: "\<not> hb_closed h \<Longrightarrow> hb_phase h n = None \<Longrightarrow>
    hub_step exclusive h (h\<lparr>hb_registered := insert n (hb_registered h), hb_phase := (hb_phase h)(n \<mapsto> Busy)\<rparr>)"
| remove: "\<not> hb_closed h \<Longrightarrow> n \<in> hb_registered h \<Longrightarrow>
    hub_step exclusive h (h\<lparr>hb_registered := hb_registered h - {n}, hb_removing := insert n (hb_removing h)\<rparr>)"
| removed: "n \<in> hb_removing h \<Longrightarrow> hb_phase h n = Some Finished \<Longrightarrow>
    hub_step exclusive h (h\<lparr>hb_removing := hb_removing h - {n}\<rparr>)"
| emit: "hb_phase h n = Some Busy \<Longrightarrow> \<not> hb_closed h \<Longrightarrow>
    hub_step exclusive h (h\<lparr>hb_phase := (hb_phase h)(n \<mapsto> Sending e)\<rparr>)"
| send: "hb_phase h n = Some (Sending e) \<Longrightarrow>
    hub_step exclusive h (h\<lparr>hb_events := try_send e (hb_events h), hb_phase := (hb_phase h)(n \<mapsto> Busy)\<rparr>)"
| finish: "hb_phase h n = Some Busy \<Longrightarrow>
    hub_step exclusive h (h\<lparr>hb_phase := (hb_phase h)(n \<mapsto> Finished)\<rparr>)"
| close: "\<not> hb_closed h \<Longrightarrow> (exclusive \<longrightarrow> hb_removing h = {}) \<Longrightarrow>
    hub_step exclusive h (h\<lparr>hb_closed := True, hb_closing := Some (hb_registered h), hb_registered := {}\<rparr>)"
| closed: "hb_closing h = Some waits \<Longrightarrow> \<forall>n\<in>waits. hb_phase h n = Some Finished \<Longrightarrow>
    hub_step exclusive h (h\<lparr>hb_closing := None, hb_events := chan_close (hb_events h)\<rparr>)"

definition live :: "(nat \<Rightarrow> phase option) \<Rightarrow> nat \<Rightarrow> bool" where
  "live phases n \<longleftrightarrow> phases n \<noteq> None \<and> phases n \<noteq> Some Finished"

definition hub_ok :: "hub \<Rightarrow> bool" where
  "hub_ok h \<longleftrightarrow> chan_ok (hb_events h)
     \<and> (\<forall>n. live (hb_phase h) n \<longrightarrow>
          n \<in> hb_registered h \<or> n \<in> hb_removing h \<or> (\<exists>waits. hb_closing h = Some waits \<and> n \<in> waits))
     \<and> (hb_closed h \<longrightarrow> hb_registered h = {} \<and> hb_removing h = {})
     \<and> (\<not> hb_closed h \<longrightarrow> hb_closing h = None)
     \<and> ch_closed (hb_events h) = (hb_closed h \<and> hb_closing h = None)"

lemma hub_ok_new: "hub_ok new_hub"
  by (simp add: hub_ok_def live_def new_hub_def)

lemma live_upd [simp]: "live (ph(m \<mapsto> p)) n = (if n = m then p \<noteq> Finished else live ph n)"
  by (simp add: live_def)

lemma hub_open_while_live: "hub_ok h \<Longrightarrow> live (hb_phase h) n \<Longrightarrow> \<not> ch_closed (hb_events h)"
  by (auto simp: hub_ok_def)

lemma hub_ok_step: "hub_step True h h' \<Longrightarrow> hub_ok h \<Longrightarrow> hub_ok h'"
proof (induction rule: hub_step.induct)
  case (receive h)
  then show ?case by (simp add: hub_ok_def chan_ok_recv)
next
  case (add h n)
  then show ?case by (auto simp: hub_ok_def)
next
  case (remove h n)
  then show ?case by (auto simp: hub_ok_def)
next
  case (removed n h)
  then have "\<not> live (hb_phase h) n" by (simp add: live_def)
  with removed show ?case by (auto simp: hub_ok_def)
next
  case (emit h n e)
  then have "live (hb_phase h) n" by (simp add: live_def)
  with emit show ?case by (auto simp: hub_ok_def)
next
  case (send h n e)
  then have "live (hb_phase h) n" by (simp add: live_def)
  with send chan_ok_send hub_open_while_live [OF send(2)] show ?case by (auto simp: hub_ok_def)
next
  case (finish h n)
  then show ?case by (auto simp: hub_ok_def)
next
  case (close h)
  then show ?case by (auto simp: hub_ok_def)
next
  case (closed h waits)
  then have "\<not> live (hb_phase h) n" if "n \<in> waits" for n using that by (simp add: live_def)
  moreover have "\<not> ch_closed (hb_events h)" "hb_closed h" using closed by (auto simp: hub_ok_def)
  ultimately show ?case using closed chan_ok_close by (auto simp: hub_ok_def)
qed

lemma Ball_update_others:
  assumes "\<And>m. m < length xs \<Longrightarrow> m \<noteq> n \<Longrightarrow> P (xs ! m)" and "P y"
  shows "\<forall>x\<in>set (xs[n := y]). P x"
proof
  fix x assume "x \<in> set (xs[n := y])"
  then obtain i where "i < length xs" "x = xs[n := y] ! i" by (auto simp: in_set_conv_nth)
  with assms show "P x" by (cases "i = n") auto
qed

lemma Ball_update: "\<forall>x\<in>set xs. P x \<Longrightarrow> P y \<Longrightarrow> \<forall>x\<in>set (xs[n := y]). P x"
  by (rule Ball_update_others) simp_all

text \<open>The goroutines of a component as a list of entries, and the map from accounts to entries.\<close>

definition entry_phases :: "('e \<Rightarrow> phase) \<Rightarrow> 'e list \<Rightarrow> nat \<Rightarrow> phase option" where
  "entry_phases ph es n = (if n < length es then Some (ph (es ! n)) else None)"

lemma entry_phases_update [simp]:
  "n < length es \<Longrightarrow> entry_phases ph (es[n := e]) = (entry_phases ph es)(n \<mapsto> ph e)"
  by (auto simp: entry_phases_def fun_eq_iff)

lemma entry_phases_append [simp]:
  "entry_phases ph (es @ [e]) = (entry_phases ph es)(length es \<mapsto> ph e)"
  by (auto simp: entry_phases_def fun_eq_iff nth_append)

lemma entry_phases_length [simp]:
  "entry_phases ph es (length es) = None" "n < length es \<Longrightarrow> entry_phases ph es n = Some (ph (es ! n))"
  by (simp_all add: entry_phases_def)

lemma entry_phases_Nil [simp]: "entry_phases ph [] = (\<lambda>_. None)"
  by (simp add: entry_phases_def fun_eq_iff)

lemma entry_phases_same:
  "n < length es \<Longrightarrow> ph e = ph (es ! n) \<Longrightarrow> (entry_phases ph es)(n \<mapsto> ph e) = entry_phases ph es"
  by (auto simp: entry_phases_def fun_eq_iff)

definition accounts_ok :: "(string \<times> nat) list \<Rightarrow> nat \<Rightarrow> bool" where
  "accounts_ok accounts entries \<longleftrightarrow> distinct (map fst accounts) \<and> distinct (map snd accounts)
     \<and> (\<forall>n\<in>snd ` set accounts. n < entries)"

lemma accounts_ok_add:
  "accounts_ok accounts n \<Longrightarrow> a \<notin> fst ` set accounts \<Longrightarrow> accounts_ok (accounts @ [(a, n)]) (Suc n)"
  by (auto simp: accounts_ok_def less_Suc_eq)

lemma accounts_ok_remove:
  assumes "accounts_ok accounts n" and "map_of accounts a = Some m"
  shows "accounts_ok (filter (\<lambda>x. fst x \<noteq> a) accounts) n"
    and "snd ` {x \<in> set accounts. fst x \<noteq> a} = snd ` set accounts - {m}"
    and "m \<in> snd ` set accounts"
proof -
  have m: "(a, m) \<in> set accounts" using map_of_SomeD [OF assms(2)] .
  then show "m \<in> snd ` set accounts" by force
  have d: "distinct (map fst accounts)" "distinct (map snd accounts)"
    using assms(1) by (simp_all add: accounts_ok_def)
  have "fst x \<noteq> a \<longleftrightarrow> snd x \<noteq> m" if "x \<in> set accounts" for x
    using distinct_map_filter_inj [OF d(1) that m] distinct_map_filter_inj [OF d(2) that m]
    by (cases x) auto
  then show "snd ` {x \<in> set accounts. fst x \<noteq> a} = snd ` set accounts - {m}"
    by blast
  show "accounts_ok (filter (\<lambda>x. fst x \<noteq> a) accounts) n"
    using assms(1) by (auto simp: accounts_ok_def distinct_map_filter)
qed

text \<open>
  A component whose steps are steps of the machine, in states that satisfy its own invariant.
\<close>

locale hub_source =
  fixes view :: "'s \<Rightarrow> hub" and step :: "bool \<Rightarrow> 's \<Rightarrow> 's \<Rightarrow> bool" and ok :: "'s \<Rightarrow> bool" and init :: 's
  assumes view_init: "view init = new_hub" and ok_init: "ok init"
    and ok_step: "step x s s' \<Longrightarrow> ok s \<Longrightarrow> ok s'"
    and simulation: "step x s s' \<Longrightarrow> ok s \<Longrightarrow> view s' = view s \<or> hub_step x (view s) (view s')"
begin

lemma reachable_ok: "(step x)\<^sup>*\<^sup>* init s \<Longrightarrow> ok s"
  by (induction rule: rtranclp_induct) (auto intro: ok_init ok_step)

lemma reachable_hub: "(step x)\<^sup>*\<^sup>* init s \<Longrightarrow> (hub_step x)\<^sup>*\<^sup>* new_hub (view s)"
proof (induction rule: rtranclp_induct)
  case base
  show ?case by (simp add: view_init)
next
  case (step s s')
  from simulation [OF step(2) reachable_ok [OF step(1)]] step(3) show ?case
    by (metis rtranclp.rtrancl_into_rtrancl)
qed

lemma reachable_hub_ok: "(step True)\<^sup>*\<^sup>* init s \<Longrightarrow> hub_ok (view s)"
proof (induction rule: rtranclp_induct)
  case base
  show ?case by (simp add: view_init hub_ok_new)
next
  case (step s s')
  from simulation [OF step(2) reachable_ok [OF step(1)]] step(3) show ?case
    using hub_ok_step by metis
qed

lemma never_panics: "(step True)\<^sup>*\<^sup>* init s \<Longrightarrow> \<not> ch_panicked (hb_events (view s)) \<and> length (ch_buf (hb_events (view s))) \<le> event_buffer"
  using reachable_hub_ok [of s] by (simp add: hub_ok_def chan_ok_def)

lemma closed_after_all: "(step True)\<^sup>*\<^sup>* init s \<Longrightarrow> ch_closed (hb_events (view s)) \<Longrightarrow> \<not> live (hb_phase (view s)) n"
  using reachable_hub_ok [of s] hub_open_while_live by blast

end

end
