(* ===== verification/Poller.thy ===== *)
theory Poller
  imports SyncEvents
begin

text \<open>
  \<open>internal/sync/poller.go\<close>: a goroutine per account that asks the server for the folder's status at
  an interval and emits an event when it shows new mail. \<open>pc\<close> is where the goroutine stands in
  \<open>runPoller\<close>, \<open>poll\<close> and \<open>emitEvent\<close>; the critical sections under the mutex are single steps.
\<close>

section \<open>State\<close>

record folderStatus =
  fs_uidNext :: u32
  fs_numMessages :: u32

datatype poller_pc = AtPoll | AtEmit u32 | AtSend u32 | AtSelect | Returned

record pollerEntry =
  ple_config :: IdleConfig
  ple_uidNext :: u32
  ple_numMessages :: u32
  ple_initialized :: bool
  ple_failedPolls :: int
  ple_stopped :: bool
  ple_pc :: poller_pc

text \<open>The map \<open>accounts\<close> holds references to the entries; an entry is its position in the list of
  all entries ever made. \<open>removing\<close> and \<open>closing\<close> are the entries whose goroutines a \<open>RemoveAccount\<close>
  or the \<open>Close\<close> is waiting for.\<close>

record Poller =
  pl_interval :: int
  pl_events :: channel
  pl_accounts :: "(string \<times> nat) list"
  pl_closed :: bool
  pl_cancelled :: bool
  pl_entries :: "pollerEntry list"
  pl_removing :: "nat list"
  pl_closing :: "nat list option"

definition sync_DefaultPollInterval :: int where "sync_DefaultPollInterval = 60 * second"
definition minPollInterval :: int where "minPollInterval = 10 * second"

definition NewPoller :: "int \<Rightarrow> Poller" where
  "NewPoller interval =
     \<lparr>pl_interval = (if interval < minPollInterval then sync_DefaultPollInterval else interval),
      pl_events = make_chan, pl_accounts = [], pl_closed = False, pl_cancelled = False,
      pl_entries = [], pl_removing = [], pl_closing = None\<rparr>"

section \<open>Operations\<close>

definition new_pollerEntry :: "IdleConfig \<Rightarrow> pollerEntry" where
  "new_pollerEntry config =
     \<lparr>ple_config = config, ple_uidNext = 0, ple_numMessages = 0, ple_initialized = False,
      ple_failedPolls = 0, ple_stopped = False, ple_pc = AtPoll\<rparr>"

definition Poller_AddAccount :: "IdleConfig \<Rightarrow> Poller \<Rightarrow> unit res \<times> Poller" where
  "Poller_AddAccount config p =
     (case IdleConfig_validate config of
        Inl e \<Rightarrow> (Inl e, p)
      | Inr _ \<Rightarrow>
          if pl_closed p then (Inl ErrPollerClosed, p)
          else if icf_AccountID config \<in> fst ` set (pl_accounts p) then (Inl ErrAccountExists, p)
          else (Inr (), p\<lparr>pl_accounts := pl_accounts p @ [(icf_AccountID config, length (pl_entries p))],
                          pl_entries := pl_entries p @ [new_pollerEntry config]\<rparr>))"

text \<open>The part of \<open>RemoveAccount\<close> under the lock, which yields the entry to stop and wait for.\<close>

definition Poller_RemoveAccount :: "string \<Rightarrow> Poller \<Rightarrow> nat res \<times> Poller" where
  "Poller_RemoveAccount accountID p =
     (if pl_closed p then (Inl ErrPollerClosed, p)
      else case map_of (pl_accounts p) accountID of
        None \<Rightarrow> (Inl ErrAccountNotFound, p)
      | Some n \<Rightarrow>
          (Inr n, p\<lparr>pl_accounts := filter (\<lambda>a. fst a \<noteq> accountID) (pl_accounts p),
                    pl_removing := pl_removing p @ [n]\<rparr>))"

definition Poller_TotalAccounts :: "Poller \<Rightarrow> nat" where
  "Poller_TotalAccounts p = length (pl_accounts p)"

text \<open>\<open>Close\<close> up to the point where it waits, and after.\<close>

definition Poller_Close :: "Poller \<Rightarrow> unit res \<times> Poller" where
  "Poller_Close p =
     (if pl_closed p then (Inl ErrAlreadyClosed, p)
      else (Inr (), p\<lparr>pl_closed := True, pl_cancelled := True,
                      pl_closing := Some (map snd (pl_accounts p)), pl_accounts := []\<rparr>))"

definition Poller_Close_end :: "Poller \<Rightarrow> Poller" where
  "Poller_Close_end p = p\<lparr>pl_closing := None, pl_events := chan_close (pl_events p)\<rparr>"

definition poller_event :: "pollerEntry \<Rightarrow> u32 \<Rightarrow> IdleEvent" where
  "poller_event entry numMessages =
     \<lparr>ie_Type = EventNewMessage, ie_AccountID = icf_AccountID (ple_config entry),
      ie_Folder = icf_Folder (ple_config entry), ie_NumMessages = Some numMessages, ie_SeqNum = 0\<rparr>"

text \<open>\<open>poll\<close> on the outcome of the status request: the goroutine's new state, and the message count of
  the event to emit, if one is.\<close>

definition poll :: "folderStatus res \<Rightarrow> pollerEntry \<Rightarrow> pollerEntry \<times> u32 option" where
  "poll status entry =
     (case status of
        Inl _ \<Rightarrow>
          (if \<not> ple_initialized entry then entry\<lparr>ple_failedPolls := ple_failedPolls entry + 1\<rparr> else entry, None)
      | Inr st \<Rightarrow>
          (if \<not> ple_initialized entry
           then (entry\<lparr>ple_uidNext := fs_uidNext st, ple_numMessages := fs_numMessages st, ple_initialized := True\<rparr>,
                 if ple_failedPolls entry > 0 \<and> fs_numMessages st > 0 then Some (fs_numMessages st) else None)
           else (entry\<lparr>ple_uidNext := fs_uidNext st, ple_numMessages := fs_numMessages st\<rparr>,
                 if fs_uidNext st > ple_uidNext entry \<or> fs_numMessages st > ple_numMessages entry
                 then Some (fs_numMessages st) else None)))"

definition set_entry :: "nat \<Rightarrow> pollerEntry \<Rightarrow> Poller \<Rightarrow> Poller" where
  "set_entry n entry p = p\<lparr>pl_entries := (pl_entries p)[n := entry]\<rparr>"

definition goto_pc :: "nat \<Rightarrow> poller_pc \<Rightarrow> Poller \<Rightarrow> Poller" where
  "goto_pc n pc p = set_entry n ((pl_entries p ! n)\<lparr>ple_pc := pc\<rparr>) p"

section \<open>Steps\<close>

text \<open>Any interleaving of the callers, the goroutines and the reader of the events.\<close>

inductive poller_step :: "bool \<Rightarrow> Poller \<Rightarrow> Poller \<Rightarrow> bool" for exclusive where
  add: "Poller_AddAccount config p = (Inr (), p') \<Longrightarrow> poller_step exclusive p p'"
| remove: "Poller_RemoveAccount acc p = (Inr n, p') \<Longrightarrow> poller_step exclusive p p'"
| stop: "n < length (pl_entries p) \<Longrightarrow> n \<in> set (pl_removing p) \<or> (\<exists>ns. pl_closing p = Some ns \<and> n \<in> set ns) \<Longrightarrow>
    poller_step exclusive p (set_entry n ((pl_entries p ! n)\<lparr>ple_stopped := True\<rparr>) p)"
| removed: "n \<in> set (pl_removing p) \<Longrightarrow> n < length (pl_entries p) \<Longrightarrow> ple_pc (pl_entries p ! n) = Returned \<Longrightarrow>
    poller_step exclusive p (p\<lparr>pl_removing := filter (\<lambda>m. m \<noteq> n) (pl_removing p)\<rparr>)"
| close: "Poller_Close p = (Inr (), p') \<Longrightarrow> (exclusive \<longrightarrow> pl_removing p = []) \<Longrightarrow> poller_step exclusive p p'"
| close_end: "pl_closing p = Some ns \<Longrightarrow>
    \<forall>n\<in>set ns. n < length (pl_entries p) \<and> ple_pc (pl_entries p ! n) = Returned \<Longrightarrow>
    poller_step exclusive p (Poller_Close_end p)"
| polled: "n < length (pl_entries p) \<Longrightarrow> ple_pc (pl_entries p ! n) = AtPoll \<Longrightarrow>
    poll status (pl_entries p ! n) = (entry, event) \<Longrightarrow>
    poller_step exclusive p (set_entry n (entry\<lparr>ple_pc := case event of None \<Rightarrow> AtSelect | Some k \<Rightarrow> AtEmit k\<rparr>) p)"
| emit: "n < length (pl_entries p) \<Longrightarrow> ple_pc (pl_entries p ! n) = AtEmit k \<Longrightarrow>
    poller_step exclusive p (goto_pc n (if pl_closed p then AtSelect else AtSend k) p)"
| send: "n < length (pl_entries p) \<Longrightarrow> ple_pc (pl_entries p ! n) = AtSend k \<Longrightarrow>
    poller_step exclusive p
      (goto_pc n AtSelect (p\<lparr>pl_events := try_send (poller_event (pl_entries p ! n) k) (pl_events p)\<rparr>))"
| tick: "n < length (pl_entries p) \<Longrightarrow> ple_pc (pl_entries p ! n) = AtSelect \<Longrightarrow>
    poller_step exclusive p (goto_pc n AtPoll p)"
| return: "n < length (pl_entries p) \<Longrightarrow> ple_pc (pl_entries p ! n) = AtSelect \<Longrightarrow>
    ple_stopped (pl_entries p ! n) \<or> pl_cancelled p \<Longrightarrow> poller_step exclusive p (goto_pc n Returned p)"
| receive: "poller_step exclusive p (p\<lparr>pl_events := snd (chan_recv (pl_events p))\<rparr>)"

section \<open>The poller as a hub\<close>

definition poller_phase :: "pollerEntry \<Rightarrow> phase" where
  "poller_phase entry =
     (case ple_pc entry of AtSend k \<Rightarrow> Sending (poller_event entry k) | Returned \<Rightarrow> Finished | _ \<Rightarrow> Busy)"

definition poller_view :: "Poller \<Rightarrow> hub" where
  "poller_view p = \<lparr>hb_events = pl_events p, hb_closed = pl_closed p,
     hb_registered = snd ` set (pl_accounts p), hb_removing = set (pl_removing p),
     hb_closing = map_option set (pl_closing p),
     hb_phase = entry_phases poller_phase (pl_entries p)\<rparr>"

definition poller_ok :: "Poller \<Rightarrow> bool" where
  "poller_ok p \<longleftrightarrow> accounts_ok (pl_accounts p) (length (pl_entries p))
     \<and> (\<forall>n\<in>set (pl_removing p). n < length (pl_entries p))
     \<and> (\<forall>ns. pl_closing p = Some ns \<longrightarrow> pl_cancelled p \<and> (\<forall>n\<in>set ns. n < length (pl_entries p)))"

lemma poller_view_set_entry:
  "n < length (pl_entries p) \<Longrightarrow>
     poller_view (set_entry n e p) = (poller_view p)\<lparr>hb_phase := (hb_phase (poller_view p))(n \<mapsto> poller_phase e)\<rparr>"
  by (simp add: poller_view_def set_entry_def)

lemma poller_view_same:
  "n < length (pl_entries p) \<Longrightarrow> poller_phase e = poller_phase (pl_entries p ! n) \<Longrightarrow>
     poller_view (set_entry n e p) = poller_view p"
  by (simp add: poller_view_set_entry) (simp add: poller_view_def entry_phases_same)

lemma poller_phase_view: "n < length (pl_entries p) \<Longrightarrow> hb_phase (poller_view p) n = Some (poller_phase (pl_entries p ! n))"
  by (simp add: poller_view_def)

lemma poll_config [simp]: "poll status e = (e', ev) \<Longrightarrow> ple_config e' = ple_config e"
  by (auto simp: poll_def split: sum.splits if_splits)

lemma poller_ok_step: "poller_step x p p' \<Longrightarrow> poller_ok p \<Longrightarrow> poller_ok p'"
proof (induction rule: poller_step.induct)
  case (add config p p')
  then show ?case
    by (auto simp: Poller_AddAccount_def poller_ok_def accounts_ok_add less_Suc_eq split: sum.splits if_splits)
next
  case (remove acc p n p')
  then have c: "map_of (pl_accounts p) acc = Some n"
    and p': "p' = p\<lparr>pl_accounts := filter (\<lambda>a. fst a \<noteq> acc) (pl_accounts p), pl_removing := pl_removing p @ [n]\<rparr>"
    by (auto simp: Poller_RemoveAccount_def split: option.splits if_splits)
  note r = accounts_ok_remove [OF conjunct1 [OF remove(2) [unfolded poller_ok_def]] c]
  then have "n < length (pl_entries p)" using remove(2) by (auto simp: poller_ok_def accounts_ok_def)
  with r(1) remove(2) show ?case by (auto simp: p' poller_ok_def)
next
  case (close p p')
  then show ?case by (force simp: Poller_Close_def poller_ok_def accounts_ok_def split: if_splits)
qed (simp_all add: poller_ok_def set_entry_def goto_pc_def Poller_Close_end_def)

lemma poller_simulation:
  "poller_step x p p' \<Longrightarrow> poller_ok p \<Longrightarrow> poller_view p' = poller_view p \<or> hub_step x (poller_view p) (poller_view p')"
proof (induction rule: poller_step.induct)
  case (add config p p')
  then have c: "\<not> pl_closed p" and p': "p' = p\<lparr>pl_accounts := pl_accounts p @ [(icf_AccountID config, length (pl_entries p))],
      pl_entries := pl_entries p @ [new_pollerEntry config]\<rparr>"
    by (auto simp: Poller_AddAccount_def split: sum.splits if_splits)
  have "hub_step x (poller_view p) (poller_view p')"
    using hub_step.add [of "poller_view p" "length (pl_entries p)" x] c
    by (simp add: p' poller_view_def poller_phase_def new_pollerEntry_def)
  then show ?case by simp
next
  case (remove acc p n p')
  then have c: "\<not> pl_closed p" "map_of (pl_accounts p) acc = Some n"
    and p': "p' = p\<lparr>pl_accounts := filter (\<lambda>a. fst a \<noteq> acc) (pl_accounts p), pl_removing := pl_removing p @ [n]\<rparr>"
    by (auto simp: Poller_RemoveAccount_def split: option.splits if_splits)
  note r = accounts_ok_remove [OF conjunct1 [OF remove(2) [unfolded poller_ok_def]] c(2)]
  have "hub_step x (poller_view p) (poller_view p')"
    using hub_step.remove [of "poller_view p" n x] c(1) r(3)
    by (simp add: p' poller_view_def r(2))
  then show ?case by simp
next
  case (stop n p)
  then show ?case by (simp add: poller_view_same poller_phase_def poller_event_def cong: poller_pc.case_cong)
next
  case (removed n p)
  have "hub_step x (poller_view p) (poller_view (p\<lparr>pl_removing := filter (\<lambda>m. m \<noteq> n) (pl_removing p)\<rparr>))"
    using hub_step.removed [of n "poller_view p" x] removed poller_phase_view [of n p]
    by (simp add: poller_view_def poller_phase_def set_diff_eq)
  then show ?case by simp
next
  case (close p p')
  then have c: "\<not> pl_closed p" and p': "p' = p\<lparr>pl_closed := True, pl_cancelled := True,
      pl_closing := Some (map snd (pl_accounts p)), pl_accounts := []\<rparr>"
    by (auto simp: Poller_Close_def split: if_splits)
  have "hub_step x (poller_view p) (poller_view p')"
    using hub_step.close [of "poller_view p" x] c close(2) by (simp add: p' poller_view_def)
  then show ?case by simp
next
  case (close_end p ns)
  have "hub_step x (poller_view p) (poller_view (Poller_Close_end p))"
    using hub_step.closed [of "poller_view p" "set ns" x] close_end
    by (simp add: poller_view_def Poller_Close_end_def poller_phase_def)
  then show ?case by simp
next
  case (polled n p status entry event)
  have "poller_phase (pl_entries p ! n) = Busy" using polled(2) by (simp add: poller_phase_def)
  then show ?case using polled by (simp add: poller_view_same poller_phase_def split: option.splits)
next
  case (emit n p k)
  have b: "poller_phase (pl_entries p ! n) = Busy" using emit(2) by (simp add: poller_phase_def)
  show ?case
  proof (cases "pl_closed p")
    case True
    then show ?thesis using emit b by (simp add: goto_pc_def poller_view_same poller_phase_def)
  next
    case False
    then show ?thesis
      using hub_step.emit [of "poller_view p" n x "poller_event (pl_entries p ! n) k"] emit b
      by (simp add: goto_pc_def poller_view_set_entry poller_phase_view)
        (simp add: poller_view_def poller_phase_def poller_event_def)
  qed
next
  case (send n p k)
  let ?e = "poller_event (pl_entries p ! n) k"
  have b: "poller_phase (pl_entries p ! n) = Sending ?e" using send(2) by (simp add: poller_phase_def)
  have "hub_step x (poller_view p) (poller_view (goto_pc n AtSelect (p\<lparr>pl_events := try_send ?e (pl_events p)\<rparr>)))"
    using hub_step.send [of "poller_view p" n ?e x] send b
    by (simp add: goto_pc_def poller_view_set_entry poller_phase_view)
      (simp add: poller_view_def poller_phase_def)
  then show ?case by simp
next
  case (tick n p)
  then show ?case by (simp add: goto_pc_def poller_view_same poller_phase_def)
next
  case (return n p)
  have b: "poller_phase (pl_entries p ! n) = Busy" using return(2) by (simp add: poller_phase_def)
  have "hub_step x (poller_view p) (poller_view (goto_pc n Returned p))"
    using hub_step.finish [of "poller_view p" n x] return b
    by (simp add: goto_pc_def poller_view_set_entry poller_phase_view) (simp add: poller_phase_def)
  then show ?case by simp
next
  case (receive p)
  have "hub_step x (poller_view p) (poller_view (p\<lparr>pl_events := snd (chan_recv (pl_events p))\<rparr>))"
    using hub_step.receive [of x "poller_view p"] by (simp add: poller_view_def)
  then show ?case by simp
qed

lemma poller_view_new: "poller_view (NewPoller i) = new_hub" and poller_ok_new: "poller_ok (NewPoller i)"
  by (simp_all add: poller_view_def NewPoller_def new_hub_def entry_phases_def poller_ok_def accounts_ok_def)

interpretation poller: hub_source poller_view poller_step poller_ok "NewPoller i" for i
  by unfold_locales (auto simp: poller_view_new poller_ok_new poller_ok_step dest: poller_simulation)

section \<open>Safety\<close>

lemma poller_all_returned:
  assumes "(poller_step True)\<^sup>*\<^sup>* (NewPoller interval) p" and closed: "ch_closed (pl_events p)" and entry: "entry \<in> set (pl_entries p)"
  shows "ple_pc entry = Returned"
proof -
  from entry obtain n where n: "n < length (pl_entries p)" "entry = pl_entries p ! n" by (auto simp: in_set_conv_nth)
  from poller.closed_after_all [OF assms(1), of n] closed have "\<not> live (hb_phase (poller_view p)) n"
    by (simp add: poller_view_def)
  then show ?thesis using n
    by (simp add: live_def poller_phase_view poller_phase_def split: poller_pc.splits)
qed

text \<open>C22: As long as \<open>Close\<close> is not called while a \<open>RemoveAccount\<close> is waiting, no interleaving of the
  poller's callers and goroutines sends on its closed channel or closes it twice, at most a hundred
  events wait in it, and it is closed only after every goroutine has returned.\<close>

theorem poller_never_panics:
  assumes "(poller_step True)\<^sup>*\<^sup>* (NewPoller interval) p"
  shows "\<not> ch_panicked (pl_events p) \<and> length (ch_buf (pl_events p)) \<le> event_buffer
    \<and> (ch_closed (pl_events p) \<longrightarrow> (\<forall>entry\<in>set (pl_entries p). ple_pc entry = Returned))"
  using poller.never_panics [OF assms] poller_all_returned [OF assms] by (simp add: poller_view_def)

text \<open>C23: Without that restriction it can: \<open>RemoveAccount\<close> takes an account out of the map while its
  goroutine is between the test of the closed flag and the send; a \<open>Close\<close> at that moment does not
  know the goroutine, closes the channel at once, and the send panics.\<close>

theorem poller_close_race:
  "\<exists>p. (poller_step False)\<^sup>*\<^sup>* (NewPoller minPollInterval) p \<and> ch_panicked (pl_events p)"
proof -
  define c where "c = \<lparr>icf_AccountID = ''a'', icf_Host = ''h'', icf_Port = 993, icf_Username = ''u'',
    icf_Password = ''p'', icf_Folder = ''INBOX''\<rparr>"
  define e where "e pc = \<lparr>ple_config = c, ple_uidNext = 2, ple_numMessages = 1, ple_initialized = True,
    ple_failedPolls = 1, ple_stopped = False, ple_pc = pc\<rparr>" for pc
  define p where "p ch accs closed entries removing closing =
    \<lparr>pl_interval = minPollInterval, pl_events = ch, pl_accounts = accs, pl_closed = closed, pl_cancelled = closed,
     pl_entries = entries, pl_removing = removing, pl_closing = closing\<rparr>" for ch accs closed entries removing closing
  let ?new = "new_pollerEntry c" and ?accs = "[(''a'', 0)]"
  let ?shut = "make_chan\<lparr>ch_closed := True\<rparr>"
  have s1: "poller_step False (NewPoller minPollInterval) (p make_chan ?accs False [?new] [] None)"
    by (rule poller_step.add [where config = c])
      (simp add: p_def c_def NewPoller_def Poller_AddAccount_def IdleConfig_validate_def)
  have s2: "poller_step False (p make_chan ?accs False [?new] [] None)
      (p make_chan ?accs False [?new\<lparr>ple_failedPolls := 1, ple_pc := AtSelect\<rparr>] [] None)"
    using poller_step.polled [of 0 "p make_chan ?accs False [?new] [] None" "Inl (errors_New Other [])" _ _ False]
    by (simp add: p_def new_pollerEntry_def poll_def set_entry_def)
  have s3: "poller_step False (p make_chan ?accs False [?new\<lparr>ple_failedPolls := 1, ple_pc := AtSelect\<rparr>] [] None)
      (p make_chan ?accs False [?new\<lparr>ple_failedPolls := 1\<rparr>] [] None)"
    using poller_step.tick [of 0 "p make_chan ?accs False [?new\<lparr>ple_failedPolls := 1, ple_pc := AtSelect\<rparr>] [] None" False]
    by (simp add: p_def new_pollerEntry_def goto_pc_def set_entry_def)
  have s4: "poller_step False (p make_chan ?accs False [?new\<lparr>ple_failedPolls := 1\<rparr>] [] None)
      (p make_chan ?accs False [e (AtEmit 1)] [] None)"
    using poller_step.polled [of 0 "p make_chan ?accs False [?new\<lparr>ple_failedPolls := 1\<rparr>] [] None"
        "Inr \<lparr>fs_uidNext = 2, fs_numMessages = 1\<rparr>" _ _ False]
    by (simp add: p_def e_def new_pollerEntry_def poll_def set_entry_def)
  have s5: "poller_step False (p make_chan ?accs False [e (AtEmit 1)] [] None)
      (p make_chan ?accs False [e (AtSend 1)] [] None)"
    using poller_step.emit [of 0 "p make_chan ?accs False [e (AtEmit 1)] [] None" 1 False]
    by (simp add: p_def e_def goto_pc_def set_entry_def)
  have s6: "poller_step False (p make_chan ?accs False [e (AtSend 1)] [] None)
      (p make_chan [] False [e (AtSend 1)] [0] None)"
    by (rule poller_step.remove [where acc = "''a''" and n = 0]) (simp add: p_def Poller_RemoveAccount_def)
  have s7: "poller_step False (p make_chan [] False [e (AtSend 1)] [0] None)
      (p make_chan [] True [e (AtSend 1)] [0] (Some []))"
    by (rule poller_step.close) (simp_all add: p_def Poller_Close_def)
  have s8: "poller_step False (p make_chan [] True [e (AtSend 1)] [0] (Some []))
      (p ?shut [] True [e (AtSend 1)] [0] None)"
    using poller_step.close_end [of "p make_chan [] True [e (AtSend 1)] [0] (Some [])" "[]" False]
    by (simp add: p_def Poller_Close_end_def chan_close_def)
  have s9: "poller_step False (p ?shut [] True [e (AtSend 1)] [0] None)
      (p (?shut\<lparr>ch_panicked := True\<rparr>) [] True [e AtSelect] [0] None)"
    using poller_step.send [of 0 "p ?shut [] True [e (AtSend 1)] [0] None" 1 False]
    by (simp add: p_def e_def goto_pc_def set_entry_def try_send_def)
  have "(poller_step False)\<^sup>*\<^sup>* (NewPoller minPollInterval) (p (?shut\<lparr>ch_panicked := True\<rparr>) [] True [e AtSelect] [0] None)"
    using s1 s2 s3 s4 s5 s6 s7 s8 s9 by (meson rtranclp.rtrancl_refl rtranclp.rtrancl_into_rtrancl)
  then show ?thesis by (rule exI [of _ "p (?shut\<lparr>ch_panicked := True\<rparr>) [] True [e AtSelect] [0] None", OF conjI]) (simp add: p_def)
qed

section \<open>Progress\<close>

abbreviation with_entry :: "nat \<Rightarrow> pollerEntry \<Rightarrow> channel \<Rightarrow> Poller \<Rightarrow> Poller" where
  "with_entry n e ch p \<equiv> p\<lparr>pl_entries := (pl_entries p)[n := e], pl_events := ch\<rparr>"

definition may_return :: "bool \<Rightarrow> nat \<Rightarrow> Poller \<Rightarrow> bool" where
  "may_return x n p \<longleftrightarrow> (\<exists>e ch. (poller_step x)\<^sup>*\<^sup>* p (with_entry n e ch p) \<and> ple_pc e = Returned)"

lemma may_return_step:
  assumes "poller_step x p (with_entry n e ch p)" and "may_return x n (with_entry n e ch p)"
  shows "may_return x n p"
  using assms unfolding may_return_def by (auto intro: converse_rtranclp_into_rtranclp)

lemma set_entry_with: "set_entry n e p = with_entry n e (pl_events p) p"
  by (cases p) (simp add: set_entry_def)

lemma goto_pc_with: "goto_pc n pc p = with_entry n ((pl_entries p ! n)\<lparr>ple_pc := pc\<rparr>) (pl_events p) p"
  by (simp add: goto_pc_def set_entry_with)

lemma send_with: "goto_pc n pc (p\<lparr>pl_events := ch\<rparr>) = with_entry n ((pl_entries p ! n)\<lparr>ple_pc := pc\<rparr>) ch p"
  by (cases p) (simp add: goto_pc_def set_entry_def)

lemma goroutine_returns:
  assumes n: "n < length (pl_entries p)" and stop: "ple_stopped (pl_entries p ! n) \<or> pl_cancelled p"
  shows "may_return x n p"
proof -
  have sel: "may_return x n p" if p: "n < length (pl_entries p)" "ple_pc (pl_entries p ! n) = AtSelect"
    "ple_stopped (pl_entries p ! n) \<or> pl_cancelled p" for p
    using r_into_rtranclp [of "poller_step x", OF poller_step.return [OF p, unfolded goto_pc_with]]
    unfolding may_return_def by (intro exI conjI) (assumption, simp)
  have send: "may_return x n p" if p: "n < length (pl_entries p)" "ple_pc (pl_entries p ! n) = AtSend k"
    "ple_stopped (pl_entries p ! n) \<or> pl_cancelled p" for p k
    by (rule may_return_step [OF poller_step.send [OF p(1,2), unfolded send_with]], rule sel) (use p in simp_all)
  have emit: "may_return x n p" if p: "n < length (pl_entries p)" "ple_pc (pl_entries p ! n) = AtEmit k"
    "ple_stopped (pl_entries p ! n) \<or> pl_cancelled p" for p k
  proof (rule may_return_step [OF poller_step.emit [OF p(1,2), unfolded goto_pc_with]], cases "pl_closed p")
    case True
    then show "may_return x n (with_entry n ((pl_entries p ! n)\<lparr>ple_pc := if pl_closed p then AtSelect else AtSend k\<rparr>) (pl_events p) p)"
      using p by (intro sel) simp_all
  next
    case False
    then show "may_return x n (with_entry n ((pl_entries p ! n)\<lparr>ple_pc := if pl_closed p then AtSelect else AtSend k\<rparr>) (pl_events p) p)"
      using p by (intro send [where k = k]) simp_all
  qed
  have poll: "may_return x n p" if p: "n < length (pl_entries p)" "ple_pc (pl_entries p ! n) = AtPoll"
    "ple_stopped (pl_entries p ! n) \<or> pl_cancelled p" for p
  proof -
    obtain e where e: "poll (Inl (errors_New Other [])) (pl_entries p ! n) = (e, None)"
      "ple_stopped e = ple_stopped (pl_entries p ! n)" by (auto simp: poll_def)
    show ?thesis
      by (rule may_return_step [OF poller_step.polled [OF p(1,2) e(1), unfolded set_entry_with]], rule sel)
        (use p e in simp_all)
  qed
  show ?thesis
  proof (cases "ple_pc (pl_entries p ! n)")
    case Returned
    have "with_entry n (pl_entries p ! n) (pl_events p) p = p" by (cases p) simp
    with Returned show ?thesis unfolding may_return_def by (metis rtranclp.rtrancl_refl)
  qed (use poll [OF n _ stop] emit [OF n _ stop] send [OF n _ stop] sel [OF n _ stop] in blast)+
qed

lemma goroutines_return:
  assumes "\<forall>n\<in>set ns. n < length (pl_entries p)" and "pl_cancelled p"
  shows "\<exists>es ch. (poller_step x)\<^sup>*\<^sup>* p (p\<lparr>pl_entries := es, pl_events := ch\<rparr>) \<and> length es = length (pl_entries p)
    \<and> (\<forall>n<length es. ple_pc (pl_entries p ! n) = Returned \<or> n \<in> set ns \<longrightarrow> ple_pc (es ! n) = Returned)"
  using assms
proof (induction ns arbitrary: p)
  case Nil
  then show ?case by (intro exI [of _ "pl_entries p"] exI [of _ "pl_events p"]) simp
next
  case (Cons n ns)
  from goroutine_returns [of n p x] Cons(2,3) obtain e ch where
    e: "(poller_step x)\<^sup>*\<^sup>* p (with_entry n e ch p)" "ple_pc e = Returned" by (auto simp: may_return_def)
  from Cons(1) [of "with_entry n e ch p"] Cons(2,3) obtain es ch' where
    es: "(poller_step x)\<^sup>*\<^sup>* (with_entry n e ch p) (p\<lparr>pl_entries := es, pl_events := ch'\<rparr>)"
    "length es = length (pl_entries p)"
    "\<forall>m<length es. ple_pc ((pl_entries p)[n := e] ! m) = Returned \<or> m \<in> set ns \<longrightarrow> ple_pc (es ! m) = Returned"
    by auto
  have "(poller_step x)\<^sup>*\<^sup>* p (p\<lparr>pl_entries := es, pl_events := ch'\<rparr>)"
    using rtranclp_trans [OF e(1) es(1)] .
  moreover have "ple_pc (es ! m) = Returned"
    if "m < length es" "ple_pc (pl_entries p ! m) = Returned \<or> m \<in> set (n # ns)" for m
    using es(2,3) e(2) that by (cases "m = n") auto
  ultimately show ?case using es(2) by blast
qed

text \<open>C24: The waits end. In every reachable state a \<open>RemoveAccount\<close> that is waiting can complete once the
  account's stop channel is closed, by steps of that account's goroutine alone, and a \<open>Close\<close> that
  is waiting can complete, with the events channel closed.\<close>

theorem poller_waits_end:
  assumes "(poller_step x)\<^sup>*\<^sup>* (NewPoller interval) p"
  shows "(\<forall>n\<in>set (pl_removing p). ple_stopped (pl_entries p ! n) \<longrightarrow>
        (\<exists>e ch. (poller_step x)\<^sup>*\<^sup>* p ((with_entry n e ch p)\<lparr>pl_removing := filter (\<lambda>m. m \<noteq> n) (pl_removing p)\<rparr>)))
    \<and> (pl_closing p \<noteq> None \<longrightarrow>
        (\<exists>p'. (poller_step x)\<^sup>*\<^sup>* p p' \<and> pl_closing p' = None \<and> ch_closed (pl_events p')))"
proof (intro conjI ballI impI)
  note ok = poller.reachable_ok [OF assms]
  show "\<exists>e ch. (poller_step x)\<^sup>*\<^sup>* p ((with_entry n e ch p)\<lparr>pl_removing := filter (\<lambda>m. m \<noteq> n) (pl_removing p)\<rparr>)"
    if n: "n \<in> set (pl_removing p)" "ple_stopped (pl_entries p ! n)" for n
  proof -
    have len: "n < length (pl_entries p)" using n ok by (simp add: poller_ok_def)
    from goroutine_returns [OF len, of x] n obtain e ch where
      e: "(poller_step x)\<^sup>*\<^sup>* p (with_entry n e ch p)" "ple_pc e = Returned" by (auto simp: may_return_def)
    have "poller_step x (with_entry n e ch p)
        ((with_entry n e ch p)\<lparr>pl_removing := filter (\<lambda>m. m \<noteq> n) (pl_removing p)\<rparr>)"
      using poller_step.removed [of n "with_entry n e ch p" x] n len e(2) by simp
    with e(1) show ?thesis by (intro exI) (rule rtranclp.rtrancl_into_rtrancl)
  qed
  show "\<exists>p'. (poller_step x)\<^sup>*\<^sup>* p p' \<and> pl_closing p' = None \<and> ch_closed (pl_events p')" if "pl_closing p \<noteq> None"
  proof -
    from that obtain ns where ns: "pl_closing p = Some ns" by blast
    with ok have c: "\<forall>n\<in>set ns. n < length (pl_entries p)" "pl_cancelled p" by (simp_all add: poller_ok_def)
    from goroutines_return [OF c, of x] obtain es ch where
      es: "(poller_step x)\<^sup>*\<^sup>* p (p\<lparr>pl_entries := es, pl_events := ch\<rparr>)" "length es = length (pl_entries p)"
      "\<forall>n\<in>set ns. n < length es \<longrightarrow> ple_pc (es ! n) = Returned" by blast
    have "poller_step x (p\<lparr>pl_entries := es, pl_events := ch\<rparr>) (Poller_Close_end (p\<lparr>pl_entries := es, pl_events := ch\<rparr>))"
      by (rule poller_step.close_end [where ns = ns]) (use ns es c in auto)
    with es(1) show ?thesis
      by (intro exI [of _ "Poller_Close_end (p\<lparr>pl_entries := es, pl_events := ch\<rparr>)"] conjI)
        (rule rtranclp.rtrancl_into_rtrancl, assumption+, simp_all add: Poller_Close_end_def)
  qed
qed

section \<open>Concrete runs\<close>

definition demo_poller :: Poller where
  "demo_poller = snd (Poller_AddAccount demo_config (NewPoller 0))"

lemma demo_poller_run:
  "(poller_step True)\<^sup>*\<^sup>* (NewPoller 0) (snd (Poller_Close demo_poller))"
proof -
  have "poller_step True (NewPoller 0) demo_poller"
    by (rule poller_step.add [where config = demo_config])
      (simp add: demo_poller_def Poller_AddAccount_def IdleConfig_validate_def demo_config_def NewPoller_def)
  moreover have "poller_step True demo_poller (snd (Poller_Close demo_poller))"
    by (rule poller_step.close)
      (simp_all add: Poller_Close_def demo_poller_def Poller_AddAccount_def IdleConfig_validate_def
        demo_config_def NewPoller_def)
  ultimately show ?thesis by simp
qed

theorem poller_never_panics_witness:
  "\<not> ch_panicked (pl_events (snd (Poller_Close demo_poller)))"
  using poller_never_panics [OF demo_poller_run] by simp

theorem poller_waits_end_witness:
  "\<exists>p'. (poller_step True)\<^sup>*\<^sup>* (snd (Poller_Close demo_poller)) p' \<and> pl_closing p' = None \<and> ch_closed (pl_events p')"
proof -
  have "pl_closing (snd (Poller_Close demo_poller)) \<noteq> None"
    by (simp add: Poller_Close_def demo_poller_def Poller_AddAccount_def NewPoller_def IdleConfig_validate_def
        demo_config_def)
  with poller_waits_end [OF demo_poller_run] show ?thesis by blast
qed

end
