(* ===== verification/IdlePool.thy ===== *)
theory IdlePool
  imports SyncEvents
begin

text \<open>
  \<open>internal/sync/pool.go\<close>: a goroutine per account that keeps an IDLE connection and forwards its
  events into the pool's channel, reconnecting with a growing backoff when connecting fails.
  \<open>ae_pc\<close> is where the goroutine stands in \<open>runAccount\<close> and \<open>forwardEvents\<close>; critical sections under the
  mutex are single steps. Connections are positions in the list of all connections ever made.
\<close>

section \<open>State\<close>

definition initialBackoff :: int where "initialBackoff = 1 * second"
definition maxBackoff :: int where "maxBackoff = 5 * minute"
definition backoffFactor :: int where "backoffFactor = 2"

datatype pool_pc =
  AtTop | AtConnect | AtBackoff | AtForward nat | AtCheck IdleEvent nat | AtSendEvent IdleEvent nat
| AtLeave | GoroutineDone

record accountEntry =
  ae_config :: IdleConfig
  ae_conn :: "nat option"
  ae_backoff :: int
  ae_retryCount :: int
  ae_stopped :: bool
  ae_pc :: pool_pc

record IdlePool =
  ip_events :: channel
  ip_accounts :: "(string \<times> nat) list"
  ip_closed :: bool
  ip_cancelled :: bool
  ip_entries :: "accountEntry list"
  ip_conns :: "IdleConnection list"
  ip_removing :: "nat list"
  ip_closing :: "nat list option"

definition NewIdlePool :: IdlePool where
  "NewIdlePool = \<lparr>ip_events = make_chan, ip_accounts = [], ip_closed = False, ip_cancelled = False,
     ip_entries = [], ip_conns = [], ip_removing = [], ip_closing = None\<rparr>"

section \<open>Operations\<close>

definition new_accountEntry :: "IdleConfig \<Rightarrow> accountEntry" where
  "new_accountEntry config = \<lparr>ae_config = config, ae_conn = None, ae_backoff = initialBackoff,
     ae_retryCount = 0, ae_stopped = False, ae_pc = AtTop\<rparr>"

definition IdlePool_AddAccount :: "IdleConfig \<Rightarrow> IdlePool \<Rightarrow> unit res \<times> IdlePool" where
  "IdlePool_AddAccount config p =
     (case IdleConfig_validate config of
        Inl e \<Rightarrow> (Inl e, p)
      | Inr _ \<Rightarrow>
          if ip_closed p then (Inl ErrPoolClosed, p)
          else if icf_AccountID config \<in> fst ` set (ip_accounts p) then (Inl ErrAccountExists, p)
          else (Inr (), p\<lparr>ip_accounts := ip_accounts p @ [(icf_AccountID config, length (ip_entries p))],
                          ip_entries := ip_entries p @ [new_accountEntry config]\<rparr>))"

definition IdlePool_RemoveAccount :: "string \<Rightarrow> IdlePool \<Rightarrow> nat res \<times> IdlePool" where
  "IdlePool_RemoveAccount accountID p =
     (if ip_closed p then (Inl ErrPoolClosed, p)
      else case map_of (ip_accounts p) accountID of
        None \<Rightarrow> (Inl ErrAccountNotFound, p)
      | Some n \<Rightarrow>
          (Inr n, p\<lparr>ip_accounts := filter (\<lambda>a. fst a \<noteq> accountID) (ip_accounts p),
                    ip_removing := ip_removing p @ [n]\<rparr>))"

definition AccountStatus :: "string \<Rightarrow> IdlePool \<Rightarrow> (bool \<times> int) res" where
  "AccountStatus accountID p =
     (if ip_closed p then Inl ErrPoolClosed
      else case map_of (ip_accounts p) accountID of
        None \<Rightarrow> Inl ErrAccountNotFound
      | Some n \<Rightarrow> Inr (ae_conn (ip_entries p ! n) \<noteq> None, ae_retryCount (ip_entries p ! n)))"

definition ConnectedAccounts :: "IdlePool \<Rightarrow> nat" where
  "ConnectedAccounts p = length (filter (\<lambda>a. ae_conn (ip_entries p ! snd a) \<noteq> None) (ip_accounts p))"

definition IdlePool_TotalAccounts :: "IdlePool \<Rightarrow> nat" where
  "IdlePool_TotalAccounts p = length (ip_accounts p)"

definition IdlePool_Close :: "IdlePool \<Rightarrow> unit res \<times> IdlePool" where
  "IdlePool_Close p =
     (if ip_closed p then (Inl ErrAlreadyClosed, p)
      else (Inr (), p\<lparr>ip_closed := True, ip_cancelled := True,
                      ip_closing := Some (map snd (ip_accounts p)), ip_accounts := []\<rparr>))"

definition IdlePool_Close_end :: "IdlePool \<Rightarrow> IdlePool" where
  "IdlePool_Close_end p = p\<lparr>ip_closing := None, ip_events := chan_close (ip_events p)\<rparr>"

text \<open>The factor is a float in the code; up to five minutes in nanoseconds the product is exact.\<close>

definition handleConnectionError :: "accountEntry \<Rightarrow> accountEntry" where
  "handleConnectionError entry =
     (let doubled = ae_backoff entry * backoffFactor
      in entry\<lparr>ae_retryCount := ae_retryCount entry + 1,
               ae_backoff := (if doubled > maxBackoff then maxBackoff else doubled)\<rparr>)"

definition update_conn :: "nat \<Rightarrow> (IdleConnection \<Rightarrow> IdleConnection) \<Rightarrow> IdlePool \<Rightarrow> IdlePool" where
  "update_conn k f p = p\<lparr>ip_conns := (ip_conns p)[k := f (ip_conns p ! k)]\<rparr>"

definition update_entry :: "nat \<Rightarrow> (accountEntry \<Rightarrow> accountEntry) \<Rightarrow> IdlePool \<Rightarrow> IdlePool" where
  "update_entry n f p = p\<lparr>ip_entries := (ip_entries p)[n := f (ip_entries p ! n)]\<rparr>"

abbreviation go :: "pool_pc \<Rightarrow> accountEntry \<Rightarrow> accountEntry" where
  "go pc e \<equiv> e\<lparr>ae_pc := pc\<rparr>"

definition closeConnection :: "nat \<Rightarrow> IdlePool \<Rightarrow> IdlePool" where
  "closeConnection n p =
     (case ae_conn (ip_entries p ! n) of
        None \<Rightarrow> p
      | Some k \<Rightarrow> update_conn k (\<lambda>c. snd (IdleConnection_Close [] c)) (update_entry n (\<lambda>e. e\<lparr>ae_conn := None\<rparr>) p))"

section \<open>The goroutine of an account\<close>

text \<open>The head of the loop: \<open>stop\<close> or the cancelled context end it.\<close>

definition stopping :: "nat \<Rightarrow> IdlePool \<Rightarrow> bool" where
  "stopping n p \<longleftrightarrow> ae_stopped (ip_entries p ! n) \<or> ip_cancelled p"

definition account_top :: "nat \<Rightarrow> IdlePool \<Rightarrow> IdlePool" where
  "account_top n p =
     (if stopping n p then update_entry n (go GoroutineDone) (closeConnection n p)
      else update_entry n (go AtConnect) p)"

text \<open>The outcome of \<open>NewIdleConnection\<close>.\<close>

definition account_connected :: "nat \<Rightarrow> unit res \<Rightarrow> IdlePool \<Rightarrow> IdlePool" where
  "account_connected n r p =
     (case r of
        Inl err \<Rightarrow>
          (if errors_Is err (SyncErr SyncIdleNotSupported) then update_entry n (go GoroutineDone) p
           else update_entry n (go AtBackoff \<circ> handleConnectionError) p)
      | Inr _ \<Rightarrow>
          update_entry n (\<lambda>e. e\<lparr>ae_conn := Some (length (ip_conns p)), ae_backoff := initialBackoff,
                               ae_retryCount := 0, ae_pc := AtForward (length (ip_conns p))\<rparr>)
            (p\<lparr>ip_conns := ip_conns p @ [new_IdleConnection (ae_config (ip_entries p ! n))]\<rparr>))"

text \<open>Leaving \<open>forwardEvents\<close> with or without closing the connection.\<close>

definition forward_close :: "nat \<Rightarrow> nat \<Rightarrow> IdlePool \<Rightarrow> IdlePool" where
  "forward_close n k p =
     update_entry n (go AtLeave) (update_conn k (\<lambda>c. snd (IdleConnection_Close [] c)) p)"

definition forward_check :: "nat \<Rightarrow> IdleEvent \<Rightarrow> nat \<Rightarrow> IdlePool \<Rightarrow> IdlePool" where
  "forward_check n event k p =
     (if ip_closed p then update_entry n (go AtLeave) p else update_entry n (go (AtSendEvent event k)) p)"

definition forward_send :: "nat \<Rightarrow> IdleEvent \<Rightarrow> nat \<Rightarrow> IdlePool \<Rightarrow> IdlePool" where
  "forward_send n event k p =
     update_entry n (go (AtForward k)) (p\<lparr>ip_events := try_send event (ip_events p)\<rparr>)"

inductive pool_step :: "bool \<Rightarrow> IdlePool \<Rightarrow> IdlePool \<Rightarrow> bool" for exclusive where
  add: "IdlePool_AddAccount config p = (Inr (), p') \<Longrightarrow> pool_step exclusive p p'"
| remove: "IdlePool_RemoveAccount acc p = (Inr n, p') \<Longrightarrow> pool_step exclusive p p'"
| stop: "n < length (ip_entries p) \<Longrightarrow> n \<in> set (ip_removing p) \<or> (\<exists>ns. ip_closing p = Some ns \<and> n \<in> set ns) \<Longrightarrow>
    pool_step exclusive p (update_entry n (\<lambda>e. e\<lparr>ae_stopped := True\<rparr>) p)"
| removed: "n \<in> set (ip_removing p) \<Longrightarrow> n < length (ip_entries p) \<Longrightarrow> ae_pc (ip_entries p ! n) = GoroutineDone \<Longrightarrow>
    pool_step exclusive p (p\<lparr>ip_removing := filter (\<lambda>m. m \<noteq> n) (ip_removing p)\<rparr>)"
| close: "IdlePool_Close p = (Inr (), p') \<Longrightarrow> (exclusive \<longrightarrow> ip_removing p = []) \<Longrightarrow> pool_step exclusive p p'"
| close_end: "ip_closing p = Some ns \<Longrightarrow>
    \<forall>n\<in>set ns. n < length (ip_entries p) \<and> ae_pc (ip_entries p ! n) = GoroutineDone \<Longrightarrow>
    pool_step exclusive p (IdlePool_Close_end p)"
| top: "n < length (ip_entries p) \<Longrightarrow> ae_pc (ip_entries p ! n) = AtTop \<Longrightarrow>
    pool_step exclusive p (account_top n p)"
| connect: "n < length (ip_entries p) \<Longrightarrow> ae_pc (ip_entries p ! n) = AtConnect \<Longrightarrow>
    pool_step exclusive p (account_connected n r p)"
| backoff_stop: "n < length (ip_entries p) \<Longrightarrow> ae_pc (ip_entries p ! n) = AtBackoff \<Longrightarrow> stopping n p \<Longrightarrow>
    pool_step exclusive p (update_entry n (go GoroutineDone) p)"
| backoff_over: "n < length (ip_entries p) \<Longrightarrow> ae_pc (ip_entries p ! n) = AtBackoff \<Longrightarrow>
    pool_step exclusive p (update_entry n (go AtTop) p)"
| forward_stop: "n < length (ip_entries p) \<Longrightarrow> ae_pc (ip_entries p ! n) = AtForward k \<Longrightarrow> stopping n p \<Longrightarrow>
    pool_step exclusive p (forward_close n k p)"
| forward_event: "n < length (ip_entries p) \<Longrightarrow> ae_pc (ip_entries p ! n) = AtForward k \<Longrightarrow>
    chan_recv (icn_events (ip_conns p ! k)) = (Event event, ch) \<Longrightarrow>
    pool_step exclusive p (update_entry n (go (AtCheck event k)) (update_conn k (\<lambda>c. c\<lparr>icn_events := ch\<rparr>) p))"
| forward_closed: "n < length (ip_entries p) \<Longrightarrow> ae_pc (ip_entries p ! n) = AtForward k \<Longrightarrow>
    fst (chan_recv (icn_events (ip_conns p ! k))) = Closed \<Longrightarrow> pool_step exclusive p (forward_close n k p)"
| check: "n < length (ip_entries p) \<Longrightarrow> ae_pc (ip_entries p ! n) = AtCheck event k \<Longrightarrow>
    pool_step exclusive p (forward_check n event k p)"
| send: "n < length (ip_entries p) \<Longrightarrow> ae_pc (ip_entries p ! n) = AtSendEvent event k \<Longrightarrow>
    pool_step exclusive p (forward_send n event k p)"
| leave: "n < length (ip_entries p) \<Longrightarrow> ae_pc (ip_entries p ! n) = AtLeave \<Longrightarrow>
    pool_step exclusive p (update_entry n (\<lambda>e. e\<lparr>ae_conn := None, ae_pc := AtTop\<rparr>) p)"
| mail: "k < length (ip_conns p) \<Longrightarrow> pool_step exclusive p (update_conn k (handleMailboxUpdate num) p)"
| expunge: "k < length (ip_conns p) \<Longrightarrow> pool_step exclusive p (update_conn k (handleExpunge q) p)"
| receive: "pool_step exclusive p (p\<lparr>ip_events := snd (chan_recv (ip_events p))\<rparr>)"

section \<open>Invariant\<close>

text \<open>A goroutine that forwards events owns an open connection; elsewhere, but for the way out of
  \<open>forwardEvents\<close>, it owns none.\<close>

fun pc_conn :: "pool_pc \<Rightarrow> nat option" where
  "pc_conn (AtForward k) = Some k"
| "pc_conn (AtCheck e k) = Some k"
| "pc_conn (AtSendEvent e k) = Some k"
| "pc_conn _ = None"

definition entry_ok :: "IdleConnection list \<Rightarrow> accountEntry \<Rightarrow> bool" where
  "entry_ok conns e \<longleftrightarrow>
     (case ae_conn e of
        None \<Rightarrow> pc_conn (ae_pc e) = None \<and> ae_pc e \<noteq> AtLeave
      | Some k \<Rightarrow> k < length conns
          \<and> (ae_pc e = AtLeave \<or> pc_conn (ae_pc e) = Some k \<and> \<not> icn_closed (conns ! k)))"

definition owners_ok :: "accountEntry list \<Rightarrow> bool" where
  "owners_ok es \<longleftrightarrow> (\<forall>n<length es. \<forall>m<length es. \<forall>k.
     n \<noteq> m \<longrightarrow> ae_conn (es ! n) = Some k \<longrightarrow> ae_conn (es ! m) \<noteq> Some k)"

definition pool_ok :: "IdlePool \<Rightarrow> bool" where
  "pool_ok p \<longleftrightarrow> accounts_ok (ip_accounts p) (length (ip_entries p))
     \<and> (\<forall>c\<in>set (ip_conns p). connection_ok c)
     \<and> (\<forall>e\<in>set (ip_entries p). entry_ok (ip_conns p) e) \<and> owners_ok (ip_entries p)"

lemma update_simps [simp]:
  "ip_entries (update_conn k f p) = ip_entries p" "ip_conns (update_entry n g p) = ip_conns p"
  "ip_accounts (update_conn k f p) = ip_accounts p" "ip_accounts (update_entry n g p) = ip_accounts p"
  "ip_conns (update_conn k f p) = (ip_conns p)[k := f (ip_conns p ! k)]"
  "ip_entries (update_entry n g p) = (ip_entries p)[n := g (ip_entries p ! n)]"
  by (simp_all add: update_conn_def update_entry_def)

lemma owners_okD:
  "owners_ok es \<Longrightarrow> n < length es \<Longrightarrow> m < length es \<Longrightarrow> n \<noteq> m \<Longrightarrow> ae_conn (es ! n) = Some k \<Longrightarrow> ae_conn (es ! m) \<noteq> Some k"
  unfolding owners_ok_def by blast

lemma owners_ok_update:
  assumes es: "owners_ok es" "n < length es"
    and e: "\<And>m k. m < length es \<Longrightarrow> m \<noteq> n \<Longrightarrow> ae_conn e = Some k \<Longrightarrow> ae_conn (es ! m) \<noteq> Some k"
  shows "owners_ok (es[n := e])"
  unfolding owners_ok_def length_list_update
proof (intro allI impI)
  fix i j k
  assume ij: "i < length es" "j < length es" "i \<noteq> j" and k: "ae_conn (es[n := e] ! i) = Some k"
  consider "i = n" | "j = n" | "i \<noteq> n" "j \<noteq> n" by blast
  then show "ae_conn (es[n := e] ! j) \<noteq> Some k"
  proof cases
    case 1
    with ij k es(2) e [of j k] show ?thesis by simp
  next
    case 2
    with ij k es(2) e [of i k] show ?thesis by auto
  next
    case 3
    with ij k owners_okD [OF es(1), of i j k] show ?thesis by simp
  qed
qed

lemma owners_ok_same:
  assumes "owners_ok es" "n < length es" and "ae_conn e = None \<or> ae_conn e = ae_conn (es ! n)"
  shows "owners_ok (es[n := e])"
proof (rule owners_ok_update [OF assms(1,2)])
  fix m k assume m: "m < length es" "m \<noteq> n" "ae_conn e = Some k"
  then have "ae_conn (es ! n) = Some k" using assms(3) by auto
  from owners_okD [OF assms(1,2) m(1) _ this] m(2) show "ae_conn (es ! m) \<noteq> Some k" by simp
qed

lemma owners_ok_add:
  assumes "owners_ok es" and "ae_conn e = None"
  shows "owners_ok (es @ [e])"
  unfolding owners_ok_def
proof (intro allI impI)
  fix i j k
  assume ij: "i < length (es @ [e])" "j < length (es @ [e])" "i \<noteq> j" and k: "ae_conn ((es @ [e]) ! i) = Some k"
  have i: "i < length es" using ij k assms(2) by (cases "i < length es") (simp_all add: nth_append less_Suc_eq)
  show "ae_conn ((es @ [e]) ! j) \<noteq> Some k"
  proof (cases "j < length es")
    case True
    with owners_okD [OF assms(1) i True ij(3), of k] k i show ?thesis by (simp add: nth_append)
  next
    case False
    with ij(2) assms(2) show ?thesis by (simp add: nth_append less_Suc_eq)
  qed
qed

lemma entry_ok_none: "ae_conn e = None \<Longrightarrow> entry_ok conns e \<longleftrightarrow> pc_conn (ae_pc e) = None \<and> ae_pc e \<noteq> AtLeave"
  by (simp add: entry_ok_def)

lemma entry_ok_pc:
  assumes "entry_ok conns e" and "pc_conn (ae_pc e) = Some k"
  shows "ae_conn e = Some k" "k < length conns" "\<not> icn_closed (conns ! k)"
  using assms by (auto simp: entry_ok_def split: option.splits)

lemma entry_ok_free: "entry_ok conns e \<Longrightarrow> ae_pc e \<in> {AtTop, AtConnect, AtBackoff, GoroutineDone} \<Longrightarrow> ae_conn e = None"
  by (auto simp: entry_ok_def split: option.splits)

text \<open>An update of one entry, in a pool whose connections may have changed as long as the open ones
  the other entries use are still open.\<close>

lemma pool_ok_entry:
  assumes "pool_ok p" and "n < length (ip_entries p)"
    and "entry_ok (ip_conns p) (f (ip_entries p ! n))"
    and "ae_conn (f (ip_entries p ! n)) = None \<or> ae_conn (f (ip_entries p ! n)) = ae_conn (ip_entries p ! n)"
  shows "pool_ok (update_entry n f p)"
  using assms owners_ok_same [of "ip_entries p" n "f (ip_entries p ! n)"]
    Ball_update [of "ip_entries p" "entry_ok (ip_conns p)"] by (simp add: pool_ok_def)

lemma pool_ok_conn:
  assumes "pool_ok p" and "k < length (ip_conns p)" and "connection_ok (f (ip_conns p ! k))"
    and "icn_closed (f (ip_conns p ! k)) = icn_closed (ip_conns p ! k)"
  shows "pool_ok (update_conn k f p)"
proof -
  have "entry_ok ((ip_conns p)[k := f (ip_conns p ! k)]) e" if "entry_ok (ip_conns p) e" for e
    using that assms(2,4) by (auto simp: entry_ok_def nth_list_update split: option.splits)
  with assms Ball_update [of "ip_conns p" connection_ok] show ?thesis by (simp add: pool_ok_def)
qed

text \<open>Closing the connection that an entry owns, on the way to \<open>AtLeave\<close>.\<close>

lemma pool_ok_forward_close:
  assumes p: "pool_ok p" and n: "n < length (ip_entries p)" and pc: "pc_conn (ae_pc (ip_entries p ! n)) = Some k"
  shows "pool_ok (forward_close n k p)"
proof -
  let ?conns = "(ip_conns p)[k := snd (IdleConnection_Close [] (ip_conns p ! k))]"
  have e: "entry_ok (ip_conns p) (ip_entries p ! n)" using p n by (simp add: pool_ok_def)
  note k = entry_ok_pc [OF e pc]
  have "entry_ok ?conns (ip_entries p ! m)" if m: "m < length (ip_entries p)" "m \<noteq> n" for m
  proof -
    have "entry_ok (ip_conns p) (ip_entries p ! m)" "ae_conn (ip_entries p ! m) \<noteq> Some k"
      using p n m k(1) by (auto simp: pool_ok_def owners_ok_def)
    then show ?thesis by (auto simp: entry_ok_def nth_list_update split: option.splits)
  qed
  moreover have "entry_ok ?conns (go AtLeave (ip_entries p ! n))" using k by (simp add: entry_ok_def)
  ultimately have "\<forall>e\<in>set ((ip_entries p)[n := go AtLeave (ip_entries p ! n)]). entry_ok ?conns e"
    by (rule Ball_update_others)
  moreover have "\<forall>c\<in>set ?conns. connection_ok c"
    by (rule Ball_update) (use p k(2) connection_ok_step(3) in \<open>simp_all add: pool_ok_def\<close>)
  ultimately show ?thesis
    using p n owners_ok_same [of "ip_entries p" n "go AtLeave (ip_entries p ! n)"]
    by (simp add: pool_ok_def forward_close_def)
qed

lemma pool_ok_new_conn:
  assumes p: "pool_ok p" and n: "n < length (ip_entries p)"
    and f: "ae_conn (f (ip_entries p ! n)) = Some (length (ip_conns p))"
      "pc_conn (ae_pc (f (ip_entries p ! n))) = Some (length (ip_conns p))"
  shows "pool_ok (update_entry n f (p\<lparr>ip_conns := ip_conns p @ [new_IdleConnection c]\<rparr>))"
proof -
  let ?conns = "ip_conns p @ [new_IdleConnection c]" and ?k = "length (ip_conns p)"
  have es: "entry_ok ?conns e \<and> ae_conn e \<noteq> Some ?k" if "e \<in> set (ip_entries p)" for e
  proof -
    have "entry_ok (ip_conns p) e" using p that by (simp add: pool_ok_def)
    then show ?thesis by (auto simp: entry_ok_def nth_append split: option.splits)
  qed
  moreover have "entry_ok ?conns (f (ip_entries p ! n))"
    using f by (simp add: entry_ok_def new_IdleConnection_def)
  ultimately have "\<forall>e\<in>set ((ip_entries p)[n := f (ip_entries p ! n)]). entry_ok ?conns e"
    by (intro Ball_update) auto
  moreover have "owners_ok ((ip_entries p)[n := f (ip_entries p ! n)])"
  proof (rule owners_ok_update [OF _ n])
    show "owners_ok (ip_entries p)" using p by (simp add: pool_ok_def)
  qed (use f(1) es nth_mem in fastforce)
  ultimately show ?thesis using p by (simp add: pool_ok_def connection_ok_new update_entry_def)
qed

lemma pool_ok_same:
  "pool_ok p \<Longrightarrow> ip_accounts q = ip_accounts p \<Longrightarrow> ip_entries q = ip_entries p \<Longrightarrow> ip_conns q = ip_conns p \<Longrightarrow> pool_ok q"
  by (simp add: pool_ok_def)

text \<open>Going to another place that owns the same connection.\<close>

lemma pool_ok_go:
  assumes "pool_ok p" and "n < length (ip_entries p)"
    and "ae_conn (f (ip_entries p ! n)) = ae_conn (ip_entries p ! n)"
    and "pc_conn (ae_pc (f (ip_entries p ! n))) = pc_conn (ae_pc (ip_entries p ! n))"
    and "ae_pc (f (ip_entries p ! n)) = AtLeave \<longleftrightarrow> ae_pc (ip_entries p ! n) = AtLeave"
  shows "pool_ok (update_entry n f p)"
proof (rule pool_ok_entry [OF assms(1,2)])
  have "entry_ok (ip_conns p) (ip_entries p ! n)" using assms(1,2) by (simp add: pool_ok_def)
  then show "entry_ok (ip_conns p) (f (ip_entries p ! n))"
    using assms(3-5) by (simp add: entry_ok_def cong: option.case_cong)
qed (use assms(3) in simp)

text \<open>Dropping the connection.\<close>

lemma pool_ok_drop:
  assumes "pool_ok p" and "n < length (ip_entries p)" and "ae_conn (f (ip_entries p ! n)) = None"
    and "pc_conn (ae_pc (f (ip_entries p ! n))) = None" and "ae_pc (f (ip_entries p ! n)) \<noteq> AtLeave"
  shows "pool_ok (update_entry n f p)"
  by (rule pool_ok_entry [OF assms(1,2)]) (use assms(3-5) in \<open>simp_all add: entry_ok_none\<close>)

lemma pool_ok_free:
  "pool_ok p \<Longrightarrow> n < length (ip_entries p) \<Longrightarrow> ae_pc (ip_entries p ! n) \<in> {AtTop, AtConnect, AtBackoff, GoroutineDone}
   \<Longrightarrow> ae_conn (ip_entries p ! n) = None"
  by (rule entry_ok_free [of "ip_conns p"]) (simp_all add: pool_ok_def)

lemma pool_ok_open:
  assumes "pool_ok p" and "n < length (ip_entries p)" and "pc_conn (ae_pc (ip_entries p ! n)) = Some k"
  shows "ae_conn (ip_entries p ! n) = Some k" "k < length (ip_conns p)" "\<not> icn_closed (ip_conns p ! k)"
    "connection_ok (ip_conns p ! k)"
  using entry_ok_pc [OF _ assms(3), of "ip_conns p"] assms(1,2) by (simp_all add: pool_ok_def)

lemma pool_ok_step: "pool_step x p p' \<Longrightarrow> pool_ok p \<Longrightarrow> pool_ok p'"
proof (induction rule: pool_step.induct)
  case (add config p p')
  then have p': "p' = p\<lparr>ip_accounts := ip_accounts p @ [(icf_AccountID config, length (ip_entries p))],
      ip_entries := ip_entries p @ [new_accountEntry config]\<rparr>" "icf_AccountID config \<notin> fst ` set (ip_accounts p)"
    by (auto simp: IdlePool_AddAccount_def split: sum.splits if_splits)
  have "owners_ok (ip_entries p @ [new_accountEntry config])"
    using add(2) by (intro owners_ok_add) (simp_all add: pool_ok_def new_accountEntry_def)
  moreover have "entry_ok (ip_conns p) (new_accountEntry config)"
    by (simp add: entry_ok_def new_accountEntry_def)
  ultimately show ?case using add(2) p'(2) accounts_ok_add by (simp add: p'(1) pool_ok_def)
next
  case (remove acc p n p')
  then have c: "map_of (ip_accounts p) acc = Some n"
    and p': "p' = p\<lparr>ip_accounts := filter (\<lambda>a. fst a \<noteq> acc) (ip_accounts p), ip_removing := ip_removing p @ [n]\<rparr>"
    by (auto simp: IdlePool_RemoveAccount_def split: option.splits if_splits)
  show ?case
    using remove(2) accounts_ok_remove(1) [OF _ c, of "length (ip_entries p)"] by (simp add: p' pool_ok_def)
next
  case (stop n p)
  then show ?case by (intro pool_ok_go) simp_all
next
  case (close p p')
  then show ?case by (auto simp: IdlePool_Close_def pool_ok_def accounts_ok_def split: if_splits)
next
  case (top n p)
  then have "ae_conn (ip_entries p ! n) = None" using pool_ok_free by simp
  with top show ?case by (auto simp: account_top_def closeConnection_def intro!: pool_ok_drop)
next
  case (connect n p r)
  then have "ae_conn (ip_entries p ! n) = None" using pool_ok_free by simp
  with connect show ?case
    by (auto simp: account_connected_def handleConnectionError_def Let_def split: sum.split
        intro!: pool_ok_drop pool_ok_new_conn)
next
  case (backoff_stop n p)
  then show ?case using pool_ok_free [of p n] by (intro pool_ok_drop) simp_all
next
  case (backoff_over n p)
  then show ?case using pool_ok_free [of p n] by (intro pool_ok_drop) simp_all
next
  case (forward_stop n p k)
  then show ?case by (intro pool_ok_forward_close) simp_all
next
  case (forward_closed n p k)
  then show ?case by (intro pool_ok_forward_close) simp_all
next
  case (forward_event n p k event ch)
  then have k: "k < length (ip_conns p)" "connection_ok (ip_conns p ! k)"
    using pool_ok_open [of p n k] by simp_all
  have ch: "ch = snd (chan_recv (icn_events (ip_conns p ! k)))" using forward_event(3) by simp
  have "pool_ok (update_conn k (\<lambda>c. c\<lparr>icn_events := ch\<rparr>) p)"
    unfolding ch by (rule pool_ok_conn [OF forward_event(4) k(1)]) (use connection_ok_step(4) [OF k(2)] in simp_all)
  then show ?case using forward_event by (intro pool_ok_go) simp_all
next
  case (check n p event k)
  show ?case
  proof (cases "ip_closed p")
    case True
    have "ae_conn (ip_entries p ! n) = Some k" "k < length (ip_conns p)"
      using pool_ok_open [of p n k] check by simp_all
    with True check show ?thesis unfolding forward_check_def
      by (simp, intro pool_ok_entry) (simp_all add: entry_ok_def)
  next
    case False
    with check show ?thesis unfolding forward_check_def by (simp, intro pool_ok_go) simp_all
  qed
next
  case (send n p event k)
  have "pool_ok (p\<lparr>ip_events := try_send event (ip_events p)\<rparr>)" by (rule pool_ok_same [OF send(3)]) simp_all
  with send show ?case unfolding forward_send_def by (intro pool_ok_go) simp_all
next
  case (leave n p)
  then show ?case by (intro pool_ok_drop) simp_all
next
  case (mail k p num)
  then show ?case
    by (intro pool_ok_conn connection_ok_step(1)) (auto simp: pool_ok_def handleMailboxUpdate_def split: option.split)
next
  case (expunge k p q)
  then show ?case by (intro pool_ok_conn connection_ok_step(2)) (auto simp: pool_ok_def handleExpunge_def)
next
  case (removed n p)
  then show ?case by (simp add: pool_ok_def)
next
  case (close_end p ns)
  then show ?case by (simp add: pool_ok_def IdlePool_Close_end_def)
next
  case (receive p)
  then show ?case by (simp add: pool_ok_def)
qed

section \<open>The pool as a hub\<close>

definition pool_phase :: "accountEntry \<Rightarrow> phase" where
  "pool_phase entry =
     (case ae_pc entry of AtSendEvent e k \<Rightarrow> Sending e | GoroutineDone \<Rightarrow> Finished | _ \<Rightarrow> Busy)"

definition pool_view :: "IdlePool \<Rightarrow> hub" where
  "pool_view p = \<lparr>hb_events = ip_events p, hb_closed = ip_closed p,
     hb_registered = snd ` set (ip_accounts p), hb_removing = set (ip_removing p),
     hb_closing = map_option set (ip_closing p),
     hb_phase = entry_phases pool_phase (ip_entries p)\<rparr>"

lemma pool_view_conn [simp]:
  "pool_view (update_conn k f p) = pool_view p" "pool_view (p\<lparr>ip_conns := cs\<rparr>) = pool_view p"
  by (simp_all add: pool_view_def update_conn_def)

lemma pool_view_entry:
  "n < length (ip_entries p) \<Longrightarrow>
     pool_view (update_entry n f p)
       = (pool_view p)\<lparr>hb_phase := (hb_phase (pool_view p))(n \<mapsto> pool_phase (f (ip_entries p ! n)))\<rparr>"
  by (simp add: pool_view_def update_entry_def)

lemma pool_phase_view: "n < length (ip_entries p) \<Longrightarrow> hb_phase (pool_view p) n = Some (pool_phase (ip_entries p ! n))"
  by (simp add: pool_view_def)

lemma pool_view_same:
  "n < length (ip_entries p) \<Longrightarrow> pool_phase (f (ip_entries p ! n)) = pool_phase (ip_entries p ! n) \<Longrightarrow>
     pool_view (update_entry n f p) = pool_view p"
  by (simp add: pool_view_entry) (simp add: pool_view_def entry_phases_same)

lemma pool_view_finish:
  assumes "n < length (ip_entries p)" and "pool_phase (ip_entries p ! n) = Busy"
    and "pool_phase (f (ip_entries p ! n)) = Finished"
  shows "hub_step x (pool_view p) (pool_view (update_entry n f p))"
  using hub_step.finish [of "pool_view p" n x] assms by (simp add: pool_view_entry pool_phase_view)

lemma closeConnection_none: "ae_conn (ip_entries p ! n) = None \<Longrightarrow> closeConnection n p = p"
  by (simp add: closeConnection_def)

lemma pool_simulation:
  "pool_step x p p' \<Longrightarrow> pool_ok p \<Longrightarrow> pool_view p' = pool_view p \<or> hub_step x (pool_view p) (pool_view p')"
proof (induction rule: pool_step.induct)
  case (add config p p')
  then have c: "\<not> ip_closed p" and p': "p' = p\<lparr>ip_accounts := ip_accounts p @ [(icf_AccountID config, length (ip_entries p))],
      ip_entries := ip_entries p @ [new_accountEntry config]\<rparr>"
    by (auto simp: IdlePool_AddAccount_def split: sum.splits if_splits)
  have "hub_step x (pool_view p) (pool_view p')"
    using hub_step.add [of "pool_view p" "length (ip_entries p)" x] c
    by (simp add: p' pool_view_def pool_phase_def new_accountEntry_def)
  then show ?case by simp
next
  case (remove acc p n p')
  then have c: "\<not> ip_closed p" "map_of (ip_accounts p) acc = Some n"
    and p': "p' = p\<lparr>ip_accounts := filter (\<lambda>a. fst a \<noteq> acc) (ip_accounts p), ip_removing := ip_removing p @ [n]\<rparr>"
    by (auto simp: IdlePool_RemoveAccount_def split: option.splits if_splits)
  note r = accounts_ok_remove [OF conjunct1 [OF remove(2) [unfolded pool_ok_def]] c(2)]
  have "hub_step x (pool_view p) (pool_view p')"
    using hub_step.remove [of "pool_view p" n x] c(1) r(3) by (simp add: p' pool_view_def r(2))
  then show ?case by simp
next
  case (stop n p)
  then show ?case by (simp add: pool_view_same pool_phase_def cong: pool_pc.case_cong)
next
  case (removed n p)
  have "hub_step x (pool_view p) (pool_view (p\<lparr>ip_removing := filter (\<lambda>m. m \<noteq> n) (ip_removing p)\<rparr>))"
    using hub_step.removed [of n "pool_view p" x] removed pool_phase_view [of n p]
    by (simp add: pool_view_def pool_phase_def set_diff_eq)
  then show ?case by simp
next
  case (close p p')
  then have c: "\<not> ip_closed p" and p': "p' = p\<lparr>ip_closed := True, ip_cancelled := True,
      ip_closing := Some (map snd (ip_accounts p)), ip_accounts := []\<rparr>"
    by (auto simp: IdlePool_Close_def split: if_splits)
  have "hub_step x (pool_view p) (pool_view p')"
    using hub_step.close [of "pool_view p" x] c close(2) by (simp add: p' pool_view_def)
  then show ?case by simp
next
  case (close_end p ns)
  have "hub_step x (pool_view p) (pool_view (IdlePool_Close_end p))"
    using hub_step.closed [of "pool_view p" "set ns" x] close_end
    by (simp add: pool_view_def IdlePool_Close_end_def pool_phase_def)
  then show ?case by simp
next
  case (top n p)
  then have free: "ae_conn (ip_entries p ! n) = None" using pool_ok_free by simp
  have "pool_view (update_entry n (go AtConnect) p) = pool_view p"
    by (rule pool_view_same) (use top in \<open>simp_all add: pool_phase_def\<close>)
  moreover have "hub_step x (pool_view p) (pool_view (update_entry n (go GoroutineDone) p))"
    by (rule pool_view_finish) (use top in \<open>simp_all add: pool_phase_def\<close>)
  ultimately show ?case using free by (simp add: account_top_def closeConnection_none)
next
  case (connect n p r)
  then have b: "pool_phase (ip_entries p ! n) = Busy" by (simp add: pool_phase_def)
  show ?case
  proof (cases "\<exists>e. r = Inl e \<and> errors_Is e (SyncErr SyncIdleNotSupported)")
    case True
    then show ?thesis using connect b pool_view_finish [of n p "go GoroutineDone" x]
      by (auto simp: account_connected_def) (simp_all add: pool_phase_def)
  next
    case False
    have "pool_view (account_connected n r p) = pool_view p"
      using False connect b by (cases r)
        (simp_all add: account_connected_def pool_view_same pool_phase_def handleConnectionError_def Let_def)
    then show ?thesis by simp
  qed
next
  case (backoff_stop n p)
  then show ?case using pool_view_finish [of n p "go GoroutineDone" x] by (simp add: pool_phase_def)
next
  case (backoff_over n p)
  then show ?case by (simp add: pool_view_same pool_phase_def)
next
  case (forward_stop n p k)
  then show ?case by (simp add: forward_close_def pool_view_same pool_phase_def)
next
  case (forward_event n p k event ch)
  then show ?case by (simp add: pool_view_same pool_phase_def)
next
  case (forward_closed n p k)
  then show ?case by (simp add: forward_close_def pool_view_same pool_phase_def)
next
  case (check n p event k)
  then have b: "pool_phase (ip_entries p ! n) = Busy" by (simp add: pool_phase_def)
  show ?case
  proof (cases "ip_closed p")
    case True
    have "pool_view (update_entry n (go AtLeave) p) = pool_view p"
      by (rule pool_view_same) (use check in \<open>simp_all add: pool_phase_def\<close>)
    with True show ?thesis by (simp add: forward_check_def)
  next
    case False
    then show ?thesis
      using hub_step.emit [of "pool_view p" n x event] check b
      by (simp add: forward_check_def pool_view_entry pool_phase_view) (simp add: pool_view_def pool_phase_def)
  qed
next
  case (send n p event k)
  have b: "pool_phase (ip_entries p ! n) = Sending event" using send(2) by (simp add: pool_phase_def)
  have "hub_step x (pool_view p) (pool_view (forward_send n event k p))"
    using hub_step.send [of "pool_view p" n event x] send b
    by (simp add: forward_send_def pool_view_entry pool_phase_view) (simp add: pool_view_def pool_phase_def)
  then show ?case by simp
next
  case (leave n p)
  then show ?case by (simp add: pool_view_same pool_phase_def)
next
  case (mail k p num)
  then show ?case by simp
next
  case (expunge k p q)
  then show ?case by simp
next
  case (receive p)
  have "hub_step x (pool_view p) (pool_view (p\<lparr>ip_events := snd (chan_recv (ip_events p))\<rparr>))"
    using hub_step.receive [of x "pool_view p"] by (simp add: pool_view_def)
  then show ?case by simp
qed

lemma pool_view_new: "pool_view NewIdlePool = new_hub" and pool_ok_new: "pool_ok NewIdlePool"
  by (simp_all add: pool_view_def NewIdlePool_def new_hub_def pool_ok_def accounts_ok_def owners_ok_def)

interpretation pool: hub_source pool_view pool_step pool_ok NewIdlePool
  by unfold_locales (auto simp: pool_view_new pool_ok_new pool_ok_step dest: pool_simulation)

section \<open>Safety\<close>

lemma pool_all_done:
  assumes "(pool_step True)\<^sup>*\<^sup>* NewIdlePool p" and closed: "ch_closed (ip_events p)" and entry: "entry \<in> set (ip_entries p)"
  shows "ae_pc entry = GoroutineDone"
proof -
  from entry obtain n where n: "n < length (ip_entries p)" "entry = ip_entries p ! n" by (auto simp: in_set_conv_nth)
  from pool.closed_after_all [OF assms(1), of n] closed have "\<not> live (hb_phase (pool_view p)) n"
    by (simp add: pool_view_def)
  then show ?thesis using n
    by (simp add: live_def pool_phase_view pool_phase_def split: pool_pc.splits)
qed

text \<open>C21: As long as \<open>Close\<close> is not called while a \<open>RemoveAccount\<close> is waiting, no interleaving makes the
  pool send on its closed channel, or any connection on its own; at most a hundred events wait
  in each; and the pool's channel is closed only after every account's goroutine has returned.\<close>

theorem pool_never_panics:
  assumes "(pool_step True)\<^sup>*\<^sup>* NewIdlePool p"
  shows "\<not> ch_panicked (ip_events p) \<and> length (ch_buf (ip_events p)) \<le> event_buffer
    \<and> (\<forall>ic\<in>set (ip_conns p). \<not> ch_panicked (icn_events ic) \<and> length (ch_buf (icn_events ic)) \<le> event_buffer)
    \<and> (ch_closed (ip_events p) \<longrightarrow> (\<forall>entry\<in>set (ip_entries p). ae_pc entry = GoroutineDone))"
proof -
  have "\<forall>ic\<in>set (ip_conns p). chan_ok (icn_events ic)"
    using pool.reachable_ok [OF assms] by (simp add: pool_ok_def connection_ok_def)
  then show ?thesis
    using pool.never_panics [OF assms] pool_all_done [OF assms] by (simp add: pool_view_def chan_ok_def)
qed

text \<open>C26: The pool never notices that a connection was lost. A connection's channel is closed only by
  \<open>IdleConnection.Close\<close>, which only the account's own goroutine calls: whenever the goroutine waits
  in \<open>forwardEvents\<close> the connection is open and receiving from it yields an event or blocks, so
  the branch for a connection that closed unexpectedly, and with it the reconnection, is
  never taken.\<close>

theorem pool_connection_stays_open:
  assumes "(pool_step x)\<^sup>*\<^sup>* NewIdlePool p" and "n < length (ip_entries p)"
    and "ae_pc (ip_entries p ! n) = AtForward k"
  shows "\<not> icn_closed (ip_conns p ! k) \<and> fst (chan_recv (icn_events (ip_conns p ! k))) \<noteq> Closed"
proof -
  have "\<not> icn_closed (ip_conns p ! k)" "connection_ok (ip_conns p ! k)"
    using pool_ok_open [OF pool.reachable_ok [OF assms(1)] assms(2), of k] assms(3) by simp_all
  then show ?thesis by (auto simp: connection_ok_def chan_recv_def split: list.splits)
qed

section \<open>The backoff\<close>

lemma backoff_iterate:
  "ae_backoff entry = min (2 ^ j * second) maxBackoff \<Longrightarrow>
     ae_backoff ((handleConnectionError ^^ s) entry) = min (2 ^ (j + s) * second) maxBackoff"
proof (induction s)
  case (Suc s)
  let ?b = "2 ^ (j + s) * second :: int"
  have "ae_backoff ((handleConnectionError ^^ s) entry) = min ?b maxBackoff" using Suc by simp
  moreover have "min (2 * min b m) m = min (2 * b) m" if "0 \<le> b" "0 \<le> m" for b m :: int
    using that by (simp add: min_def)
  moreover have "0 \<le> ?b" "0 \<le> maxBackoff" by (simp_all add: duration_defs maxBackoff_def)
  ultimately have "ae_backoff (handleConnectionError ((handleConnectionError ^^ s) entry)) = min (2 * ?b) maxBackoff"
    by (auto simp: handleConnectionError_def Let_def backoffFactor_def min_def)
  then show ?case by (simp add: mult.assoc)
qed simp

lemma retry_iterate: "ae_retryCount ((handleConnectionError ^^ s) entry) = ae_retryCount entry + int s"
  by (induction s) (simp_all add: handleConnectionError_def Let_def)


section \<open>A concrete run\<close>

text \<open>A connection is made, an event arrives, and the pool is closed after the goroutine has received it.\<close>

definition demo_entry :: "pool_pc \<Rightarrow> nat option \<Rightarrow> accountEntry" where
  "demo_entry pc conn = (new_accountEntry demo_config)\<lparr>ae_conn := conn, ae_pc := pc\<rparr>"

definition demo_pool :: "channel \<Rightarrow> bool \<Rightarrow> pool_pc \<Rightarrow> nat option \<Rightarrow> IdleConnection list \<Rightarrow> nat list option \<Rightarrow> IdlePool" where
  "demo_pool ch closed pc conn conns closing = \<lparr>ip_events = ch,
     ip_accounts = (if closed then [] else [(''1'', 0)]), ip_closed = closed, ip_cancelled = closed,
     ip_entries = [demo_entry pc conn], ip_conns = conns, ip_removing = [], ip_closing = closing\<rparr>"

definition demo_mail :: IdleEvent where
  "demo_mail = \<lparr>ie_Type = EventNewMessage, ie_AccountID = ''1'', ie_Folder = ''INBOX'',
     ie_NumMessages = Some 1, ie_SeqNum = 0\<rparr>"

abbreviation demo_ic :: IdleConnection where
  "demo_ic \<equiv> new_IdleConnection demo_config"

lemmas demo_pool_defs = demo_pool_def demo_entry_def new_accountEntry_def update_entry_def update_conn_def

lemma demo_pool_connected:
  "(pool_step x)\<^sup>*\<^sup>* NewIdlePool (demo_pool make_chan False (AtForward 0) (Some 0) [demo_ic] None)"
proof -
  let ?p = "\<lambda>pc. demo_pool make_chan False pc None [] None"
  have s1: "pool_step x NewIdlePool (?p AtTop)"
    by (rule pool_step.add [where config = demo_config])
      (simp add: demo_pool_defs IdlePool_AddAccount_def IdleConfig_validate_def demo_config_def NewIdlePool_def)
  have s2: "pool_step x (?p AtTop) (?p AtConnect)"
    using pool_step.top [of 0 "?p AtTop" x] by (simp add: demo_pool_defs account_top_def stopping_def)
  have s3: "pool_step x (?p AtConnect) (demo_pool make_chan False (AtForward 0) (Some 0) [demo_ic] None)"
    using pool_step.connect [of 0 "?p AtConnect" x "Inr ()"]
    by (simp add: demo_pool_defs account_connected_def)
  from s1 s2 s3 show ?thesis by (meson rtranclp.rtrancl_refl rtranclp.rtrancl_into_rtrancl)
qed

lemma demo_pool_closed:
  "(pool_step True)\<^sup>*\<^sup>* NewIdlePool (demo_pool (make_chan\<lparr>ch_closed := True\<rparr>) True GoroutineDone None [demo_ic] None)"
proof -
  let ?p = "demo_pool make_chan False" and ?q = "demo_pool make_chan True"
  let ?ic = "demo_ic\<lparr>icn_events := make_chan\<lparr>ch_buf := [demo_mail]\<rparr>\<rparr>"
  have s4: "pool_step True (?p (AtForward 0) (Some 0) [demo_ic] None) (?p (AtForward 0) (Some 0) [?ic] None)"
    using pool_step.mail [of 0 "?p (AtForward 0) (Some 0) [demo_ic] None" True "Some 1"]
    by (simp add: demo_pool_defs handleMailboxUpdate_def new_IdleConnection_def make_chan_def try_send_def
        event_buffer_def demo_mail_def demo_config_def)
  have s5: "pool_step True (?p (AtForward 0) (Some 0) [?ic] None) (?p (AtCheck demo_mail 0) (Some 0) [demo_ic] None)"
    using pool_step.forward_event [of 0 "?p (AtForward 0) (Some 0) [?ic] None" 0 demo_mail make_chan True]
    by (simp add: demo_pool_defs new_IdleConnection_def make_chan_def chan_recv_def)
  have s6: "pool_step True (?p (AtCheck demo_mail 0) (Some 0) [demo_ic] None)
      (?q (AtCheck demo_mail 0) (Some 0) [demo_ic] (Some [0]))"
    by (rule pool_step.close) (simp_all add: demo_pool_defs IdlePool_Close_def)
  have s7: "pool_step True (?q (AtCheck demo_mail 0) (Some 0) [demo_ic] (Some [0]))
      (?q AtLeave (Some 0) [demo_ic] (Some [0]))"
    using pool_step.check [of 0 "?q (AtCheck demo_mail 0) (Some 0) [demo_ic] (Some [0])" demo_mail 0 True]
    by (simp add: demo_pool_defs forward_check_def)
  have s8: "pool_step True (?q AtLeave (Some 0) [demo_ic] (Some [0])) (?q AtTop None [demo_ic] (Some [0]))"
    using pool_step.leave [of 0 "?q AtLeave (Some 0) [demo_ic] (Some [0])" True] by (simp add: demo_pool_defs)
  have s9: "pool_step True (?q AtTop None [demo_ic] (Some [0])) (?q GoroutineDone None [demo_ic] (Some [0]))"
    using pool_step.top [of 0 "?q AtTop None [demo_ic] (Some [0])" True]
    by (simp add: demo_pool_defs account_top_def stopping_def closeConnection_def)
  have s10: "pool_step True (?q GoroutineDone None [demo_ic] (Some [0]))
      (demo_pool (make_chan\<lparr>ch_closed := True\<rparr>) True GoroutineDone None [demo_ic] None)"
    using pool_step.close_end [of "?q GoroutineDone None [demo_ic] (Some [0])" "[0]" True]
    by (simp add: demo_pool_defs IdlePool_Close_end_def chan_close_def)
  from demo_pool_connected [of True] s4 s5 s6 s7 s8 s9 s10 show ?thesis
    by (meson rtranclp.rtrancl_into_rtrancl)
qed

text \<open>C25: Closing the pool can leak a connection: a goroutine that has just received an event sees the
  closed flag and leaves \<open>forwardEvents\<close> without closing its connection, then forgets it. There
  is a run after which the pool's channel is closed and every goroutine has returned, while a
  connection is still open.\<close>

theorem pool_leaks_connection:
  "\<exists>p. (pool_step True)\<^sup>*\<^sup>* NewIdlePool p \<and> ch_closed (ip_events p)
     \<and> list_all (\<lambda>entry. ae_pc entry = GoroutineDone \<and> ae_conn entry = None) (ip_entries p)
     \<and> list_ex (\<lambda>ic. \<not> icn_closed ic) (ip_conns p)"
  using demo_pool_closed
  by (intro exI [of _ "demo_pool (make_chan\<lparr>ch_closed := True\<rparr>) True GoroutineDone None [demo_ic] None"])
    (simp add: demo_pool_defs new_IdleConnection_def)

theorem pool_never_panics_witness:
  "\<not> ch_panicked (make_chan\<lparr>ch_closed := True\<rparr>)
   \<and> list_all (\<lambda>entry. ae_pc entry = GoroutineDone) [demo_entry GoroutineDone None]"
  using pool_never_panics [OF demo_pool_closed] by (simp add: demo_pool_def)

theorem pool_connection_stays_open_witness:
  "\<not> icn_closed demo_ic \<and> fst (chan_recv (icn_events demo_ic)) \<noteq> Closed"
  using pool_connection_stays_open [OF demo_pool_connected, of 0 0] by (simp add: demo_pool_def demo_entry_def)

end
