(* ===== verification/SyncNet.thy ===== *)
theory SyncNet
  imports Imap Poller IdlePool
begin

text \<open>
  The conversations of \<open>internal/sync\<close> with the IMAP server: \<open>HasIdleCapability\<close> and the connection of
  \<open>idle.go\<close>, and the status request of \<open>poller.go\<close>.
\<close>

definition imap_caps_failed :: goerror where
  "imap_caps_failed = errors_New (SyncErr SyncCapsFailed) ''failed to retrieve server capabilities''"

definition HasIdleCapability :: "imap_net \<Rightarrow> string \<Rightarrow> int \<Rightarrow> string \<Rightarrow> string \<Rightarrow> bool imap" where
  "HasIdleCapability net host port username password =
     (case imap_Dial net host port of
        (Inl e, t) \<Rightarrow> (Inl (Errorf_wv (ImapErr ImapConnectionFailed) ''failed to connect to IMAP server'' e), t)
      | (Inr _, t) \<Rightarrow>
          (case net_login net host port username password of
             Inl e \<Rightarrow> (Inl (imap_ErrAuthFailed e), t @ [ConnClosed])
           | Inr s \<Rightarrow>
               (case im_caps s of None \<Rightarrow> Inl imap_caps_failed | Some caps \<Rightarrow> Inr (''IDLE'' \<in> set caps),
                t @ [LoggedIn, LoggedOut, ConnClosed])))"

text \<open>\<open>connect\<close>: on success the session stays open, in IDLE; on every failure it is closed.\<close>

definition idle_connect :: "imap_net \<Rightarrow> IdleConfig \<Rightarrow> unit imap" where
  "idle_connect net config =
     (case imap_Dial net (icf_Host config) (icf_Port config) of
        (Inl e, t) \<Rightarrow> (Inl (Errorf_ww (ImapErr ImapConnectionFailed) ''failed to connect to IMAP server'' e), t)
      | (Inr _, t) \<Rightarrow>
          (case net_login net (icf_Host config) (icf_Port config) (icf_Username config) (icf_Password config) of
             Inl e \<Rightarrow> (Inl (Errorf_ww (ImapErr ImapAuthFailed) ''authentication failed'' e), t @ [ConnClosed])
           | Inr s \<Rightarrow>
               (let give_up = (\<lambda>e. (Inl e, t @ [LoggedIn, LoggedOut, ConnClosed])) in
                case im_caps s of
                  None \<Rightarrow> give_up imap_caps_failed
                | Some caps \<Rightarrow>
                    if ''IDLE'' \<notin> set caps
                    then give_up (errors_New (SyncErr SyncIdleNotSupported) ''server does not support IDLE'')
                    else
                      (case im_select s (icf_Folder config) of
                         Inl e \<Rightarrow> give_up (Errorf_ww (ImapErr ImapSelectFailed) ''failed to select folder'' e)
                       | Inr _ \<Rightarrow>
                           (case im_idle s of
                              Inl e \<Rightarrow> give_up (Errorf_ww (SyncErr SyncIdleFailed) ''failed to enter IDLE mode'' e)
                            | Inr _ \<Rightarrow> (Inr (), t @ [LoggedIn]))))))"

definition NewIdleConnection :: "imap_net \<Rightarrow> IdleConfig \<Rightarrow> IdleConnection imap" where
  "NewIdleConnection net config =
     (case IdleConfig_validate config of
        Inl e \<Rightarrow> (Inl e, [])
      | Inr _ \<Rightarrow>
          (case idle_connect net config of
             (Inl e, t) \<Rightarrow> (Inl e, t)
           | (Inr _, t) \<Rightarrow> (Inr (new_IdleConnection config), t)))"

definition fetchStatus :: "imap_net \<Rightarrow> IdleConfig \<Rightarrow> folderStatus imap" where
  "fetchStatus net config =
     (case imap_Dial net (icf_Host config) (icf_Port config) of
        (Inl e, t) \<Rightarrow> (Inl (Errorf_ww (ImapErr ImapConnectionFailed) ''failed to connect to IMAP server'' e), t)
      | (Inr _, t) \<Rightarrow>
          (case net_login net (icf_Host config) (icf_Port config) (icf_Username config) (icf_Password config) of
             Inl e \<Rightarrow> (Inl (Errorf_ww (ImapErr ImapAuthFailed) ''authentication failed'' e), t @ [ConnClosed])
           | Inr s \<Rightarrow>
               (case im_status s (icf_Folder config) of
                  Inl e \<Rightarrow> Inl (Errorf_w ''STATUS failed'' e)
                | Inr (numMessages, uidNext) \<Rightarrow>
                    Inr \<lparr>fs_uidNext = uidNext, fs_numMessages = (case numMessages of None \<Rightarrow> 0 | Some n \<Rightarrow> n)\<rparr>,
                t @ [LoggedIn, LoggedOut, ConnClosed])))"


end
