(* ===== verification/Parser.thy ===== *)
theory Parser
  imports Domain
begin

text \<open>
  \<open>internal/parser/parser.go\<close>: from the envelope that the \<open>enmime\<close> library reads out of a raw
  message to the program's \<open>ParsedEmail\<close>. The library is the argument \<open>read_envelope\<close>; an
  envelope is what its accessors return.
\<close>

record mime_part =
  mp_FileName :: string
  mp_ContentType :: string
  mp_ContentID :: string
  mp_Content :: string

record envelope =
  env_GetHeader :: "string \<Rightarrow> string"
  env_Text :: string
  env_HTML :: string
  env_Date :: "time res"
  env_AddressList :: "string \<Rightarrow> (string \<times> string) list res"
  env_Attachments :: "mime_part list"
  env_Inlines :: "mime_part list"
  env_Errors :: "string list"

record ParsedAttachment =
  pa_Filename :: string
  pa_ContentType :: string
  pa_Size :: int
  pa_Data :: string
  pa_IsInline :: bool
  pa_ContentID :: string

record ParsedEmail =
  pe_MessageID :: string
  pe_Subject :: string
  pe_From :: EmailAddress
  pe_To :: "EmailAddress list"
  pe_CC :: "EmailAddress list"
  pe_Date :: time
  pe_Text :: string
  pe_HTML :: string
  pe_Attachments :: "ParsedAttachment list"
  pe_Errors :: "string list"

definition no_address :: EmailAddress where
  "no_address = \<lparr>ea_Name = [], ea_Email = []\<rparr>"

definition to_address :: "string \<times> string \<Rightarrow> EmailAddress" where
  "to_address a = \<lparr>ea_Name = fst a, ea_Email = snd a\<rparr>"

definition to_attachment :: "bool \<Rightarrow> mime_part \<Rightarrow> ParsedAttachment" where
  "to_attachment inl p =
     \<lparr>pa_Filename = mp_FileName p, pa_ContentType = mp_ContentType p,
      pa_Size = int (length (mp_Content p)), pa_Data = mp_Content p, pa_IsInline = inl,
      pa_ContentID = mp_ContentID p\<rparr>"

text \<open>A header that does not parse is reported only when the message has it.\<close>

definition header_error :: "envelope \<Rightarrow> string \<Rightarrow> string \<Rightarrow> 'a res \<Rightarrow> string list" where
  "header_error env header what r =
     (case r of
        Inr _ \<Rightarrow> []
      | Inl e \<Rightarrow> (if env_GetHeader env header \<noteq> [] then [what @ '' parsing failed: '' @ msg e] else []))"

definition recipients :: "(string \<times> string) list res \<Rightarrow> EmailAddress list" where
  "recipients r = (case r of Inl _ \<Rightarrow> [] | Inr as \<Rightarrow> map to_address as)"

definition envToEmail :: "envelope \<Rightarrow> ParsedEmail" where
  "envToEmail env =
     (let date = env_Date env;
          from_list = env_AddressList env ''From'';
          to_list = env_AddressList env ''To'';
          cc_list = env_AddressList env ''Cc''
      in \<lparr>pe_MessageID = env_GetHeader env ''Message-ID'', pe_Subject = env_GetHeader env ''Subject'',
          pe_From = (case from_list of Inr (a # _) \<Rightarrow> to_address a | _ \<Rightarrow> no_address),
          pe_To = recipients to_list, pe_CC = recipients cc_list,
          pe_Date = (case date of Inr t \<Rightarrow> t | Inl _ \<Rightarrow> time_zero),
          pe_Text = env_Text env, pe_HTML = env_HTML env,
          pe_Attachments = map (to_attachment False) (env_Attachments env)
            @ map (to_attachment True) (env_Inlines env),
          pe_Errors = header_error env ''Date'' ''date'' date
            @ header_error env ''From'' ''from address'' from_list
            @ header_error env ''To'' ''to address'' to_list
            @ header_error env ''Cc'' ''cc address'' cc_list
            @ env_Errors env\<rparr>)"

definition Parse :: "(string \<Rightarrow> envelope res) \<Rightarrow> string \<Rightarrow> ParsedEmail res" where
  "Parse read_envelope raw =
     (case read_envelope raw of
        Inl e \<Rightarrow> Inl (Errorf_w ''parsing email'' e)
      | Inr env \<Rightarrow> Inr (envToEmail env))"

text \<open>The size that is stored with an attachment is the length of its data.\<close>

lemma Parse_sizes:
  "Parse re raw = Inr p \<Longrightarrow> a \<in> set (pe_Attachments p) \<Longrightarrow> pa_Size a = int (length (pa_Data a))"
  by (auto simp: Parse_def envToEmail_def Let_def to_attachment_def split: sum.splits)

end
