(* ===== verification/Ingest.thy ===== *)
theory Ingest
  imports Faults Parser
begin

text \<open>
  \<open>internal/ingest/ingest.go\<close>: fetch a message from IMAP, parse it, upload its attachments,
  store the email, then the metadata of its attachments. The IMAP server is the argument
  \<open>mailbox\<close> (what \<open>imap.FetchRaw\<close> gets for host, port, user, password, folder and UID), the MIME
  library the argument \<open>read_envelope\<close>.
\<close>

section \<open>The pipeline\<close>

record Ingester =
  ing_ext :: externals
  ing_key :: string
  ing_storage :: S3Storage
  ing_mailbox :: "string \<Rightarrow> int \<Rightarrow> string \<Rightarrow> string \<Rightarrow> string \<Rightarrow> u32 \<Rightarrow> string res"
  ing_read_envelope :: "string \<Rightarrow> envelope res"

definition ingest_ErrAccountNotFound where
  "ingest_ErrAccountNotFound = errors_New (IngestErr IngestAccountNotFound) ''account not found''"
definition ingest_ErrEmailAlreadyExists where
  "ingest_ErrEmailAlreadyExists = errors_New (IngestErr IngestEmailAlreadyExists) ''email already exists''"

text \<open>Removing uploaded objects: a failure is logged and the loop goes on.\<close>

fun cleanup_uploads :: "S3Storage \<Rightarrow> string list \<Rightarrow> world \<Rightarrow> world" where
  "cleanup_uploads s [] w = w"
| "cleanup_uploads s (k # ks) w = cleanup_uploads s ks (snd (s3_Delete s k w))"

text \<open>Step 5, with the keys uploaded so far.\<close>

fun upload_attachments ::
  "S3Storage \<Rightarrow> string \<Rightarrow> int \<Rightarrow> string list \<Rightarrow> ParsedAttachment list \<Rightarrow> string list io" where
  "upload_attachments s acc uid s3Keys [] w = (Inr s3Keys, w)"
| "upload_attachments s acc uid s3Keys (att # atts) w =
     (let key = AttachmentKey acc uid (pa_Filename att)
      in case Upload s key (pa_Data att) (pa_ContentType att) w of
           (Inl e, w1) \<Rightarrow>
             (Inl (Errorf_w (''uploading attachment '' @ pa_Filename att) e), cleanup_uploads s s3Keys w1)
         | (Inr _, w1) \<Rightarrow> upload_attachments s acc uid (s3Keys @ [key]) atts w1)"

text \<open>Step 7, over the attachments and their keys.\<close>

fun store_attachments ::
  "uuid \<Rightarrow> attachment list \<Rightarrow> (ParsedAttachment \<times> string) list \<Rightarrow> attachment list io" where
  "store_attachments eid stored [] w = (Inr stored, w)"
| "store_attachments eid stored ((att, key) # atts) w =
     (case AttachmentRepository_Create
             \<lparr>cai_EmailID = eid, cai_Filename = pa_Filename att, cai_ContentType = pa_ContentType att,
              cai_Size = pa_Size att, cai_S3Key = key\<rparr> w of
        (Inl e, w1) \<Rightarrow> (Inl (Errorf_w (''storing attachment metadata '' @ pa_Filename att) e), w1)
      | (Inr a, w1) \<Rightarrow> store_attachments eid (stored @ [a]) atts w1)"

definition email_input :: "uuid \<Rightarrow> string \<Rightarrow> u32 \<Rightarrow> string \<Rightarrow> ParsedEmail \<Rightarrow> CreateEmailInput" where
  "email_input accountID folder uid raw p =
     \<lparr>cei_AccountID = accountID, cei_UID = uint uid, cei_MessageID = pe_MessageID p,
      cei_Folder = folder, cei_Subject = pe_Subject p, cei_FromEmail = ea_Email (pe_From p),
      cei_FromName = ea_Name (pe_From p), cei_To = Some (pe_To p), cei_CC = Some (pe_CC p),
      cei_Date = pe_Date p, cei_ParsedText = pe_Text p, cei_ParsedHTML = pe_HTML p, cei_Raw = raw,
      cei_Flags = Some []\<rparr>"

definition FetchRaw :: "Ingester \<Rightarrow> account \<Rightarrow> string \<Rightarrow> u32 \<Rightarrow> string io" where
  "FetchRaw i acc folder uid = call (\<lambda>w.
     (ing_mailbox i (acc_ImapHost acc) (acc_ImapPort acc) (acc_ImapUser acc) (acc_ImapPassword acc)
        folder uid, w))"

text \<open>Steps 5 to 7 on a fetched and parsed message.\<close>

definition store_parsed :: "Ingester \<Rightarrow> uuid \<Rightarrow> string \<Rightarrow> u32 \<Rightarrow> string \<Rightarrow> ParsedEmail \<Rightarrow> email io" where
  "store_parsed i accountID folder uid raw parsed =
     check (upload_attachments (ing_storage i) (x_uuid_String (ing_ext i) accountID) (uint uid) []
              (pe_Attachments parsed)) (\<lambda>e. e)
       (\<lambda>s3Keys w.
          (case EmailRepository_Create (email_input accountID folder uid raw parsed) w of
             (Inl e, w1) \<Rightarrow>
               (Inl (if errors_Is e (RepoErr RepoEmailAlreadyExists) then ingest_ErrEmailAlreadyExists
                     else Errorf_w ''storing email'' e),
                cleanup_uploads (ing_storage i) s3Keys w1)
           | (Inr email, w1) \<Rightarrow>
               check (store_attachments (em_ID email) [] (zip (pe_Attachments parsed) s3Keys)) (\<lambda>e. e)
                 (\<lambda>attachments. ok (email\<lparr>em_Attachments := Some attachments\<rparr>)) w1))"

text \<open>Steps 1 to 4: the raw message and its parse, if it is to be stored.\<close>

definition ingest_prepare :: "Ingester \<Rightarrow> uuid \<Rightarrow> string \<Rightarrow> u32 \<Rightarrow> (string \<times> ParsedEmail) io" where
  "ingest_prepare i accountID folder uid =
     check (AccountRepository_Get (ing_ext i) (ing_key i) accountID)
       (\<lambda>e. if errors_Is e (RepoErr RepoAccountNotFound) then ingest_ErrAccountNotFound
            else Errorf_w ''getting account'' e)
       (\<lambda>account.
          check (ExistsByUID accountID folder (uint uid)) (Errorf_w ''checking email exists'')
            (\<lambda>exists.
               if exists then fail ingest_ErrEmailAlreadyExists
               else check (FetchRaw i account folder uid) (Errorf_w ''fetching email from IMAP'')
                 (\<lambda>rawBytes.
                    check (ret (Parse (ing_read_envelope i) rawBytes)) (Errorf_w ''parsing email'')
                      (\<lambda>parsed. ok (rawBytes, parsed)))))"

definition IngestEmail :: "Ingester \<Rightarrow> uuid \<Rightarrow> string \<Rightarrow> u32 \<Rightarrow> email io" where
  "IngestEmail i accountID folder uid =
     check (ingest_prepare i accountID folder uid) (\<lambda>e. e)
       (\<lambda>(rawBytes, parsed). store_parsed i accountID folder uid rawBytes parsed)"

section \<open>What every ingestion keeps\<close>

lemma keeps_objects [inv_intros]:
  "keeps (winv I) (s3_PutObject k d)" "keeps (winv I) (s3_DeleteObject k)"
  unfolding s3_PutObject_def s3_DeleteObject_def
  by (auto intro!: keeps_winv_call simp: winv_def)

lemma keeps_s3 [inv_intros]: "keeps (winv I) (Upload s k d c)" "keeps (winv I) (s3_Delete s k)"
  unfolding Upload_def s3_Delete_def by (intro inv_intros)+

lemma winv_cleanup: "winv I w \<Longrightarrow> winv I (cleanup_uploads s ks w)"
  by (induction ks arbitrary: w) (auto intro: keepsD keeps_s3)

lemma keeps_uploads [inv_intros]: "keeps (winv I) (upload_attachments s acc uid prev atts)"
proof (rule keepsI)
  fix w assume "winv I w"
  then show "winv I (snd (upload_attachments s acc uid prev atts w))"
  proof (induction atts arbitrary: prev w)
    case (Cons att atts)
    have "winv I (snd (Upload s (AttachmentKey acc uid (pa_Filename att)) (pa_Data att) (pa_ContentType att) w))"
      by (intro keeps_winvD [OF _ Cons.prems] keeps_s3)
    with Cons.IH show ?case by (auto simp: Let_def winv_cleanup split: prod.splits sum.splits)
  qed simp
qed

lemma keeps_FetchRaw [inv_intros]: "keeps (winv I) (FetchRaw i acc folder uid)"
  unfolding FetchRaw_def by (rule keeps_winv_call) simp

context insert_invariant
begin

lemma keeps_store_attachments: "keeps (winv I) (store_attachments eid stored atts)"
proof (rule keepsI)
  fix w assume "winv I w"
  then show "winv I (snd (store_attachments eid stored atts w))"
  proof (induction eid stored atts w rule: store_attachments.induct)
    case (2 eid stored att key atts w)
    let ?r = "AttachmentRepository_Create
      \<lparr>cai_EmailID = eid, cai_Filename = pa_Filename att, cai_ContentType = pa_ContentType att,
       cai_Size = pa_Size att, cai_S3Key = key\<rparr> w"
    have "winv I (snd ?r)" by (intro keeps_winvD [OF _ 2(2)] keeps_repository_inserts)
    with 2(1) show ?case by (auto split: prod.splits sum.splits)
  qed simp
qed

lemma keeps_store_parsed: "keeps (winv I) (store_parsed i acc folder uid raw p)"
  unfolding store_parsed_def
proof (intro keeps_check inv_intros keepsI)
  fix s3Keys w assume w: "winv I w"
  have "winv I (snd (EmailRepository_Create (email_input acc folder uid raw p) w))"
    by (intro keeps_winvD [OF _ w] keeps_repository_inserts)
  then show "winv I (snd (case EmailRepository_Create (email_input acc folder uid raw p) w of
      (Inl e, w1) \<Rightarrow>
        (Inl (if errors_Is e (RepoErr RepoEmailAlreadyExists) then ingest_ErrEmailAlreadyExists
              else Errorf_w ''storing email'' e), cleanup_uploads (ing_storage i) s3Keys w1)
    | (Inr email, w1) \<Rightarrow>
        check (store_attachments (em_ID email) [] (zip (pe_Attachments p) s3Keys)) (\<lambda>e. e)
          (\<lambda>attachments. ok (email\<lparr>em_Attachments := Some attachments\<rparr>)) w1))"
    by (auto simp: winv_cleanup split: prod.splits sum.splits
        intro!: keeps_winvD keeps_check keeps_store_attachments inv_intros)
qed

lemma keeps_IngestEmail: "keeps (winv I) (IngestEmail i acc folder uid)"
  unfolding IngestEmail_def ingest_prepare_def case_prod_beta
  by (intro inv_intros keeps_store_parsed)

end

section \<open>Faults during the uploads\<close>

lemma s3_Delete_no_fault:
  "faults 0 w \<Longrightarrow> s3_Delete s k w = (Inr (), s3_remove k (next_call w))"
  by (simp add: s3_Delete_def check_def s3_DeleteObject_def call_no_fault)

lemma cleanup_no_fault:
  assumes "faults 0 w"
  shows "db (cleanup_uploads s ks w) = db w
    \<and> objects (cleanup_uploads s ks w) = (\<lambda>k. if k \<in> set ks then None else objects w k)
    \<and> faults 0 (cleanup_uploads s ks w)"
  using assms
proof (induction ks arbitrary: w)
  case (Cons k ks)
  have "faults 0 (s3_remove k (next_call w))"
    using faults_next [OF Cons.prems] by (rule faults_script_eq) simp
  from Cons.IH [OF this] show ?case
    by (auto simp: s3_Delete_no_fault [OF Cons.prems] s3.get_remove)
qed simp

abbreviation keys_of :: "string \<Rightarrow> int \<Rightarrow> ParsedAttachment list \<Rightarrow> string list" where
  "keys_of acc uid atts \<equiv> map (\<lambda>a. AttachmentKey acc uid (pa_Filename a)) atts"

abbreviation contents_of :: "string \<Rightarrow> int \<Rightarrow> ParsedAttachment list \<Rightarrow> (string \<times> string) list" where
  "contents_of acc uid atts \<equiv> map (\<lambda>a. (AttachmentKey acc uid (pa_Filename a), pa_Data a)) atts"

definition put_all :: "(string \<times> string) list \<Rightarrow> objects \<Rightarrow> objects" where
  "put_all kvs m = fold (\<lambda>(k, v) m. m(k \<mapsto> v)) kvs m"

interpretation bucket: object_store "\<lambda>k v m. m(k \<mapsto> v)" "\<lambda>k m. m(k := None)" "\<lambda>m. m"
  by unfold_locales auto

lemma put_all_simps [simp]: "put_all [] m = m" "put_all ((k, v) # kvs) m = put_all kvs (m(k \<mapsto> v))"
  by (simp_all add: put_all_def)

lemma put_all_get: "distinct (map fst kvs) \<Longrightarrow> (k, v) \<in> set kvs \<Longrightarrow> put_all kvs m k = Some v"
  unfolding put_all_def by (rule bucket.get_fold_put)

lemma put_all_other: "k \<notin> fst ` set kvs \<Longrightarrow> put_all kvs m k = m k"
  unfolding put_all_def by (rule bucket.get_fold_put_other)

lemma Upload_faults:
  assumes "faults n w"
  shows "(\<exists>url. Upload s key data ct w = (Inr url, s3_put key data (next_call w)))
    \<or> (\<exists>e. Upload s key data ct w = (Inl e, next_call w) \<and> n \<noteq> 0 \<and> faults (n - 1) (next_call w))"
  using call_faults [OF assms, of "\<lambda>w. (Inr (), s3_put key data w)"]
  by (auto simp: Upload_def check_def s3_PutObject_def)

lemma same_tables_put [simp]: "same_tables (s3_put k d w) w' = same_tables w w'"
  by (simp add: same_tables_def s3_put_def)

lemma objects_s3_put [simp]: "objects (s3_put k d w) = (objects w)(k \<mapsto> d)"
  by (simp add: s3_put_def)

text \<open>The uploads, with at most one refused call: on success every attachment's object is there
  and nothing else changed, on failure the objects uploaded so far are gone again.\<close>

lemma uploads_ok:
  assumes "faults n w" and "upload_attachments s acc uid prev atts w = (Inr ks, w')"
  shows "ks = prev @ keys_of acc uid atts \<and> faults n w'
    \<and> objects w' = put_all (contents_of acc uid atts) (objects w) \<and> same_tables w w'"
  using assms
proof (induction atts arbitrary: prev w)
  case Nil
  then show ?case by (simp add: same_tables_def)
next
  case (Cons att atts)
  let ?k = "AttachmentKey acc uid (pa_Filename att)"
  from Upload_faults [OF Cons.prems(1), of s ?k "pa_Data att" "pa_ContentType att"] Cons.prems(2)
  have "upload_attachments s acc uid (prev @ [?k]) atts (s3_put ?k (pa_Data att) (next_call w)) = (Inr ks, w')"
    by (auto simp: Let_def)
  moreover have "faults n (s3_put ?k (pa_Data att) (next_call w))"
    using faults_next [OF Cons.prems(1)] by (rule faults_script_eq) simp
  ultimately show ?case using Cons.IH by fastforce
qed

lemma cleanup_same_tables:
  "faults 0 w \<Longrightarrow> same_tables w (cleanup_uploads s ks w)"
proof (induction ks arbitrary: w)
  case (Cons k ks)
  have "faults 0 (s3_remove k (next_call w))"
    using faults_next [OF Cons.prems] by (rule faults_script_eq) simp
  from Cons.IH [OF this] show ?case
    by (simp add: s3_Delete_no_fault [OF Cons.prems] same_tables_def s3_remove_def)
qed (simp add: same_tables_def)

lemma uploads_fail:
  assumes "faults n w" and "n \<le> 1" and "upload_attachments s acc uid prev atts w = (Inl e, w')"
  shows "n = 1 \<and> faults 0 w' \<and> same_tables w w'
    \<and> (\<exists>j. objects w' = (\<lambda>k. if k \<in> set (prev @ keys_of acc uid (take j atts)) then None else objects w k))"
  using assms
proof (induction atts arbitrary: prev w)
  case (Cons att atts)
  let ?k = "AttachmentKey acc uid (pa_Filename att)" and ?w = "next_call w"
  let ?up = "Upload s ?k (pa_Data att) (pa_ContentType att) w"
  from Upload_faults [OF Cons.prems(1), of s ?k "pa_Data att" "pa_ContentType att"] show ?case
  proof (elim disjE exE conjE)
    fix url assume up: "?up = (Inr url, s3_put ?k (pa_Data att) ?w)"
    have f: "faults n (s3_put ?k (pa_Data att) ?w)"
      using faults_next [OF Cons.prems(1)] by (rule faults_script_eq) simp
    from up Cons.prems(3)
    have "upload_attachments s acc uid (prev @ [?k]) atts (s3_put ?k (pa_Data att) ?w) = (Inl e, w')"
      by (simp add: Let_def)
    from Cons.IH [OF f Cons.prems(2) this] obtain j where
      j: "objects w' = (\<lambda>k. if k \<in> set ((prev @ [?k]) @ keys_of acc uid (take j atts)) then None
                          else objects (s3_put ?k (pa_Data att) ?w) k)"
      and rest: "n = 1" "faults 0 w'" "same_tables w w'" by auto
    have "objects w' = (\<lambda>k. if k \<in> set (prev @ keys_of acc uid (take (Suc j) (att # atts))) then None
                          else objects w k)"
      unfolding j by (rule ext) simp
    with rest show ?case by blast
  next
    fix e' assume up: "?up = (Inl e', ?w)" and f: "n \<noteq> 0" "faults (n - 1) ?w"
    with Cons.prems(2) have n: "n = 1" "faults 0 ?w" by simp_all
    from up Cons.prems(3) have w': "w' = cleanup_uploads s prev ?w" by (simp add: Let_def)
    have "objects w' = (\<lambda>k. if k \<in> set (prev @ keys_of acc uid (take 0 (att # atts))) then None
                          else objects w k)"
      unfolding w' using cleanup_no_fault [OF n(2), of s prev] by (simp cong: if_cong)
    moreover have "faults 0 w'" "same_tables w w'"
      using cleanup_no_fault [OF n(2), of s prev] cleanup_same_tables [OF n(2), of s prev]
      by (simp_all add: w')
    ultimately show ?case using n(1) by blast
  qed
qed simp

section \<open>Preparation and insertion under faults\<close>

lemma reads_prepare: "reads (ingest_prepare i acc folder uid)"
proof -
  have sql: "reads (GetAccount acc)" "reads (EmailExistsByUID acc folder (uint uid))"
    unfolding GetAccount_def EmailExistsByUID_def by (rule reads_exec; simp add: selects)+
  have fetch: "reads (FetchRaw i a folder uid)" for a
    unfolding FetchRaw_def by (rule reads_call) simp_all
  show ?thesis
    unfolding ingest_prepare_def AccountRepository_Get_def ExistsByUID_def
    by (intro reads_check reads_if reads_ret sql fetch)
qed

lemma sql_insert_email_Inl: "sql_insert_email p new now d = (Inl e, d1) \<Longrightarrow> d1 = d"
  by (auto simp: sql_insert_email_def text_params_def jsonb_params_def Let_def split: if_splits)

text \<open>What an insertion does in a world with faults: it is carried out, the database rejects it,
  or the call is refused.\<close>

definition insertion :: "CreateEmailInput \<Rightarrow> world \<Rightarrow> email_row res \<times> database" where
  "insertion i w = sql_insert_email (insert_email_params i) (uuid_gen w (draws w)) (pg_micros (clock w)) (db w)"

lemma insertion_same_tables: "same_tables w w' \<Longrightarrow> insertion i w' = insertion i w"
  by (simp add: insertion_def same_tables_def)

lemma Create_faults:
  assumes "faults n w"
  obtains (stored) row d e where "insertion i w = (Inr row, d)"
      "EmailRepository_Create i w = (Inr e, (next_call w)\<lparr>db := d, draws := Suc (draws w)\<rparr>)"
      "toEmail row = Inr e"
  | (rejected) e' e where "insertion i w = (Inl e', db w)"
      "EmailRepository_Create i w = (Inl e, (next_call w)\<lparr>draws := Suc (draws w)\<rparr>)"
  | (refused) e where "EmailRepository_Create i w = (Inl e, next_call w)" "n \<noteq> 0" "faults (n - 1) (next_call w)"
proof (cases "insertion i w")
  case (Pair r d)
  let ?q = "\<lambda>w. let (r, d) = sql_insert_email (insert_email_params i) (uuid_gen w (draws w)) (pg_micros (clock w)) (db w)
               in (r, w\<lparr>db := d, draws := Suc (draws w)\<rparr>)"
  have q: "?q (next_call w) = (r, (next_call w)\<lparr>db := d, draws := Suc (draws w)\<rparr>)"
    using Pair by (simp add: insertion_def)
  from call_faults [OF assms, of ?q] show thesis
  proof (elim disjE exE conjE)
    assume c: "call ?q w = ?q (next_call w)"
    show thesis
    proof (cases r)
      case (Inl e')
      have "d = db w" using Pair Inl sql_insert_email_Inl by (fastforce simp: insertion_def)
      with c q Inl Pair show thesis
        by (intro rejected) (auto simp: EmailRepository_Create_def check_def InsertEmail_def exec_new_def)
    next
      case (Inr row)
      then obtain e where "toEmail row = Inr e"
        using Pair toEmail_inserted by (fastforce simp: insertion_def)
      with c q Inr Pair show thesis
        by (intro stored) (auto simp: EmailRepository_Create_def check_def InsertEmail_def exec_new_def)
    qed
  next
    fix e' assume "call ?q w = (Inl e', next_call w)" "n \<noteq> 0" "faults (n - 1) (next_call w)"
    then show thesis
      by (intro refused) (auto simp: EmailRepository_Create_def check_def InsertEmail_def exec_new_def)
  qed
qed

lemma Create_Inr:
  assumes "faults n w" and "EmailRepository_Create i w = (Inr e, w2)"
  shows "\<exists>row d. insertion i w = (Inr row, d) \<and> toEmail row = Inr e
    \<and> w2 = (next_call w)\<lparr>db := d, draws := Suc (draws w)\<rparr>"
  using assms(1) by (rule Create_faults [of n w i]) (use assms(2) in auto)

section \<open>Properties\<close>

subsection \<open>A stored email is complete\<close>

lemma attachment_created:
  assumes "script w = []"
    and "AttachmentRepository_Create i w = (Inr a, w')"
  shows "script w' = [] \<and> objects w' = objects w \<and> tEmails (db w') = tEmails (db w)
    \<and> tAccounts (db w') = tAccounts (db w)
    \<and> (\<exists>row. tAttachments (db w') = tAttachments (db w) @ [row] \<and> toAttachment row = a)
    \<and> att_EmailID a = cai_EmailID i \<and> att_Filename a = cai_Filename i
    \<and> att_ContentType a = cai_ContentType i \<and> att_Size a = cai_Size i \<and> att_S3Key a = cai_S3Key i"
  using assms
  by (auto simp: AttachmentRepository_Create_def check_def InsertAttachment_def exec_new_healthy
      sql_insert_attachment_def text_params_def toAttachment_def Let_def split: if_splits)

lemma store_attachments_ok:
  assumes "script w = []" and "store_attachments eid stored atts w = (Inr as, w')"
  shows "script w' = [] \<and> objects w' = objects w \<and> tEmails (db w') = tEmails (db w)
    \<and> tAccounts (db w') = tAccounts (db w)
    \<and> (\<exists>new. as = stored @ new
         \<and> (\<exists>rows. tAttachments (db w') = tAttachments (db w) @ rows \<and> map toAttachment rows = new)
         \<and> list_all2 (\<lambda>(att, key) a. att_EmailID a = eid \<and> att_Filename a = pa_Filename att
              \<and> att_ContentType a = pa_ContentType att \<and> att_Size a = pa_Size att \<and> att_S3Key a = key)
            atts new)"
  using assms
proof (induction eid stored atts w rule: store_attachments.induct)
  case (1 eid stored w)
  then show ?case by simp
next
  case (2 eid stored att key atts w)
  let ?i = "\<lparr>cai_EmailID = eid, cai_Filename = pa_Filename att, cai_ContentType = pa_ContentType att,
              cai_Size = pa_Size att, cai_S3Key = key\<rparr>"
  from 2(3) obtain a w1 where c: "AttachmentRepository_Create ?i w = (Inr a, w1)"
    and r: "store_attachments eid (stored @ [a]) atts w1 = (Inr as, w')"
    by (auto split: prod.splits sum.splits)
  note a = attachment_created [OF 2(2) c]
  from 2(1) [OF c [symmetric] refl _ r] a obtain new rows where
    "script w' = []" "objects w' = objects w" "tEmails (db w') = tEmails (db w)" "tAccounts (db w') = tAccounts (db w)"
    "as = (stored @ [a]) @ new" "tAttachments (db w') = tAttachments (db w1) @ rows" "map toAttachment rows = new"
    and l: "list_all2 (\<lambda>(att, key) a. att_EmailID a = eid \<and> att_Filename a = pa_Filename att
              \<and> att_ContentType a = pa_ContentType att \<and> att_Size a = pa_Size att \<and> att_S3Key a = key)
            atts new" by auto
  moreover from a obtain row where "tAttachments (db w1) = tAttachments (db w) @ [row]" "toAttachment row = a"
    by blast
  ultimately show ?case
    using a by (intro conjI exI [of _ "a # new"] exI [of _ "row # rows"]) auto
qed

lemma faults_0_script: "faults 0 w \<Longrightarrow> set (script w) \<subseteq> {Healthy}"
  by (auto simp: faults_def filter_empty_conv)

lemma prepare_healthy:
  assumes "script w = []" and "ingest_prepare i acc folder uid w = (Inr (raw, parsed), w1)"
  shows "w1 = w \<and> (acc, folder, uint uid) \<notin> email_key ` set (tEmails (db w)) \<and> pg_text_ok folder
    \<and> (\<exists>a. AccountRepository_Get (ing_ext i) (ing_key i) acc w = (Inr a, w)
         \<and> ing_mailbox i (acc_ImapHost a) (acc_ImapPort a) (acc_ImapUser a) (acc_ImapPassword a) folder uid = Inr raw)
    \<and> Parse (ing_read_envelope i) raw = Inr parsed"
proof -
  obtain a w2 where acc: "AccountRepository_Get (ing_ext i) (ing_key i) acc w = (Inr a, w2)"
    using assms(2) by (auto simp: ingest_prepare_def check_def split: prod.splits sum.splits)
  then have w2: "w2 = w"
    using assms(1) by (auto simp: AccountRepository_Get_def check_def GetAccount_def exec_healthy
        sql_get_account_def split: sum.splits)
  show ?thesis
    using assms(2) acc unfolding w2
    by (auto simp: ingest_prepare_def check_def ExistsByUID_def
        EmailExistsByUID_def exec_healthy [OF assms(1)] sql_email_exists_by_uid_def text_params_def
        FetchRaw_def call_healthy [OF assms(1)] list_ex_iff split: if_splits prod.splits sum.splits)
qed

lemma uploads_script:
  "script w = [] \<Longrightarrow> upload_attachments s acc uid prev atts w = (Inr ks, w') \<Longrightarrow> script w' = []"
proof (induction atts arbitrary: prev w)
  case (Cons att atts)
  let ?k = "AttachmentKey acc uid (pa_Filename att)"
  from Cons.prems have "upload_attachments s acc uid (prev @ [?k]) atts (s3_put ?k (pa_Data att) w) = (Inr ks, w')"
    by (simp add: Upload_healthy Let_def)
  from Cons.IH [OF _ this] Cons.prems(1) show ?case by simp
qed simp

lemma store_parsed_ok:
  assumes w: "script w = []" and run: "store_parsed i acc folder uid raw parsed w = (Inr e, w')"
  defines "ks \<equiv> keys_of (x_uuid_String (ing_ext i) acc) (uint uid) (pe_Attachments parsed)"
  shows "\<exists>row d e0 as rows.
    insertion (email_input acc folder uid raw parsed) w = (Inr row, d) \<and> toEmail row = Inr e0
    \<and> e = e0\<lparr>em_Attachments := Some as\<rparr> \<and> script w' = []
    \<and> tEmails (db w') = tEmails d \<and> tAccounts (db w') = tAccounts d
    \<and> tAttachments (db w') = tAttachments d @ rows \<and> map toAttachment rows = as
    \<and> list_all2 (\<lambda>(att, key) a. att_EmailID a = em_ID e0 \<and> att_Filename a = pa_Filename att
         \<and> att_ContentType a = pa_ContentType att \<and> att_Size a = pa_Size att \<and> att_S3Key a = key)
       (zip (pe_Attachments parsed) ks) as
    \<and> objects w' = put_all (contents_of (x_uuid_String (ing_ext i) acc) (uint uid) (pe_Attachments parsed)) (objects w)"
proof -
  let ?acc = "x_uuid_String (ing_ext i) acc" and ?in = "email_input acc folder uid raw parsed"
  obtain ks' w1 where up: "upload_attachments (ing_storage i) ?acc (uint uid) [] (pe_Attachments parsed) w = (Inr ks', w1)"
    using run by (auto simp: store_parsed_def check_def split: prod.splits sum.splits)
  note u = uploads_ok [OF faults_Nil [OF w, of 0] up]
  have s1: "script w1 = []" using uploads_script [OF w up] .
  have ks: "ks' = ks" using u by (simp add: ks_def)
  obtain e0 w2 where c: "EmailRepository_Create ?in w1 = (Inr e0, w2)"
    and st: "check (store_attachments (em_ID e0) [] (zip (pe_Attachments parsed) ks)) (\<lambda>e. e)
      (\<lambda>attachments. ok (e0\<lparr>em_Attachments := Some attachments\<rparr>)) w2 = (Inr e, w')"
    using run up ks by (auto simp: store_parsed_def check_def split: prod.splits sum.splits)
  from Create_Inr [OF faults_Nil [OF s1, of 0] c] obtain row d where
    ins: "insertion ?in w1 = (Inr row, d)" "toEmail row = Inr e0"
    and w2: "w2 = (next_call w1)\<lparr>db := d, draws := Suc (draws w1)\<rparr>" by blast
  have ins_w: "insertion ?in w = (Inr row, d)" using ins insertion_same_tables u by metis
  have s2: "script w2 = []" using s1 by (simp add: w2 next_call_def)
  obtain as where sa: "store_attachments (em_ID e0) [] (zip (pe_Attachments parsed) ks) w2 = (Inr as, w')"
    and e: "e = e0\<lparr>em_Attachments := Some as\<rparr>"
    using st by (auto simp: check_def split: prod.splits sum.splits)
  from store_attachments_ok [OF s2 sa] obtain rows where
    "tAttachments (db w') = tAttachments d @ rows" "map toAttachment rows = as" by (auto simp: w2)
  then show ?thesis
    using store_attachments_ok [OF s2 sa] ins_w ins(2) e u
    by (intro exI [of _ row] exI [of _ d] exI [of _ e0] exI [of _ as] exI [of _ rows]) (simp add: w2)
qed

lemma insertion_Inr:
  assumes "insertion (email_input acc folder uid raw parsed) w = (Inr row, d)"
  shows "tEmails d = tEmails (db w) @ [row] \<and> email_key row = (acc, folder, uint uid)
    \<and> tAccounts d = tAccounts (db w) \<and> tAttachments d = tAttachments (db w)"
  using sql_insert_email_Inr [OF assms [unfolded insertion_def]]
  by (simp add: insert_email_params_def email_input_def)


text \<open>A concrete ingestion, with one attachment.\<close>

definition demo_envelope :: envelope where
  "demo_envelope = \<lparr>env_GetHeader = (\<lambda>_. []), env_Text = ''hello'', env_HTML = [], env_Date = Inr 2000,
     env_AddressList = (\<lambda>_. Inr []),
     env_Attachments = [\<lparr>mp_FileName = ''a.txt'', mp_ContentType = ''text/plain'', mp_ContentID = [],
                         mp_Content = ''data''\<rparr>],
     env_Inlines = [], env_Errors = []\<rparr>"

definition demo_ingester :: Ingester where
  "demo_ingester = \<lparr>ing_ext = demo_externals, ing_key = demo_key,
     ing_storage = \<lparr>s3_presign = (\<lambda>b k t. Inr k), s3_bucket = ''b'', s3_endpoint = ''http://s3''\<rparr>,
     ing_mailbox = (\<lambda>_ _ _ _ _ _. Inr ''raw''), ing_read_envelope = (\<lambda>_. Inr demo_envelope)\<rparr>"

lemma demo_Decrypt:
  "length n = 12 \<Longrightarrow> Decrypt demo_externals (base64_Encode (n @ demo_key @ p)) demo_key = Inr p"
  by (simp add: Decrypt_def base64_roundtrip gcm_nonce_size_def demo_key_def demo_externals_def)

lemma demo_account_password:
  "dbA_ImapPassword demo_account = base64_Encode (replicate 12 (CHR ''n'') @ demo_key @ ''pw'')"
  unfolding demo_account_def demo_key_def by (simp only: account_row.select_convs)

lemma demo_toAccount: "\<exists>a. toAccount demo_externals demo_key demo_account = Inr a"
proof -
  have "dbA_SmtpPassword demo_account = None" by (simp add: demo_account_def)
  then show ?thesis
    using demo_Decrypt [of "replicate 12 (CHR ''n'')" "''pw''"]
    by (simp add: toAccount_def demo_account_password)
qed

lemma demo_prepare:
  "ingest_prepare demo_ingester 1 ''INBOX'' 7 (demo_world (demo_db\<lparr>tWebhooks := ws\<rparr>))
     = (Inr (''raw'', envToEmail demo_envelope), demo_world (demo_db\<lparr>tWebhooks := ws\<rparr>))"
proof -
  obtain a where a: "toAccount demo_externals demo_key demo_account = Inr a" using demo_toAccount by blast
  show ?thesis
    by (simp add: ingest_prepare_def check_def AccountRepository_Get_def GetAccount_def exec_healthy
        sql_get_account_def demo_defs demo_ingester_def one_row_def a ExistsByUID_def EmailExistsByUID_def
        sql_email_exists_by_uid_def text_params_def demo_text_ok FetchRaw_def call_healthy Parse_def)
qed

lemma demo_key_text: "AttachmentKey (nat_digits (Suc 0)) 7 ''a.txt'' = ''1/7/a.txt''"
  by code_simp

lemma demo_ingest_with:
  "\<exists>e w'. IngestEmail demo_ingester 1 ''INBOX'' 7 (demo_world (demo_db\<lparr>tWebhooks := ws\<rparr>)) = (Inr e, w')
     \<and> tWebhooks (db w') = ws \<and> tQueue (db w') = [] \<and> uuid_gen w' = (\<lambda>n. n + 100)"
proof -
  let ?w = "demo_world (demo_db\<lparr>tWebhooks := ws\<rparr>)"
  have "IngestEmail demo_ingester 1 ''INBOX'' 7 ?w = store_parsed demo_ingester 1 ''INBOX'' 7 ''raw'' (envToEmail demo_envelope) ?w"
    by (simp add: IngestEmail_def check_def demo_prepare del: One_nat_def)
  then show ?thesis
    by (simp add: store_parsed_def check_def
        envToEmail_def demo_envelope_def to_attachment_def recipients_def no_address_def Let_def
        Upload_healthy demo_ingester_def EmailRepository_Create_def InsertEmail_def exec_new_healthy
        sql_insert_email_def text_params_def jsonb_params_def insert_email_params_def email_input_def
        ptrString_def opt_texts_def marshal_recipients_def ascii_text_ok demo_defs toEmail_def
        unmarshal_recipients_def AttachmentRepository_Create_def InsertAttachment_def
        sql_insert_attachment_def demo_key_text demo_externals_def s3_put_def)
qed

lemma demo_ingest:
  "\<exists>e w'. IngestEmail demo_ingester 1 ''INBOX'' 7 (demo_world demo_db) = (Inr e, w')"
proof -
  have "demo_db\<lparr>tWebhooks := []\<rparr> = demo_db" by (simp add: demo_db_def empty_db_def)
  with demo_ingest_with [of "[]"] show ?thesis by auto
qed


subsection \<open>Ingesting twice\<close>

lemma Get_account_tables:
  assumes "script w = []" and "AccountRepository_Get x key acc w = (Inr a, w)"
    and "script w' = []" and "tAccounts (db w') = tAccounts (db w)"
  shows "AccountRepository_Get x key acc w' = (Inr a, w')"
  using assms
  by (auto simp: AccountRepository_Get_def check_def GetAccount_def exec_healthy sql_get_account_def
      split: sum.splits)

text \<open>C8: ingesting a stored message again does nothing: \<open>IngestEmail\<close> of the same account, folder and
  UID returns \<open>ErrEmailAlreadyExists\<close> and changes neither tables nor objects, so the retries of
  the synchroniser store every message once.\<close>

theorem ingest_twice:
  assumes w: "script w = []" and run: "IngestEmail i acc folder uid w = (Inr e, w1)"
  shows "IngestEmail i acc folder uid w1 = (Inl ingest_ErrEmailAlreadyExists, w1)"
proof -
  obtain raw parsed w2 where prep: "ingest_prepare i acc folder uid w = (Inr (raw, parsed), w2)"
    and store2: "store_parsed i acc folder uid raw parsed w2 = (Inr e, w1)"
    using run by (auto simp: IngestEmail_def check_def split: prod.splits sum.splits)
  note p = prepare_healthy [OF w prep]
  have store: "store_parsed i acc folder uid raw parsed w = (Inr e, w1)" using store2 p by simp
  from store_parsed_ok [OF w store] obtain row d where
    ins: "insertion (email_input acc folder uid raw parsed) w = (Inr row, d)"
    and tabs: "script w1 = []" "tEmails (db w1) = tEmails d" "tAccounts (db w1) = tAccounts d" by blast
  note d = insertion_Inr [OF ins]
  from p obtain a where acc: "AccountRepository_Get (ing_ext i) (ing_key i) acc w = (Inr a, w)" by blast
  have get: "AccountRepository_Get (ing_ext i) (ing_key i) acc w1 = (Inr a, w1)"
    by (rule Get_account_tables [OF w acc]) (use tabs d in simp_all)
  have "ExistsByUID acc folder (uint uid) w1 = (Inr True, w1)"
    using p d tabs
    by (simp add: ExistsByUID_def check_def EmailExistsByUID_def exec_healthy
        sql_email_exists_by_uid_def text_params_def)
  then have "ingest_prepare i acc folder uid w1 = (Inl ingest_ErrEmailAlreadyExists, w1)"
    using get by (simp add: ingest_prepare_def check_def)
  then show ?thesis by (simp add: IngestEmail_def check_def)
qed

theorem ingest_twice_witness:
  "\<exists>e w1. IngestEmail demo_ingester 1 ''INBOX'' 7 (demo_world demo_db) = (Inr e, w1)
     \<and> IngestEmail demo_ingester 1 ''INBOX'' 7 w1 = (Inl ingest_ErrEmailAlreadyExists, w1)"
proof -
  obtain e w1 where run: "IngestEmail demo_ingester 1 ''INBOX'' 7 (demo_world demo_db) = (Inr e, w1)"
    using demo_ingest by blast
  with ingest_twice [OF demo_script run] show ?thesis by blast
qed

subsection \<open>A failed ingestion leaves nothing behind\<close>

lemma keys_prefix:
  "k \<in> set (keys_of acc uid (take j atts)) \<Longrightarrow> k \<in> set (keys_of acc uid atts)"
  by (auto dest: in_set_takeD)

lemma store_attachments_emails:
  assumes "faults n w" and "store_attachments eid stored atts w = (r, w')"
  shows "tEmails (db w') = tEmails (db w)"
proof -
  have step: "tEmails (db (snd (AttachmentRepository_Create c v))) = tEmails (db v)" if "faults m v" for c v m
    using call_faults [OF that, of "\<lambda>w. let (r, d) = sql_insert_attachment
        \<lparr>iap_EmailID = cai_EmailID c, iap_Filename = cai_Filename c, iap_ContentType = cai_ContentType c,
         iap_Size = cai_Size c, iap_S3Key = cai_S3Key c\<rparr> (uuid_gen w (draws w)) (pg_micros (clock w)) (db w)
      in (r, w\<lparr>db := d, draws := Suc (draws w)\<rparr>)"]
    by (auto simp: AttachmentRepository_Create_def check_def InsertAttachment_def exec_new_def
        sql_insert_attachment_def text_params_def Let_def split: prod.splits sum.splits if_splits)
  have keep: "faults m v \<Longrightarrow> AttachmentRepository_Create c v = (Inr a, v') \<Longrightarrow> faults m v'" for c v m a v'
    using call_faults [of m v "\<lambda>w. let (r, d) = sql_insert_attachment
        \<lparr>iap_EmailID = cai_EmailID c, iap_Filename = cai_Filename c, iap_ContentType = cai_ContentType c,
         iap_Size = cai_Size c, iap_S3Key = cai_S3Key c\<rparr> (uuid_gen w (draws w)) (pg_micros (clock w)) (db w)
      in (r, w\<lparr>db := d, draws := Suc (draws w)\<rparr>)"] faults_next [of m v]
    by (auto simp: AttachmentRepository_Create_def check_def InsertAttachment_def exec_new_def Let_def
        split: prod.splits sum.splits intro: faults_script_eq)
  show ?thesis
    using assms
  proof (induction eid stored atts w rule: store_attachments.induct)
    case (2 eid stored att key atts w)
    let ?c = "\<lparr>cai_EmailID = eid, cai_Filename = pa_Filename att, cai_ContentType = pa_ContentType att,
              cai_Size = pa_Size att, cai_S3Key = key\<rparr>"
    obtain r1 w1 where c: "AttachmentRepository_Create ?c w = (r1, w1)" by fastforce
    have e1: "tEmails (db w1) = tEmails (db w)" using step [OF 2(2), of ?c] c by simp
    show ?case
    proof (cases r1)
      case (Inl e)
      with c 2(3) e1 show ?thesis by simp
    next
      case (Inr a)
      with 2(1) [OF c [symmetric] Inr keep [OF 2(2) c [unfolded Inr]]] c 2(3) e1 show ?thesis by simp
    qed
  qed simp
qed

text \<open>When storing a parsed message fails before its row is inserted, the tables are as before and
  the objects of the message that were uploaded, or that had the same key, are gone.\<close>

lemma cleanup_restores:
  fixes s :: S3Storage
  assumes "objects w1 = put_all (contents_of acc uid atts) (objects w)"
    and w2: "faults 0 w2" "db w2 = db w" "objects w2 = objects w1"
  defines "w' \<equiv> cleanup_uploads s (keys_of acc uid atts) w2"
  shows "db w' = db w \<and> objects w' = (\<lambda>k. if k \<in> set (keys_of acc uid atts) then None else objects w k)"
proof -
  have "objects w2 k = objects w k" if "k \<notin> set (keys_of acc uid atts)" for k
    using that assms(1) w2(3) put_all_other [of k "contents_of acc uid atts"] by (auto simp: image_iff)
  with cleanup_no_fault [OF w2(1), of s "keys_of acc uid atts"] w2(2) show ?thesis
    by (simp add: w'_def fun_eq_iff)
qed

lemma store_parsed_fail:
  assumes f: "faults n w" and n: "n \<le> 1"
    and one: "n = 0 \<or> (\<exists>row d. insertion (email_input acc folder uid raw parsed) w = (Inr row, d))"
    and run: "store_parsed i acc folder uid raw parsed w = (Inl e, w')"
    and unstored: "tEmails (db w') = tEmails (db w)"
  shows "db w' = db w
    \<and> (\<exists>j. objects w' = (\<lambda>k. if k \<in> set (keys_of (x_uuid_String (ing_ext i) acc) (uint uid)
            (take j (pe_Attachments parsed))) then None else objects w k))
    \<and> (n = 0 \<longrightarrow> (\<forall>k\<in>set (keys_of (x_uuid_String (ing_ext i) acc) (uint uid) (pe_Attachments parsed)).
                 objects w' k = None))"
proof -
  let ?acc = "x_uuid_String (ing_ext i) acc" and ?in = "email_input acc folder uid raw parsed"
  let ?atts = "pe_Attachments parsed" and ?s = "ing_storage i"
  obtain r1 w1 where up: "upload_attachments ?s ?acc (uint uid) [] ?atts w = (r1, w1)" by fastforce
  show ?thesis
  proof (cases r1)
    case (Inl e1)
    with up run have "w' = w1" by (simp add: store_parsed_def check_def)
    with uploads_fail [OF f n up [unfolded Inl]] show ?thesis by (auto simp: same_tables_def)
  next
    case (Inr ks)
    note u = uploads_ok [OF f up [unfolded Inr]]
    have same: "insertion ?in w1 = insertion ?in w" using u insertion_same_tables by blast
    have f1: "faults n w1" and st: "same_tables w w1" and ks: "ks = keys_of ?acc (uint uid) ?atts" using u by auto
    have clean: ?thesis if "faults 0 w2" "db w2 = db w" "objects w2 = objects w1" "w' = cleanup_uploads ?s ks w2" for w2
      using cleanup_restores [of w1 ?acc "uint uid" ?atts w w2 ?s] u that
      by (auto simp: ks intro!: exI [of _ "length ?atts"])
    from f1 show ?thesis
    proof (cases rule: Create_faults [of n w1 ?in])
      case (stored row d e0)
      let ?w2 = "(next_call w1)\<lparr>db := d, draws := Suc (draws w1)\<rparr>"
      have "tEmails (db w') = tEmails d"
        using run up Inr stored(2) store_attachments_emails [of n ?w2 "em_ID e0" "[]" "zip ?atts ks"]
          faults_script_eq [OF faults_next [OF f1], of ?w2]
        by (auto simp: store_parsed_def check_def split: sum.splits prod.splits)
      moreover have "tEmails d = tEmails (db w) @ [row]"
        using insertion_Inr stored(1) same by metis
      ultimately show ?thesis using unstored by simp
    next
      case (rejected e' e2)
      with one same have "n = 0" by auto
      moreover have "w' = cleanup_uploads ?s ks ((next_call w1)\<lparr>draws := Suc (draws w1)\<rparr>)"
        using run up Inr rejected(2) by (simp add: store_parsed_def check_def)
      ultimately show ?thesis
        using clean [of "(next_call w1)\<lparr>draws := Suc (draws w1)\<rparr>"] st
          faults_script_eq [OF faults_next [OF f1], of "(next_call w1)\<lparr>draws := Suc (draws w1)\<rparr>"]
        by (simp add: same_tables_def)
    next
      case (refused e2)
      then have "w' = cleanup_uploads ?s ks (next_call w1)"
        using run up Inr by (simp add: store_parsed_def check_def)
      moreover have "faults 0 (next_call w1)" using refused n by (cases n) auto
      ultimately show ?thesis using clean [of "next_call w1"] st by (simp add: same_tables_def)
    qed
  qed
qed


text \<open>The fifth call, the insertion of the email, is refused.\<close>

definition demo_refused :: world where
  "demo_refused = (demo_world demo_db)\<lparr>script := [Healthy, Healthy, Healthy, Healthy, Refused ErrNoRows]\<rparr>"

lemma demo_refused_prepare:
  "ingest_prepare demo_ingester 1 ''INBOX'' 7 demo_refused
     = (Inr (''raw'', envToEmail demo_envelope), (demo_world demo_db)\<lparr>script := [Healthy, Refused ErrNoRows]\<rparr>)"
proof -
  obtain a where a: "toAccount demo_externals demo_key demo_account = Inr a" using demo_toAccount by blast
  show ?thesis
    by (simp add: ingest_prepare_def check_def AccountRepository_Get_def GetAccount_def exec_def call_def
        sql_get_account_def demo_defs demo_ingester_def one_row_def a ExistsByUID_def EmailExistsByUID_def
        sql_email_exists_by_uid_def text_params_def demo_text_ok FetchRaw_def Parse_def demo_refused_def)
qed

lemma demo_refused_run:
  "\<exists>e w'. IngestEmail demo_ingester 1 ''INBOX'' 7 demo_refused = (Inl e, w') \<and> db w' = demo_db"
proof -
  have "IngestEmail demo_ingester 1 ''INBOX'' 7 demo_refused
     = store_parsed demo_ingester 1 ''INBOX'' 7 ''raw'' (envToEmail demo_envelope)
         ((demo_world demo_db)\<lparr>script := [Healthy, Refused ErrNoRows]\<rparr>)"
    by (simp add: IngestEmail_def check_def demo_refused_prepare del: One_nat_def)
  then show ?thesis
    by (simp add: store_parsed_def check_def envToEmail_def demo_envelope_def to_attachment_def
        Upload_def s3_PutObject_def s3_put_def s3_Delete_def s3_DeleteObject_def s3_remove_def call_def
        demo_ingester_def EmailRepository_Create_def InsertEmail_def exec_new_def Let_def demo_world_def)
qed


text \<open>C9: the key of an object does not hold the folder, and the cleanup after a rejected
  insertion removes every key of the message: it also deletes the objects of another stored message
  of the account with the same UID (in another folder) and the same file names.\<close>

theorem ingest_cleanup_deletes_shared:
  assumes "faults 0 w" and "store_parsed i acc folder uid raw parsed w = (Inl e, w')"
    and "tEmails (db w') = tEmails (db w)"
    and "r \<in> set (tAttachments (db w))"
    and "dbT_S3Key r \<in> set (keys_of (x_uuid_String (ing_ext i) acc) (uint uid) (pe_Attachments parsed))"
  shows "r \<in> set (tAttachments (db w')) \<and> objects w' (dbT_S3Key r) = None"
  using store_parsed_fail [OF assms(1) _ _ assms(2,3)] assms(4,5) by auto

definition demo_shared :: world where
  "demo_shared = (demo_world (demo_mails\<lparr>tAttachments :=
       [\<lparr>dbT_ID = 50, dbT_EmailID = 10, dbT_Filename = ''a.txt'', dbT_ContentType = ''text/plain'',
         dbT_Size = 4, dbT_S3Key = ''1/7/a.txt''\<rparr>]\<rparr>))
     \<lparr>objects := [''1/7/a.txt'' \<mapsto> ''old'']\<rparr>"

lemma demo_shared_run:
  "\<exists>e w'. store_parsed demo_ingester 1 ''Sent'' 7 [CHR 0x00] (envToEmail demo_envelope) demo_shared = (Inl e, w')
     \<and> db w' = db demo_shared"
  by (simp add: store_parsed_def check_def envToEmail_def demo_envelope_def to_attachment_def
      Upload_healthy s3_Delete_healthy demo_ingester_def EmailRepository_Create_def InsertEmail_def
      exec_new_healthy sql_insert_email_def text_params_def insert_email_params_def email_input_def
      ptrString_def opt_texts_def pg_text_ok_def Let_def demo_shared_def demo_world_def s3_put_def s3_remove_def)

theorem ingest_cleanup_deletes_shared_witness:
  "\<exists>e w' r. store_parsed demo_ingester 1 ''Sent'' 7 [CHR 0x00] (envToEmail demo_envelope) demo_shared = (Inl e, w')
     \<and> objects demo_shared (dbT_S3Key r) = Some ''old''
     \<and> r \<in> set (tAttachments (db w')) \<and> objects w' (dbT_S3Key r) = None"
proof -
  obtain e w' where run:
    "store_parsed demo_ingester 1 ''Sent'' 7 [CHR 0x00] (envToEmail demo_envelope) demo_shared = (Inl e, w')"
    and d: "db w' = db demo_shared" using demo_shared_run by blast
  define r where "r = hd (tAttachments (db demo_shared))"
  have r: "r \<in> set (tAttachments (db demo_shared))" "dbT_S3Key r = ''1/7/a.txt''"
    by (simp_all add: r_def demo_shared_def demo_world_def)
  have "x_uuid_String (ing_ext demo_ingester) 1 = nat_digits (Suc 0)"
    by (simp add: demo_ingester_def demo_externals_def)
  then have k: "dbT_S3Key r \<in> set (keys_of (x_uuid_String (ing_ext demo_ingester) 1) (uint (7::u32))
      (pe_Attachments (envToEmail demo_envelope)))"
    by (simp add: r(2) envToEmail_def demo_envelope_def to_attachment_def demo_key_text Let_def
        del: One_nat_def)
  have "faults 0 demo_shared" by (simp add: demo_shared_def demo_world_def faults_def)
  from ingest_cleanup_deletes_shared [OF this run _ r(1) k] d
  have "r \<in> set (tAttachments (db w'))" "objects w' (dbT_S3Key r) = None" by simp_all
  moreover have "objects demo_shared (dbT_S3Key r) = Some ''old''" by (simp add: r(2) demo_shared_def)
  ultimately show ?thesis using run by blast
qed

end
