(* ===== verification/Coordinator.thy ===== *)
theory Coordinator
  imports SyncNet Ingest WebhookProducer
begin

text \<open>
  \<open>internal/sync/coordinator.go\<close>: which accounts are watched by IDLE and which are polled, and what
  happens on an event: the UIDs above the last one seen are fetched and each is ingested, and the
  event handler queues the webhooks of every new message.
\<close>

section \<open>State\<close>

text \<open>\<open>co_lastUIDs\<close> is the map from \<open>accountID:folder\<close> to the last UID seen; \<open>co_poolLoop\<close> and
  \<open>co_pollerLoop\<close> say which event loops run: they are the wait group that \<open>Close\<close> waits for.\<close>

record Coordinator =
  co_ext :: externals
  co_key :: string
  co_net :: imap_net
  co_pool :: IdlePool
  co_poller :: Poller
  co_ingester :: Ingester
  co_lastUIDs :: "string \<Rightarrow> u32 option"
  co_eventHandler :: "(email \<Rightarrow> world \<Rightarrow> world) option"
  co_cancelled :: bool
  co_closed :: bool
  co_poolLoop :: bool
  co_pollerLoop :: bool

record CoordinatorConfig =
  cc_PollInterval :: int
  cc_EventHandler :: "(email \<Rightarrow> world \<Rightarrow> world) option"

definition NewCoordinator ::
  "externals \<Rightarrow> string \<Rightarrow> imap_net \<Rightarrow> Ingester \<Rightarrow> CoordinatorConfig \<Rightarrow> Coordinator" where
  "NewCoordinator x key net ingester config =
     (let pollInterval = (if cc_PollInterval config = 0 then sync_DefaultPollInterval else cc_PollInterval config)
      in \<lparr>co_ext = x, co_key = key, co_net = net, co_pool = NewIdlePool, co_poller = NewPoller pollInterval,
          co_ingester = ingester, co_lastUIDs = (\<lambda>_. None), co_eventHandler = cc_EventHandler config,
          co_cancelled = False, co_closed = False, co_poolLoop = False, co_pollerLoop = False\<rparr>)"

definition coordinator_Start :: "Coordinator \<Rightarrow> Coordinator" where
  "coordinator_Start c = c\<lparr>co_poolLoop := True, co_pollerLoop := True\<rparr>"

text \<open>A conversation with the IMAP server as one external call.\<close>

definition imap_io :: "'a imap \<Rightarrow> 'a io" where
  "imap_io op = call (\<lambda>w. (fst op, w))"

section \<open>Accounts\<close>

definition account_config :: "Coordinator \<Rightarrow> uuid \<Rightarrow> account \<Rightarrow> IdleConfig" where
  "account_config c accountID a =
     \<lparr>icf_AccountID = x_uuid_String (co_ext c) accountID, icf_Host = acc_ImapHost a, icf_Port = acc_ImapPort a,
      icf_Username = acc_ImapUser a, icf_Password = acc_ImapPassword a, icf_Folder = ''INBOX''\<rparr>"

text \<open>\<open>AddAccount\<close> in its two parts, between which other goroutines run: the account is read and the server
  asked, without a lock, and then the account is registered.\<close>

definition coordinator_probe :: "uuid \<Rightarrow> Coordinator \<Rightarrow> (IdleConfig \<times> bool) io" where
  "coordinator_probe accountID c w =
     (if co_closed c then (Inl ErrCoordinatorClosed, w)
      else
        (case AccountRepository_Get (co_ext c) (co_key c) accountID w of
           (Inl e, w1) \<Rightarrow> (Inl e, w1)
         | (Inr a, w1) \<Rightarrow>
             (let config = account_config c accountID a
              in case imap_io (HasIdleCapability (co_net c) (icf_Host config) (icf_Port config)
                                 (icf_Username config) (icf_Password config)) w1 of
                   (Inl _, w2) \<Rightarrow> (Inr (config, False), w2)
                 | (Inr hasIdle, w2) \<Rightarrow> (Inr (config, hasIdle), w2))))"

definition coordinator_register :: "IdleConfig \<times> bool \<Rightarrow> Coordinator \<Rightarrow> unit res \<times> Coordinator" where
  "coordinator_register target c =
     (if snd target
      then (let (r, p) = IdlePool_AddAccount (fst target) (co_pool c) in (r, c\<lparr>co_pool := p\<rparr>))
      else (let (r, p) = Poller_AddAccount (fst target) (co_poller c) in (r, c\<lparr>co_poller := p\<rparr>)))"

definition coordinator_AddAccount ::
  "uuid \<Rightarrow> Coordinator \<Rightarrow> world \<Rightarrow> (unit res \<times> Coordinator) \<times> world" where
  "coordinator_AddAccount accountID c w =
     (case coordinator_probe accountID c w of
        (Inl e, w1) \<Rightarrow> ((Inl e, c), w1)
      | (Inr target, w1) \<Rightarrow> (coordinator_register target c, w1))"

lemmas AddAccount_defs = coordinator_AddAccount_def coordinator_probe_def coordinator_register_def

text \<open>\<open>RemoveAccount\<close> of the pool and of the poller, run to their end: the account's goroutine has been
  stopped, has closed its connection and has returned.\<close>

definition pool_remove :: "string \<Rightarrow> IdlePool \<Rightarrow> unit res \<times> IdlePool" where
  "pool_remove acc p =
     (case IdlePool_RemoveAccount acc p of
        (Inl e, p1) \<Rightarrow> (Inl e, p1)
      | (Inr n, p1) \<Rightarrow>
          (Inr (), (update_entry n (\<lambda>e. e\<lparr>ae_stopped := True, ae_conn := None, ae_pc := GoroutineDone\<rparr>)
                      (closeConnection n p1))\<lparr>ip_removing := ip_removing p\<rparr>))"

definition poller_remove :: "string \<Rightarrow> Poller \<Rightarrow> unit res \<times> Poller" where
  "poller_remove acc p =
     (case Poller_RemoveAccount acc p of
        (Inl e, p1) \<Rightarrow> (Inl e, p1)
      | (Inr n, p1) \<Rightarrow>
          (Inr (), (set_entry n ((pl_entries p1 ! n)\<lparr>ple_stopped := True, ple_pc := Returned\<rparr>) p1)
                     \<lparr>pl_removing := pl_removing p\<rparr>))"

definition coordinator_RemoveAccount :: "uuid \<Rightarrow> Coordinator \<Rightarrow> unit res \<times> Coordinator" where
  "coordinator_RemoveAccount accountID c =
     (if co_closed c then (Inl ErrCoordinatorClosed, c)
      else
        (let accountIDStr = x_uuid_String (co_ext c) accountID;
             (poolErr, pool) = pool_remove accountIDStr (co_pool c);
             (pollerErr, poller) = poller_remove accountIDStr (co_poller c);
             c1 = c\<lparr>co_pool := pool, co_poller := poller,
                    co_lastUIDs := (\<lambda>key. if HasPrefix key (accountIDStr @ '':'') then None else co_lastUIDs c key)\<rparr>
         in case (poolErr, pollerErr) of
              (Inl e, Inl e') \<Rightarrow>
                if errors_Is e (SyncErr SyncAccountNotFound) \<and> errors_Is e' (SyncErr SyncAccountNotFound)
                then (Inl ErrAccountNotFound, c1) else (Inl e, c1)
            | _ \<Rightarrow> (Inr (), c1)))"

record CoordinatorStats =
  cs_IdleAccounts :: nat
  cs_PolledAccounts :: nat
  cs_ConnectedIdle :: nat

definition coordinator_Stats :: "Coordinator \<Rightarrow> CoordinatorStats" where
  "coordinator_Stats c =
     \<lparr>cs_IdleAccounts = IdlePool_TotalAccounts (co_pool c), cs_PolledAccounts = Poller_TotalAccounts (co_poller c),
      cs_ConnectedIdle = ConnectedAccounts (co_pool c)\<rparr>"

text \<open>\<open>Close\<close> of the pool and of the poller run to their end.\<close>

definition pool_shutdown :: "IdlePool \<Rightarrow> unit res \<times> IdlePool" where
  "pool_shutdown p =
     (case IdlePool_Close p of
        (Inl e, p1) \<Rightarrow> (Inl e, p1)
      | (Inr _, p1) \<Rightarrow>
          (Inr (), IdlePool_Close_end (p1\<lparr>ip_entries := map (\<lambda>e. e\<lparr>ae_conn := None, ae_pc := GoroutineDone\<rparr>) (ip_entries p1)\<rparr>)))"

definition poller_shutdown :: "Poller \<Rightarrow> unit res \<times> Poller" where
  "poller_shutdown p =
     (case Poller_Close p of
        (Inl e, p1) \<Rightarrow> (Inl e, p1)
      | (Inr _, p1) \<Rightarrow>
          (Inr (), Poller_Close_end (p1\<lparr>pl_entries := map (\<lambda>e. e\<lparr>ple_pc := Returned\<rparr>) (pl_entries p1)\<rparr>)))"

definition coordinator_Close :: "Coordinator \<Rightarrow> unit res \<times> Coordinator" where
  "coordinator_Close c =
     (if co_closed c then (Inl ErrAlreadyClosed, c)
      else
        (let (r1, pool) = pool_shutdown (co_pool c);
             (r2, poller) = poller_shutdown (co_poller c);
             errs = (case r1 of Inl e \<Rightarrow> [e] | Inr _ \<Rightarrow> []) @ (case r2 of Inl e \<Rightarrow> [e] | Inr _ \<Rightarrow> [])
         in (if errs = [] then Inr () else Inl (errors_Join errs),
             c\<lparr>co_closed := True, co_cancelled := True, co_pool := pool, co_poller := poller,
               co_poolLoop := False, co_pollerLoop := False\<rparr>)))"

section \<open>Events\<close>

text \<open>The loop over the new UIDs, with the last UID that was ingested or existed; \<open>stops\<close> are the polls of
  \<open>ctx.Done()\<close>, and \<open>None\<close> is the return on shutdown.\<close>

fun ingest_uids ::
  "Ingester \<Rightarrow> (email \<Rightarrow> world \<Rightarrow> world) option \<Rightarrow> uuid \<Rightarrow> string \<Rightarrow> bool list \<Rightarrow> u32 list \<Rightarrow> u32 \<Rightarrow> world
   \<Rightarrow> u32 option \<times> world" where
  "ingest_uids i handler acc folder stops [] lastSuccess w = (Some lastSuccess, w)"
| "ingest_uids i handler acc folder stops (uid # uids) lastSuccess w =
     (if stops \<noteq> [] \<and> hd stops then (None, w)
      else
        (case IngestEmail i acc folder uid w of
           (Inl err, w1) \<Rightarrow>
             ingest_uids i handler acc folder (tl stops) uids
               (if errors_Is err (IngestErr IngestEmailAlreadyExists) then uid else lastSuccess) w1
         | (Inr email, w1) \<Rightarrow>
             ingest_uids i handler acc folder (tl stops) uids uid
               (case handler of None \<Rightarrow> w1 | Some h \<Rightarrow> h email w1)))"

definition uid_key :: "IdleEvent \<Rightarrow> string" where
  "uid_key event = ie_AccountID event @ '':'' @ ie_Folder event"

definition last_uid :: "Coordinator \<Rightarrow> string \<Rightarrow> u32" where
  "last_uid c key = (case co_lastUIDs c key of None \<Rightarrow> 0 | Some u \<Rightarrow> u)"

definition handleEvent :: "bool list \<Rightarrow> IdleEvent \<Rightarrow> Coordinator \<Rightarrow> world \<Rightarrow> Coordinator \<times> world" where
  "handleEvent stops event c w =
     (if ie_Type event \<noteq> EventNewMessage then (c, w)
      else case x_uuid_Parse (co_ext c) (ie_AccountID event) of
        Inl _ \<Rightarrow> (c, w)
      | Inr accountID \<Rightarrow>
          (case AccountRepository_Get (co_ext c) (co_key c) accountID w of
             (Inl _, w1) \<Rightarrow> (c, w1)
           | (Inr account, w1) \<Rightarrow>
               (case imap_io (FetchUIDsAfter (co_net c) (acc_ImapHost account) (acc_ImapPort account)
                        (acc_ImapUser account) (acc_ImapPassword account) (ie_Folder event)
                        (last_uid c (uid_key event))) w1 of
                  (Inl _, w2) \<Rightarrow> (c, w2)
                | (Inr newUIDs, w2) \<Rightarrow>
                    if newUIDs = [] then (c, w2)
                    else
                      (case ingest_uids (co_ingester c) (co_eventHandler c) accountID (ie_Folder event)
                               stops newUIDs 0 w2 of
                         (None, w3) \<Rightarrow> (c, w3)
                       | (Some lastSuccessUID, w3) \<Rightarrow>
                           (if lastSuccessUID > 0 \<and> lastSuccessUID > last_uid c (uid_key event)
                            then c\<lparr>co_lastUIDs := (co_lastUIDs c)(uid_key event \<mapsto> lastSuccessUID)\<rparr> else c, w3)))))"

text \<open>One iteration of an event loop, over the pool's channel or the poller's. When the context is cancelled and an
  event is waiting as well, \<open>select\<close> takes any of the two: \<open>first\<close> is its choice. The loop ends on the
  cancellation or when the channel is closed and empty, and blocks when there is nothing.\<close>

definition processPoolEvent :: "bool \<Rightarrow> bool list \<Rightarrow> Coordinator \<Rightarrow> world \<Rightarrow> Coordinator \<times> world" where
  "processPoolEvent first stops c w =
     (if first \<and> co_cancelled c then (c\<lparr>co_poolLoop := False\<rparr>, w)
      else case chan_recv (ip_events (co_pool c)) of
        (Event event, ch) \<Rightarrow> handleEvent stops event (c\<lparr>co_pool := (co_pool c)\<lparr>ip_events := ch\<rparr>\<rparr>) w
      | (Closed, ch) \<Rightarrow> (c\<lparr>co_poolLoop := False\<rparr>, w)
      | (Blocked, ch) \<Rightarrow> (c, w))"

definition processPollerEvent :: "bool \<Rightarrow> bool list \<Rightarrow> Coordinator \<Rightarrow> world \<Rightarrow> Coordinator \<times> world" where
  "processPollerEvent first stops c w =
     (if first \<and> co_cancelled c then (c\<lparr>co_pollerLoop := False\<rparr>, w)
      else case chan_recv (pl_events (co_poller c)) of
        (Event event, ch) \<Rightarrow> handleEvent stops event (c\<lparr>co_poller := (co_poller c)\<lparr>pl_events := ch\<rparr>\<rparr>) w
      | (Closed, ch) \<Rightarrow> (c\<lparr>co_pollerLoop := False\<rparr>, w)
      | (Blocked, ch) \<Rightarrow> (c, w))"

section \<open>What ingestion and queueing leave behind\<close>

definition stored_keys :: "world \<Rightarrow> (uuid \<times> string \<times> int) set" where
  "stored_keys w = email_key ` set (tEmails (db w))"

text \<open>Without interference, stored messages stay stored and no interference appears.\<close>

definition grows :: "world \<Rightarrow> world \<Rightarrow> bool" where
  "grows w w' \<longleftrightarrow> (no_races w \<longrightarrow> no_races w' \<and> stored_keys w \<subseteq> stored_keys w')"

lemma grows_refl [simp]: "grows w w" by (simp add: grows_def)

lemma grows_trans [trans]: "grows w w1 \<Longrightarrow> grows w1 w2 \<Longrightarrow> grows w w2"
  by (auto simp: grows_def)

interpretation stored: insert_invariant "\<lambda>d. K \<subseteq> email_key ` set (tEmails d)" for K
  by unfold_locales
    (auto simp: sql_insert_email_def sql_insert_attachment_def sql_create_webhook_queue_item_def
      text_params_def jsonb_params_def Let_def)

lemma growsI:
  assumes "uses_script m" and "\<And>K. keeps (winv (\<lambda>d. K \<subseteq> email_key ` set (tEmails d))) m" and "m w = (r, w')"
  shows "grows w w'"
  unfolding grows_def
proof (intro impI conjI)
  assume n: "no_races w"
  show n': "no_races w'" using no_races_uses [OF assms(1,3) n] .
  from keepsD_eq [OF assms(2) [of "stored_keys w"] _ assms(3)] n n' show "stored_keys w \<subseteq> stored_keys w'"
    by (simp add: no_races_winv stored_keys_def)
qed

lemma uses_script_call_id [script_intros]: "(\<And>w. snd (q w) = w) \<Longrightarrow> uses_script (call q)"
  by (rule uses_script_call) simp

lemma uses_script_s3 [script_intros]:
  "uses_script (Upload s k d ct)" "uses_script (s3_Delete s k)" "uses_script (Download s k)"
  "uses_script (GeneratePresignedURL s k t)"
proof -
  have put: "uses_script (s3_PutObject k d)" "uses_script (s3_DeleteObject k)" for k d
    unfolding s3_PutObject_def s3_DeleteObject_def
    by (auto intro!: uses_script_call simp: s3_put_def s3_remove_def quiet_def)
  show "uses_script (Upload s k d ct)" "uses_script (s3_Delete s k)"
    unfolding Upload_def s3_Delete_def by (intro script_intros put)+
  show "uses_script (Download s k)" unfolding Download_def s3_GetObject_def
    by (intro script_intros) (auto split: option.splits)
  show "uses_script (GeneratePresignedURL s k t)"
    unfolding GeneratePresignedURL_def by (intro script_intros) simp
qed

lemma quiet_cleanup: "quiet w (cleanup_uploads s ks w)"
proof (induction ks arbitrary: w)
  case (Cons k ks)
  have "quiet w (snd (s3_Delete s k w))"
    using uses_script_s3(2) by (simp add: uses_script_def)
  from quiet_trans [OF this Cons] show ?case by simp
qed simp

lemma uses_script_uploads [script_intros]: "uses_script (upload_attachments s acc uid prev atts)"
  unfolding uses_script_def
proof (rule allI)
  fix w show "quiet w (snd (upload_attachments s acc uid prev atts w))"
  proof (induction atts arbitrary: prev w)
    case (Cons att atts)
    obtain r w1 where u: "Upload s (AttachmentKey acc uid (pa_Filename att)) (pa_Data att) (pa_ContentType att) w = (r, w1)"
      by fastforce
    note up = quiet_trans [OF uses_scriptD [OF uses_script_s3(1) u]]
    from up [OF Cons.IH [of w1 "prev @ [AttachmentKey acc uid (pa_Filename att)]"]] up [OF quiet_cleanup [of w1 s prev]] u
    show ?case by (cases r) (auto simp: Let_def)
  qed simp
qed

lemma uses_script_store [script_intros]: "uses_script (store_attachments eid stored atts)"
  unfolding uses_script_def
proof (rule allI)
  fix w show "quiet w (snd (store_attachments eid stored atts w))"
  proof (induction eid stored atts w rule: store_attachments.induct)
    case (2 eid stored att key atts w)
    let ?m = "AttachmentRepository_Create
      \<lparr>cai_EmailID = eid, cai_Filename = pa_Filename att, cai_ContentType = pa_ContentType att,
       cai_Size = pa_Size att, cai_S3Key = key\<rparr>"
    have "uses_script ?m" unfolding AttachmentRepository_Create_def InsertAttachment_def by (intro script_intros)
    moreover obtain r w1 where c: "?m w = (r, w1)" by fastforce
    ultimately have "quiet w w1" by (rule uses_scriptD)
    with 2 c show ?case by (cases r) (auto intro: quiet_trans [of w w1])
  qed simp
qed

lemma uses_script_Create [script_intros]: "uses_script (EmailRepository_Create ei)"
  unfolding EmailRepository_Create_def InsertEmail_def by (intro script_intros)

lemma uses_script_store_parsed [script_intros]: "uses_script (store_parsed i acc folder uid raw p)"
  unfolding store_parsed_def
proof (intro script_intros, unfold uses_script_def, rule allI)
  fix ks w
  obtain r w1 where c: "EmailRepository_Create (email_input acc folder uid raw p) w = (r, w1)" by fastforce
  have "uses_script (check (store_attachments (em_ID email) [] (zip (pe_Attachments p) ks)) (\<lambda>e. e)
      (\<lambda>attachments. ok (email\<lparr>em_Attachments := Some attachments\<rparr>)))" for email
    by (intro script_intros)
  with uses_scriptD [OF uses_script_Create c] quiet_cleanup [of w1 "ing_storage i" ks] c
  show "quiet w (snd (case EmailRepository_Create (email_input acc folder uid raw p) w of
      (Inl e, w1) \<Rightarrow>
        (Inl (if errors_Is e (RepoErr RepoEmailAlreadyExists) then ingest_ErrEmailAlreadyExists
              else Errorf_w ''storing email'' e), cleanup_uploads (ing_storage i) ks w1)
    | (Inr email, w1) \<Rightarrow>
        check (store_attachments (em_ID email) [] (zip (pe_Attachments p) ks)) (\<lambda>e. e)
          (\<lambda>attachments. ok (email\<lparr>em_Attachments := Some attachments\<rparr>)) w1))"
    by (cases r) (auto simp: uses_script_def intro: quiet_trans)
qed

lemma uses_script_prepare [script_intros]: "uses_script (ingest_prepare i acc folder uid)"
  unfolding ingest_prepare_def AccountRepository_Get_def GetAccount_def ExistsByUID_def EmailExistsByUID_def FetchRaw_def
  by (intro script_intros) simp

lemma uses_script_Ingest [script_intros]: "uses_script (IngestEmail i acc folder uid)"
  unfolding IngestEmail_def case_prod_beta by (intro script_intros)

lemma ingest_grows: "IngestEmail i acc folder uid w = (r, w') \<Longrightarrow> grows w w'"
  by (rule growsI [OF uses_script_Ingest stored.keeps_IngestEmail])

text \<open>An ingestion that returns an e-mail has stored it.\<close>

lemma Create_stores:
  assumes "EmailRepository_Create i w = (Inr e, w')"
  shows "(cei_AccountID i, cei_Folder i, cei_UID i) \<in> stored_keys w'"
proof -
  obtain row where row: "InsertEmail (insert_email_params i) w = (Inr row, w')"
    using assms by (auto simp: EmailRepository_Create_def check_def split: prod.splits sum.splits)
  then obtain w0 where "(let (r, d) = sql_insert_email (insert_email_params i) (uuid_gen w0 (draws w0))
      (pg_micros (clock w0)) (db w0) in (r, w0\<lparr>db := d, draws := Suc (draws w0)\<rparr>)) = (Inr row, w')"
    unfolding InsertEmail_def exec_new_def using call_Inr by fast
  then obtain d where d: "sql_insert_email (insert_email_params i) (uuid_gen w0 (draws w0))
      (pg_micros (clock w0)) (db w0) = (Inr row, d)" "db w' = d"
    by (auto simp: Let_def split: prod.splits)
  from sql_insert_email_Inr [OF d(1)] show ?thesis
    by (simp add: stored_keys_def d(2) insert_email_params_def)
qed

lemma ingest_stores:
  assumes n: "no_races w" and run: "IngestEmail i acc folder uid w = (Inr e, w')"
  shows "(acc, folder, uint uid) \<in> stored_keys w'"
proof -
  obtain raw parsed w1 where p: "ingest_prepare i acc folder uid w = (Inr (raw, parsed), w1)"
    and s: "store_parsed i acc folder uid raw parsed w1 = (Inr e, w')"
    using run by (auto simp: IngestEmail_def check_def split: prod.splits sum.splits)
  have n1: "no_races w1" using no_races_uses [OF uses_script_prepare p n] .
  let ?up = "upload_attachments (ing_storage i) (x_uuid_String (ing_ext i) acc) (uint uid) [] (pe_Attachments parsed)"
  let ?in = "email_input acc folder uid raw parsed"
  obtain ks w2 em w3 r where u: "?up w1 = (Inr ks, w2)" and c: "EmailRepository_Create ?in w2 = (Inr em, w3)"
    and t: "store_attachments (em_ID em) [] (zip (pe_Attachments parsed) ks) w3 = (r, w')"
    using s by (auto simp: store_parsed_def check_def split: prod.splits sum.splits)
  have "no_races w2" using no_races_uses [OF uses_script_uploads u n1] .
  then have n3: "no_races w3" using no_races_uses [OF uses_script_Create c] by blast
  have "grows w3 w'" by (rule growsI [OF uses_script_store stored.keeps_store_attachments t])
  with n3 Create_stores [OF c] show ?thesis by (auto simp: grows_def email_input_def)
qed

text \<open>The event handler of the program.\<close>

lemma uses_script_queue [script_intros]: "uses_script (QueueForEmail p email)"
proof -
  have url: "quiet w (snd (attachment_url s att pl w))" for s att pl w
    using uses_script_s3(4) unfolding attachment_url_def uses_script_def
    by (auto split: prod.splits sum.splits) (metis snd_conv quiet_trans)+
  have att: "quiet w (snd (attachment_payload s att w))" for s att w
  proof -
    obtain r w1 where d: "Download s (att_S3Key att) w = (r, w1)" by fastforce
    from quiet_trans [OF uses_scriptD [OF uses_script_s3(3) d]] uses_scriptD [OF uses_script_s3(3) d] d url show ?thesis
      by (auto simp: attachment_payload_def Let_def split: sum.splits if_splits)
  qed
  have atts: "quiet w (snd (attachment_payloads s as w))" for s as w
  proof (induction as arbitrary: w)
    case (Cons a as)
    from quiet_trans [OF att [of w s a] Cons] show ?case by (auto simp: Let_def case_prod_beta split: option.splits)
  qed simp
  have rows: "quiet w (snd (queue_rows whs eid pl w))" for whs eid pl w
  proof (induction whs arbitrary: w)
    case (Cons wh whs)
    obtain r w1 where c: "CreateWebhookQueueItem (wh_ID wh) eid pl w = (r, w1)" by fastforce
    have "uses_script (CreateWebhookQueueItem (wh_ID wh) eid pl)"
      unfolding CreateWebhookQueueItem_def by (intro script_intros)
    from quiet_trans [OF uses_scriptD [OF this c] Cons] c show ?case
      by (auto simp: Let_def case_prod_beta split: sum.splits)
  qed simp
  have "uses_script (GetForAccount x key acc)" for x key acc
    unfolding GetForAccount_def GetWebhooksForAccount_def by (intro script_intros)
  then show ?thesis
    unfolding QueueForEmail_def
  proof (intro script_intros, simp, unfold uses_script_def, intro allI)
    fix whs w
    obtain payload w1 where b: "buildPayload p email w = (payload, w1)" by fastforce
    have "quiet w w1"
      using b atts by (auto simp: buildPayload_def Let_def case_prod_beta split: option.splits)
    with b rows show "quiet w (snd (if whs = [] then (Inr (), w)
          else
            (let (payload, w1) = buildPayload p email w
             in case prod_marshal p payload of
                  Inl e \<Rightarrow> (Inl (Errorf_w ''marshaling payload'' e), w1)
                | Inr payloadBytes \<Rightarrow>
                    (let (queuedCount, w2) = queue_rows whs (em_ID email) payloadBytes w1
                     in if queuedCount = 0
                        then (Inl (errors_New Other (''failed to queue all ''
                               @ Itoa (int (length whs)) @ '' webhooks for email ''
                               @ x_uuid_String (prod_ext p) (em_ID email))), w2)
                        else (Inr (), w2)))))"
      by (auto simp: Let_def case_prod_beta split: sum.splits intro: quiet_trans)
  qed
qed

lemma handler_grows: "grows w (producer_EventHandler p email w)"
proof -
  obtain r w' where "QueueForEmail p email w = (r, w')" by fastforce
  with growsI [OF uses_script_queue stored.keeps_QueueForEmail this] show ?thesis
    by (simp add: producer_EventHandler_def)
qed

context insert_invariant
begin

text \<open>An event keeps the invariant of the tables, if its handler does.\<close>

lemma winv_ingest_uids:
  "winv I w \<Longrightarrow> \<forall>h email w. handler = Some h \<longrightarrow> winv I w \<longrightarrow> winv I (h email w) \<Longrightarrow>
     winv I (snd (ingest_uids i handler acc folder stops uids l w))"
proof (induction i handler acc folder stops uids l w rule: ingest_uids.induct)
  case (2 i handler acc folder stops uid uids l w)
  obtain r w1 where run: "IngestEmail i acc folder uid w = (r, w1)" by fastforce
  have w1: "winv I w1" using keepsD_eq [OF keeps_IngestEmail 2(3) run] .
  show ?case
  proof (cases "stops \<noteq> [] \<and> hd stops")
    case False
    with 2(1) [OF False run [symmetric]] 2(2) [OF False run [symmetric]] run w1 2(4) show ?thesis
      by (cases r) (auto split: option.splits)
  qed (use 2(3) in simp)
qed simp

lemma winv_handleEvent:
  assumes w: "winv I w" and h: "\<forall>h email w. co_eventHandler c = Some h \<longrightarrow> winv I w \<longrightarrow> winv I (h email w)"
  shows "winv I (snd (handleEvent stops event c w))"
proof -
  have get: "winv I w1" if "AccountRepository_Get x key acc w = (r, w1)" for x key acc r w1
    by (rule keepsD_eq [OF keeps_repository_reads(11) w that])
  have io: "winv I w2" if "imap_io op w1 = (r, w2)" "winv I w1" for op :: "u32 list imap" and r w1 w2
  proof -
    have k: "keeps (winv I) (imap_io op)" unfolding imap_io_def by (rule keeps_winv_call) simp
    show ?thesis by (rule keepsD_eq [OF k that(2,1)])
  qed
  have loop: "winv I w3"
    if "ingest_uids i (co_eventHandler c) acc folder stops uids l w2 = (r, w3)" "winv I w2" for i acc folder uids l w2 r w3
    using winv_ingest_uids [OF that(2) h, of i acc folder stops uids l] that(1) by simp
  show ?thesis
    unfolding handleEvent_def using w
    by (auto split: sum.splits prod.splits option.splits intro: io get) (rule loop io get, assumption)+
qed

end

section \<open>The last UIDs only grow\<close>

fun handleEvents :: "(bool list \<times> IdleEvent) list \<Rightarrow> Coordinator \<Rightarrow> world \<Rightarrow> Coordinator \<times> world" where
  "handleEvents [] c w = (c, w)"
| "handleEvents ((stops, event) # events) c w =
     (let (c1, w1) = handleEvent stops event c w in handleEvents events c1 w1)"

lemma handleEvent_last_uid: "last_uid c key \<le> last_uid (fst (handleEvent stops event c w)) key"
  by (auto simp: handleEvent_def last_uid_def split: sum.splits prod.splits option.splits)

lemma handleEvent_same:
  "co_net (fst (handleEvent stops event c w)) = co_net c" "co_ext (fst (handleEvent stops event c w)) = co_ext c"
  by (auto simp: handleEvent_def split: sum.splits prod.splits option.splits)

lemma handleEvents_last_uid: "last_uid c key \<le> last_uid (fst (handleEvents events c w)) key"
proof (induction events c w rule: handleEvents.induct)
  case (2 stops event events c w)
  obtain c1 w1 where e: "handleEvent stops event c w = (c1, w1)" by fastforce
  from 2 [OF e [symmetric]] handleEvent_last_uid [of c key stops event w] e show ?case by simp
qed simp

section \<open>One event\<close>

text \<open>The results of the ingestions of an event that is not interrupted, and the UID it ends at.\<close>

fun ingest_results ::
  "Ingester \<Rightarrow> (email \<Rightarrow> world \<Rightarrow> world) option \<Rightarrow> uuid \<Rightarrow> string \<Rightarrow> u32 list \<Rightarrow> world \<Rightarrow> email res list" where
  "ingest_results i handler acc folder [] w = []"
| "ingest_results i handler acc folder (uid # uids) w =
     (case IngestEmail i acc folder uid w of
        (Inl e, w1) \<Rightarrow> Inl e # ingest_results i handler acc folder uids w1
      | (Inr email, w1) \<Rightarrow>
          Inr email # ingest_results i handler acc folder uids (case handler of None \<Rightarrow> w1 | Some h \<Rightarrow> h email w1))"

definition advances :: "email res \<Rightarrow> bool" where
  "advances r \<longleftrightarrow> (case r of Inl e \<Rightarrow> errors_Is e (IngestErr IngestEmailAlreadyExists) | Inr _ \<Rightarrow> True)"

definition last_advanced :: "u32 \<Rightarrow> (u32 \<times> email res) list \<Rightarrow> u32" where
  "last_advanced l rs = (case filter (\<lambda>p. advances (snd p)) rs of [] \<Rightarrow> l | ps \<Rightarrow> fst (last ps))"

lemma last_advanced_simps [simp]:
  "last_advanced l [] = l" "last_advanced l ((u, r) # rs) = last_advanced (if advances r then u else l) rs"
  by (auto simp: last_advanced_def split: list.splits)

lemma length_ingest_results [simp]: "length (ingest_results i handler acc folder uids w) = length uids"
  by (induction i handler acc folder uids w rule: ingest_results.induct) (auto split: sum.splits prod.splits)

lemma ingest_uids_run:
  assumes "no_races w" and "\<forall>h email w. handler = Some h \<longrightarrow> grows w (h email w)"
    and "ingest_uids i handler acc folder [] uids l w = (r, w')"
  shows "grows w w' \<and> r = Some (last_advanced l (zip uids (ingest_results i handler acc folder uids w)))
    \<and> (\<forall>(u, r)\<in>set (zip uids (ingest_results i handler acc folder uids w)).
         (\<exists>em. r = Inr em) \<longrightarrow> (acc, folder, uint u) \<in> stored_keys w')"
  using assms(1,3)
proof (induction uids arbitrary: l w)
  case (Cons u uids)
  obtain r1 w1 where run: "IngestEmail i acc folder u w = (r1, w1)" by fastforce
  note g1 = ingest_grows [OF run]
  show ?case
  proof (cases r1)
    case (Inl e)
    with Cons(1) [of w1 "if errors_Is e (IngestErr IngestEmailAlreadyExists) then u else l"] Cons(2,3) run g1
    show ?thesis by (auto simp: advances_def grows_def)
  next
    case (Inr em)
    define w2 where "w2 = (case handler of None \<Rightarrow> w1 | Some h \<Rightarrow> h em w1)"
    have g2: "grows w1 w2" using assms(2) by (auto simp: w2_def split: option.splits)
    have n: "no_races w1" "no_races w2" "(acc, folder, uint u) \<in> stored_keys w2" "grows w w2"
      using g1 g2 Cons(2) ingest_stores [OF Cons(2) run [unfolded Inr]] grows_trans by (auto simp: grows_def)
    have "ingest_uids i handler acc folder [] uids u w2 = (r, w')"
      using Cons(3) run Inr by (simp add: w2_def)
    from Cons(1) [OF n(2) this] show ?thesis
      using n run Inr grows_trans [OF n(4)] by (auto simp: w2_def [symmetric] advances_def grows_def)
  qed
qed simp

text \<open>C20: What a new-message event does, without interference and with any call failing: every UID that
  the server reports is tried, each one whose ingestion returned an e-mail is stored
  afterwards, and the last UID of the account and folder becomes the last one that was ingested or
  already stored, if that is higher.\<close>

theorem event_stores_new:
  assumes n: "no_races w" and handler: "\<forall>h email w. co_eventHandler c = Some h \<longrightarrow> grows w (h email w)"
    and ev: "ie_Type event = EventNewMessage" "x_uuid_Parse (co_ext c) (ie_AccountID event) = Inr acc"
    and get: "AccountRepository_Get (co_ext c) (co_key c) acc w = (Inr a, w1)"
    and fetch: "imap_io (FetchUIDsAfter (co_net c) (acc_ImapHost a) (acc_ImapPort a) (acc_ImapUser a)
        (acc_ImapPassword a) (ie_Folder event) (last_uid c (uid_key event))) w1 = (Inr uids, w2)"
    and run: "handleEvent [] event c w = (c', w')"
  shows "\<exists>rs. length rs = length uids
    \<and> rs = ingest_results (co_ingester c) (co_eventHandler c) acc (ie_Folder event) uids w2
    \<and> (\<forall>(u, r)\<in>set (zip uids rs). (\<exists>em. r = Inr em) \<longrightarrow> (acc, ie_Folder event, uint u) \<in> stored_keys w')
    \<and> last_uid c' (uid_key event) = max (last_uid c (uid_key event)) (last_advanced 0 (zip uids rs))
    \<and> (\<forall>key. key \<noteq> uid_key event \<longrightarrow> co_lastUIDs c' key = co_lastUIDs c key)"
proof -
  have get_script: "uses_script (AccountRepository_Get (co_ext c) (co_key c) acc)"
    unfolding AccountRepository_Get_def GetAccount_def by (intro script_intros)
  have io_script: "uses_script (imap_io op)" for op :: "u32 list imap"
    unfolding imap_io_def by (intro script_intros) simp
  have n2: "no_races w2"
    using no_races_uses [OF io_script fetch no_races_uses [OF get_script get n]] .
  let ?rs = "ingest_results (co_ingester c) (co_eventHandler c) acc (ie_Folder event) uids w2"
  obtain r w3 where loop: "ingest_uids (co_ingester c) (co_eventHandler c) acc (ie_Folder event) [] uids 0 w2 = (r, w3)"
    by fastforce
  note l = ingest_uids_run [OF n2 handler loop]
  let ?v = "last_advanced 0 (zip uids ?rs)"
  have c': "c' = (if ?v > 0 \<and> ?v > last_uid c (uid_key event)
      then c\<lparr>co_lastUIDs := (co_lastUIDs c)(uid_key event \<mapsto> ?v)\<rparr> else c)" and w': "uids \<noteq> [] \<Longrightarrow> w' = w3"
    using run get fetch loop l ev by (auto simp: handleEvent_def split: if_splits)
  have "last_uid c' (uid_key event) = max (last_uid c (uid_key event)) ?v"
    by (auto simp: c' last_uid_def max_def word_gt_0)
  moreover have "\<forall>(u, r)\<in>set (zip uids ?rs). (\<exists>em. r = Inr em) \<longrightarrow> (acc, ie_Folder event, uint u) \<in> stored_keys w'"
    using l w' by (cases "uids = []") auto
  moreover have "\<forall>key. key \<noteq> uid_key event \<longrightarrow> co_lastUIDs c' key = co_lastUIDs c key" by (simp add: c')
  ultimately show ?thesis by (intro exI [of _ ?rs]) simp
qed


section \<open>Adding and removing accounts\<close>

lemma pool_remove_accounts:
  assumes "pool_remove acc p = (r, p')"
  shows "ip_accounts p' = (if ip_closed p then ip_accounts p else filter (\<lambda>a. fst a \<noteq> acc) (ip_accounts p))"
    and "(\<exists>e. r = Inl e) \<longleftrightarrow> ip_closed p \<or> acc \<notin> fst ` set (ip_accounts p)"
proof -
  have c: "ip_accounts (closeConnection n q) = ip_accounts q" for n q
    by (simp add: closeConnection_def split: option.splits)
  have none: "map_of (ip_accounts p) acc = None \<longleftrightarrow> acc \<notin> fst ` set (ip_accounts p)"
    by (simp add: map_of_eq_None_iff)
  then have skip: "filter (\<lambda>a. fst a \<noteq> acc) (ip_accounts p) = ip_accounts p" if "map_of (ip_accounts p) acc = None"
    using that by (intro filter_True) force
  show "ip_accounts p' = (if ip_closed p then ip_accounts p else filter (\<lambda>a. fst a \<noteq> acc) (ip_accounts p))"
    using assms skip by (cases "map_of (ip_accounts p) acc") (auto simp: pool_remove_def IdlePool_RemoveAccount_def c split: if_splits)
  show "(\<exists>e. r = Inl e) \<longleftrightarrow> ip_closed p \<or> acc \<notin> fst ` set (ip_accounts p)"
    using assms unfolding none [symmetric] by (auto simp: pool_remove_def IdlePool_RemoveAccount_def c split: if_splits option.splits)
qed

lemma poller_remove_accounts:
  assumes "poller_remove acc p = (r, p')"
  shows "pl_accounts p' = (if pl_closed p then pl_accounts p else filter (\<lambda>a. fst a \<noteq> acc) (pl_accounts p))"
    and "(\<exists>e. r = Inl e) \<longleftrightarrow> pl_closed p \<or> acc \<notin> fst ` set (pl_accounts p)"
proof -
  have none: "map_of (pl_accounts p) acc = None \<longleftrightarrow> acc \<notin> fst ` set (pl_accounts p)"
    by (simp add: map_of_eq_None_iff)
  then have skip: "filter (\<lambda>a. fst a \<noteq> acc) (pl_accounts p) = pl_accounts p" if "map_of (pl_accounts p) acc = None"
    using that by (intro filter_True) force
  show "pl_accounts p' = (if pl_closed p then pl_accounts p else filter (\<lambda>a. fst a \<noteq> acc) (pl_accounts p))"
    using assms skip by (cases "map_of (pl_accounts p) acc") (auto simp: poller_remove_def Poller_RemoveAccount_def set_entry_def split: if_splits)
  show "(\<exists>e. r = Inl e) \<longleftrightarrow> pl_closed p \<or> acc \<notin> fst ` set (pl_accounts p)"
    using assms unfolding none [symmetric] by (auto simp: poller_remove_def Poller_RemoveAccount_def set_entry_def split: if_splits option.splits)
qed

text \<open>Removing an account takes exactly its own state away: it is no longer watched or polled, the last
  UIDs of all its folders are forgotten, those of every other account stay, and so does every other account's
  registration. It succeeds exactly when the account was watched or polled.\<close>

lemma remove_account_exact:
  assumes x: "uuid_text_ok (co_ext c)" "\<And>i. CHR '':'' \<notin> set (x_uuid_String (co_ext c) i)"
    and "\<not> co_closed c" "\<not> ip_closed (co_pool c)" "\<not> pl_closed (co_poller c)"
    and run: "coordinator_RemoveAccount acc c = (r, c')"
  defines "text \<equiv> x_uuid_String (co_ext c)"
  shows "(\<forall>folder. co_lastUIDs c' (text acc @ '':'' @ folder) = None)
    \<and> (\<forall>other folder. other \<noteq> acc \<longrightarrow>
         co_lastUIDs c' (text other @ '':'' @ folder) = co_lastUIDs c (text other @ '':'' @ folder))
    \<and> ip_accounts (co_pool c') = filter (\<lambda>a. fst a \<noteq> text acc) (ip_accounts (co_pool c))
    \<and> pl_accounts (co_poller c') = filter (\<lambda>a. fst a \<noteq> text acc) (pl_accounts (co_poller c))
    \<and> (r = Inr () \<longleftrightarrow> text acc \<in> fst ` set (ip_accounts (co_pool c)) \<or> text acc \<in> fst ` set (pl_accounts (co_poller c)))"
proof -
  obtain r1 p1 where p1: "pool_remove (text acc) (co_pool c) = (r1, p1)" by fastforce
  obtain r2 p2 where p2: "poller_remove (text acc) (co_poller c) = (r2, p2)" by fastforce
  note a1 = pool_remove_accounts [OF p1] and a2 = poller_remove_accounts [OF p2]
  have c': "co_lastUIDs c' = (\<lambda>key. if HasPrefix key (text acc @ '':'') then None else co_lastUIDs c key)"
    "co_pool c' = p1" "co_poller c' = p2" "r = Inr () \<longleftrightarrow> \<not> ((\<exists>e. r1 = Inl e) \<and> (\<exists>e. r2 = Inl e))"
    using run p1 p2 assms(3) by (auto simp: coordinator_RemoveAccount_def text_def Let_def split: sum.splits if_splits)
  have other: "\<not> HasPrefix (text other @ '':'' @ folder) (text acc @ '':'')" if "other \<noteq> acc" for other folder
  proof
    assume "HasPrefix (text other @ '':'' @ folder) (text acc @ '':'')"
    then obtain t where "text other @ '':'' @ folder = (text acc @ '':'') @ t" unfolding HasPrefix_iff by blast
    then have "text other @ CHR '':'' # folder = text acc @ CHR '':'' # t" by simp
    from split_at_first [OF _ _ this] have "text other = text acc" using x(2) by (simp add: text_def)
    with that show False using uuid_String_inject [OF x(1)] by (simp add: text_def)
  qed
  have "HasPrefix (text acc @ '':'' @ folder) (text acc @ '':'')" for folder
    by (simp add: HasPrefix_iff)
  then have gone: "\<forall>folder. co_lastUIDs c' (text acc @ '':'' @ folder) = None" by (simp add: c'(1))
  have kept: "\<forall>other folder. other \<noteq> acc \<longrightarrow>
      co_lastUIDs c' (text other @ '':'' @ folder) = co_lastUIDs c (text other @ '':'' @ folder)"
    using other by (simp add: c'(1))
  have ok: "r = Inr () \<longleftrightarrow> text acc \<in> fst ` set (ip_accounts (co_pool c)) \<or> text acc \<in> fst ` set (pl_accounts (co_poller c))"
    using a1(2) a2(2) assms(4,5) c'(4) by blast
  show ?thesis using gone kept ok a1(1) a2(1) assms(4,5) c'(2,3) by simp
qed

end
