(* ===== verification/Composer.thy ===== *)
theory Composer
  imports Database
begin

text \<open>
  \<open>internal/composer/composer.go\<close>: validating an outgoing message and handing its parts to the MIME
  library. The library and \<open>net/mail\<close>'s address parser are arguments.
\<close>

section \<open>Errors and data\<close>

definition composer_error :: "composer_error \<Rightarrow> string \<Rightarrow> goerror" where
  "composer_error c m = errors_New (ComposerErr c) m"

definition composer_ErrNoRecipients where
  "composer_ErrNoRecipients = composer_error ComposerNoRecipients ''at least one recipient is required''"
definition composer_ErrNoFrom where
  "composer_ErrNoFrom = composer_error ComposerNoFrom ''from address is required''"
definition composer_ErrNoSubject where
  "composer_ErrNoSubject = composer_error ComposerNoSubject ''subject is required''"
definition composer_ErrNoBody where
  "composer_ErrNoBody = composer_error ComposerNoBody ''at least text or html body is required''"
definition composer_ErrInvalidSubject where
  "composer_ErrInvalidSubject = composer_error ComposerInvalidSubject ''subject contains invalid characters''"
definition composer_ErrMissingContentID where
  "composer_ErrMissingContentID = composer_error ComposerMissingContentID ''inline attachments require a ContentID''"

text \<open>\<open>fmt.Errorf("%w: field: %s", ErrInvalidEmail, s)\<close> and the same of \<open>ErrInvalidMessageID\<close>.\<close>

definition composer_ErrInvalidEmail :: "string \<Rightarrow> string \<Rightarrow> goerror" where
  "composer_ErrInvalidEmail field s =
     composer_error ComposerInvalidEmail (''invalid email address: '' @ field @ '': '' @ s)"

definition composer_ErrInvalidMessageID :: "string \<Rightarrow> string \<Rightarrow> goerror" where
  "composer_ErrInvalidMessageID field s =
     composer_error ComposerInvalidMessageID (''invalid message-id format: '' @ field @ '': '' @ s)"

lemmas composer_errors = composer_error_def composer_ErrNoRecipients_def composer_ErrNoFrom_def
  composer_ErrNoSubject_def composer_ErrNoBody_def composer_ErrInvalidSubject_def
  composer_ErrMissingContentID_def composer_ErrInvalidEmail_def composer_ErrInvalidMessageID_def

record composer_Attachment =
  ca_Filename :: string
  ca_ContentType :: string
  ca_Data :: string
  ca_IsInline :: bool
  ca_ContentID :: string

record ComposeEmail =
  ce_From :: EmailAddress
  ce_To :: "EmailAddress list"
  ce_CC :: "EmailAddress list"
  ce_BCC :: "EmailAddress list"
  ce_Subject :: string
  ce_Text :: string
  ce_HTML :: string
  ce_Attachments :: "composer_Attachment list"
  ce_InReplyTo :: string
  ce_References :: "string list"

text \<open>The calls on the MIME builder, in their order: what \<open>Build\<close> asks the library to encode.\<close>

datatype builder_call =
  MFrom string string | MSubject string | MDate time | MHeader string string
| MTo string string | MCC string string | MBCC string string | MText string | MHTML string
| MInline string string string string | MAttachment string string string

record mailer =
  ml_parse_address :: "string \<Rightarrow> bool"
  ml_build :: "builder_call list \<Rightarrow> unit res"
  ml_encode :: "builder_call list \<Rightarrow> string res"

section \<open>Validation\<close>

definition isValidMessageID :: "string \<Rightarrow> bool" where
  "isValidMessageID mid =
     (if length mid < 5 then False
      else if \<not> HasPrefix mid ''<'' \<or> \<not> HasSuffix mid ''>'' then False
      else (let inner = take (length mid - 2) (drop 1 mid)
            in case Index inner ''@'' of
                 None \<Rightarrow> False
               | Some atIdx \<Rightarrow> atIdx > 0 \<and> atIdx < length inner - 1))"

fun validate_addresses :: "mailer \<Rightarrow> string \<Rightarrow> EmailAddress list \<Rightarrow> unit res" where
  "validate_addresses m field [] = Inr ()"
| "validate_addresses m field (a # as) =
     (if ml_parse_address m (ea_Email a) then validate_addresses m field as
      else Inl (composer_ErrInvalidEmail field (ea_Email a)))"

fun validate_references :: "string list \<Rightarrow> unit res" where
  "validate_references [] = Inr ()"
| "validate_references (r # rs) =
     (if isValidMessageID r then validate_references rs else Inl (composer_ErrInvalidMessageID ''references'' r))"

fun validate_attachments :: "composer_Attachment list \<Rightarrow> unit res" where
  "validate_attachments [] = Inr ()"
| "validate_attachments (a # as) =
     (if ca_IsInline a \<and> ca_ContentID a = [] then Inl composer_ErrMissingContentID else validate_attachments as)"

definition and_then :: "unit res \<Rightarrow> unit res \<Rightarrow> unit res" where
  "and_then r s = (case r of Inl e \<Rightarrow> Inl e | Inr _ \<Rightarrow> s)"

definition compose_Validate :: "mailer \<Rightarrow> ComposeEmail \<Rightarrow> unit res" where
  "compose_Validate m e =
     (if ea_Email (ce_From e) = [] then Inl composer_ErrNoFrom
      else if \<not> ml_parse_address m (ea_Email (ce_From e))
        then Inl (composer_ErrInvalidEmail ''from'' (ea_Email (ce_From e)))
      else if ce_To e = [] \<and> ce_CC e = [] \<and> ce_BCC e = [] then Inl composer_ErrNoRecipients
      else and_then (validate_addresses m ''to'' (ce_To e))
        (and_then (validate_addresses m ''cc'' (ce_CC e))
          (and_then (validate_addresses m ''bcc'' (ce_BCC e))
            (if ce_Subject e = [] then Inl composer_ErrNoSubject
             else if ContainsAny (ce_Subject e) [CHR 0x0D, CHR 0x0A] then Inl composer_ErrInvalidSubject
             else if ce_Text e = [] \<and> ce_HTML e = [] then Inl composer_ErrNoBody
             else if ce_InReplyTo e \<noteq> [] \<and> \<not> isValidMessageID (ce_InReplyTo e)
               then Inl (composer_ErrInvalidMessageID ''in-reply-to'' (ce_InReplyTo e))
             else and_then (validate_references (ce_References e)) (validate_attachments (ce_Attachments e))))))"

section \<open>Building\<close>

definition builder_calls :: "ComposeEmail \<Rightarrow> time \<Rightarrow> string \<Rightarrow> builder_call list" where
  "builder_calls e now msgID =
     [MFrom (ea_Name (ce_From e)) (ea_Email (ce_From e)), MSubject (ce_Subject e), MDate now,
      MHeader ''Message-Id'' msgID] @
     map (\<lambda>a. MTo (ea_Name a) (ea_Email a)) (ce_To e) @
     map (\<lambda>a. MCC (ea_Name a) (ea_Email a)) (ce_CC e) @
     map (\<lambda>a. MBCC (ea_Name a) (ea_Email a)) (ce_BCC e) @
     (if ce_Text e \<noteq> [] then [MText (ce_Text e)] else []) @
     (if ce_HTML e \<noteq> [] then [MHTML (ce_HTML e)] else []) @
     (if ce_InReplyTo e \<noteq> [] then [MHeader ''In-Reply-To'' (ce_InReplyTo e)] else []) @
     (if ce_References e \<noteq> [] then [MHeader ''References'' (Join (ce_References e) '' '')] else []) @
     map (\<lambda>att. if ca_IsInline att
                 then MInline (ca_Data att) (ca_ContentType att) (ca_Filename att) (ca_ContentID att)
                 else MAttachment (ca_Data att) (ca_ContentType att) (ca_Filename att)) (ce_Attachments e)"

text \<open>\<open>uuid.NewString\<close> draws a UUID, \<open>time.Now\<close> reads the clock.\<close>

definition compose_Build :: "externals \<Rightarrow> mailer \<Rightarrow> ComposeEmail \<Rightarrow> string io" where
  "compose_Build x m e w =
     (case compose_Validate m e of
        Inl err \<Rightarrow> (Inl err, w)
      | Inr _ \<Rightarrow>
          (let msgID = ''<'' @ x_uuid_String x (uuid_gen w (draws w)) @ ''@letterbox>'';
               calls = builder_calls e (clock w) msgID;
               w1 = w\<lparr>draws := Suc (draws w)\<rparr>
           in case ml_build m calls of
                Inl err \<Rightarrow> (Inl (Errorf_w ''building email'' err), w1)
              | Inr _ \<Rightarrow>
                  (case ml_encode m calls of
                     Inl err \<Rightarrow> (Inl (Errorf_w ''encoding email'' err), w1)
                   | Inr raw \<Rightarrow> (Inr raw, w1))))"

definition AllRecipients :: "ComposeEmail \<Rightarrow> string list" where
  "AllRecipients e = map ea_Email (ce_To e) @ map ea_Email (ce_CC e) @ map ea_Email (ce_BCC e)"

section \<open>What a built message satisfies\<close>

lemma and_then_Inr [simp]: "and_then r s = Inr () \<longleftrightarrow> r = Inr () \<and> s = Inr ()"
  by (auto simp: and_then_def split: sum.splits)

lemma validate_addresses_Inr: "validate_addresses m f as = Inr () \<longleftrightarrow> (\<forall>a\<in>set as. ml_parse_address m (ea_Email a))"
  by (induction as) auto

lemma validate_references_Inr: "validate_references rs = Inr () \<longleftrightarrow> (\<forall>r\<in>set rs. isValidMessageID r)"
  by (induction rs) auto

lemma validate_attachments_Inr:
  "validate_attachments as = Inr () \<longleftrightarrow> (\<forall>a\<in>set as. ca_IsInline a \<longrightarrow> ca_ContentID a \<noteq> [])"
  by (induction as) auto

lemma ContainsAny_line_break: "ContainsAny s [CHR 0x0D, CHR 0x0A] \<longleftrightarrow> CHR 0x0D \<in> set s \<or> CHR 0x0A \<in> set s"
  unfolding ContainsAny_iff by (simp, blast)

lemma guard_Inr: "(if b then Inl e else r) = Inr x \<longleftrightarrow> \<not> b \<and> r = Inr x"
  by simp

lemma compose_Validate_Inr:
  "compose_Validate m e = Inr () \<longleftrightarrow>
     ea_Email (ce_From e) \<noteq> [] \<and> ml_parse_address m (ea_Email (ce_From e)) \<and> AllRecipients e \<noteq> []
     \<and> (\<forall>r\<in>set (AllRecipients e). ml_parse_address m r)
     \<and> ce_Subject e \<noteq> [] \<and> CHR 0x0D \<notin> set (ce_Subject e) \<and> CHR 0x0A \<notin> set (ce_Subject e)
     \<and> (ce_Text e \<noteq> [] \<or> ce_HTML e \<noteq> [])
     \<and> (ce_InReplyTo e \<noteq> [] \<longrightarrow> isValidMessageID (ce_InReplyTo e))
     \<and> (\<forall>r\<in>set (ce_References e). isValidMessageID r)
     \<and> (\<forall>a\<in>set (ce_Attachments e). ca_IsInline a \<longrightarrow> ca_ContentID a \<noteq> [])"
  unfolding compose_Validate_def guard_Inr and_then_Inr validate_addresses_Inr validate_references_Inr
    validate_attachments_Inr ContainsAny_line_break AllRecipients_def
  by (simp add: ball_Un) blast

lemma compose_Build_Inr:
  assumes "compose_Build x m e w = (Inr raw, w')"
  shows "compose_Validate m e = Inr () \<and> w' = w\<lparr>draws := Suc (draws w)\<rparr>
    \<and> ml_encode m (builder_calls e (clock w) (''<'' @ x_uuid_String x (uuid_gen w (draws w)) @ ''@letterbox>'')) = Inr raw"
  using assms by (auto simp: compose_Build_def Let_def split: sum.splits)

lemma compose_Build_world: "snd (compose_Build x m e w) = w \<or> snd (compose_Build x m e w) = w\<lparr>draws := Suc (draws w)\<rparr>"
  by (auto simp: compose_Build_def Let_def split: sum.splits)

text \<open>A message identifier with a line break passes the check of its format.\<close>

lemma message_id_with_line_break:
  "isValidMessageID (''<a@b'' @ [CHR 0x0D, CHR 0x0A] @ ''X: y>'')"
  by code_simp

end
