(* ===== verification/Smtp.thy ===== *)
theory Smtp
  imports Imap Encoding
begin

text \<open>
  \<open>internal/smtp/client.go\<close>: one conversation with an SMTP server. The server is an argument: what it
  replies to a command after the commands before it, the extensions it announces, and the
  challenges of a LOGIN dialogue, with the Unicode tables of Go. A command is recorded in the transcript of the
  conversation when it is sent. The test hook that disables certificate checks is off.
\<close>

section \<open>The server and the transcript\<close>

datatype smtp_op =
  SmtpConnect string int | SmtpTLS string | SmtpGreeting | SmtpStartTLS string
| SmtpAuth string string | SmtpAuthResponse string | SmtpAuthAbort
| SmtpMail string | SmtpRcpt string | SmtpData | SmtpWrite string | SmtpEndData | SmtpQuit | SmtpClose

type_synonym transcript = "smtp_op list"

record smtp_net =
  sn_reply :: "transcript \<Rightarrow> smtp_op \<Rightarrow> unit res"
  sn_extension :: "transcript \<Rightarrow> string \<Rightarrow> string option"
  sn_challenges :: "transcript \<Rightarrow> string list"
  sn_upper :: "string \<Rightarrow> string"

type_synonym 'a smtp = "transcript \<Rightarrow> 'a res \<times> transcript"

text \<open>Sending a command, going on when it succeeds, and Go's \<open>if err\<close> with a wrapped error.\<close>

definition send :: "smtp_net \<Rightarrow> smtp_op \<Rightarrow> unit smtp" where
  "send net op t = (sn_reply net t op, t @ [op])"

definition smtp_then :: "'a smtp \<Rightarrow> (goerror \<Rightarrow> goerror) \<Rightarrow> ('a \<Rightarrow> 'b smtp) \<Rightarrow> 'b smtp" where
  "smtp_then m wrap k t = (case m t of (Inl e, t1) \<Rightarrow> (Inl (wrap e), t1) | (Inr x, t1) \<Rightarrow> k x t1)"

definition smtp_done :: "unit smtp" where "smtp_done t = (Inr (), t)"

definition smtp_fail :: "goerror \<Rightarrow> 'a smtp" where "smtp_fail e t = (Inl e, t)"

text \<open>A command whose outcome is ignored, and \<open>conn.Close()\<close> after a failed step.\<close>

definition sent :: "smtp_op \<Rightarrow> transcript \<Rightarrow> transcript" where "sent op t = t @ [op]"

definition closing :: "unit smtp \<Rightarrow> unit smtp" where
  "closing m t = (case m t of (Inl e, t1) \<Rightarrow> (Inl e, t1 @ [SmtpClose]) | (Inr x, t1) \<Rightarrow> (Inr x, t1))"

section \<open>Errors\<close>

definition smtp_wrap :: "smtp_error \<Rightarrow> string \<Rightarrow> goerror \<Rightarrow> goerror" where
  "smtp_wrap c m e = Errorf_wv (SmtpErr c) m e"

definition send_failed :: "string \<Rightarrow> goerror \<Rightarrow> goerror" where
  "send_failed what e = smtp_wrap SmtpSendFailed (''failed to send email: '' @ what) e"

text \<open>\<open>errors.As\<close> with a \<open>net.Error\<close> and with the five TLS error types.\<close>

definition smtp_isTimeoutError :: "goerror \<Rightarrow> bool" where
  "smtp_isTimeoutError e \<longleftrightarrow> first_NetError (causes e) = Some True"

definition smtp_isTLSError :: "goerror \<Rightarrow> bool" where
  "smtp_isTLSError e \<longleftrightarrow> errors_Is e TlsError"

definition smtp_classifyError :: "goerror \<Rightarrow> goerror" where
  "smtp_classifyError e =
     (if errors_Is e (SmtpErr SmtpTLSFailed) \<or> errors_Is e (SmtpErr SmtpAuthFailed)
         \<or> errors_Is e (SmtpErr SmtpTimeout) \<or> errors_Is e (SmtpErr SmtpConnectionFailed) then e
      else if smtp_isTimeoutError e then smtp_wrap SmtpTimeout ''connection timed out'' e
      else if smtp_isTLSError e then smtp_wrap SmtpTLSFailed ''TLS handshake failed'' e
      else smtp_wrap SmtpConnectionFailed ''failed to connect to SMTP server'' e)"

section \<open>Connecting\<close>

definition smtp_dialImplicitTLS :: "smtp_net \<Rightarrow> string \<Rightarrow> unit smtp" where
  "smtp_dialImplicitTLS net host =
     closing (smtp_then (send net (SmtpTLS host)) (\<lambda>e. e) (\<lambda>_. send net SmtpGreeting))"

definition smtp_dialStartTLS :: "smtp_net \<Rightarrow> string \<Rightarrow> unit smtp" where
  "smtp_dialStartTLS net host =
     closing (smtp_then (send net SmtpGreeting) (\<lambda>e. e)
       (\<lambda>_ t. case sn_extension net t ''STARTTLS'' of
                None \<Rightarrow> smtp_fail (errors_New (SmtpErr SmtpTLSFailed)
                           ''TLS handshake failed: server does not support STARTTLS'') t
              | Some _ \<Rightarrow> send net (SmtpStartTLS host) t))"

definition smtp_dial :: "smtp_net \<Rightarrow> string \<Rightarrow> int \<Rightarrow> unit smtp" where
  "smtp_dial net host port t =
     (case sn_reply net t (SmtpConnect host port) of
        Inl e \<Rightarrow> (Inl e, t)
      | Inr _ \<Rightarrow>
          (if port = 465 then smtp_dialImplicitTLS net host else smtp_dialStartTLS net host)
            (t @ [SmtpConnect host port]))"

section \<open>Authentication\<close>

datatype auth = PlainAuth string string | LoginAuth string string

definition selectAuth :: "smtp_net \<Rightarrow> string \<Rightarrow> string \<Rightarrow> transcript \<Rightarrow> auth" where
  "selectAuth net username password t =
     (case sn_extension net t ''AUTH'' of
        None \<Rightarrow> PlainAuth username password
      | Some mechs \<Rightarrow>
          if Contains (ToUpper (sn_upper net) mechs) ''LOGIN'' then LoginAuth username password
          else if Contains (ToUpper (sn_upper net) mechs) ''PLAIN'' then PlainAuth username password
          else PlainAuth username password)"

text \<open>\<open>loginAuth.Next\<close> on a challenge that \<open>net/smtp\<close> has decoded from base64 already.\<close>

definition login_Next :: "string \<Rightarrow> string \<Rightarrow> string \<Rightarrow> bool \<Rightarrow> string option res" where
  "login_Next username password fromServer asked =
     (if \<not> asked then Inr None
      else
        (let prompt = (case base64_Decode fromServer of None \<Rightarrow> fromServer | Some p \<Rightarrow> p)
         in if prompt = ''Username:'' \<or> prompt = ''Username'' \<or> prompt = ''username:'' then Inr (Some username)
            else if prompt = ''Password:'' \<or> prompt = ''Password'' \<or> prompt = ''password:'' then Inr (Some password)
            else Inl (errors_New Other (''unexpected server prompt: '' @ prompt))))"

text \<open>The dialogue of \<open>net/smtp\<close>'s \<open>Client.Auth\<close>: the answers to the challenges, then the server's
  verdict; a challenge that the mechanism cannot answer aborts it, and so does a rejection, but not a
  broken connection.\<close>

definition auth_start :: "auth \<Rightarrow> smtp_op" where
  "auth_start a = (case a of PlainAuth u p \<Rightarrow> SmtpAuth ''PLAIN'' ([CHR 0x00] @ u @ [CHR 0x00] @ p)
                           | LoginAuth u p \<Rightarrow> SmtpAuth ''LOGIN'' [])"

definition auth_Next :: "auth \<Rightarrow> string \<Rightarrow> string option res" where
  "auth_Next a challenge = (case a of
       PlainAuth u p \<Rightarrow> Inl (errors_New Other ''unexpected server challenge'')
     | LoginAuth u p \<Rightarrow> login_Next u p challenge True)"

fun auth_dialogue :: "smtp_net \<Rightarrow> auth \<Rightarrow> smtp_op \<Rightarrow> string list \<Rightarrow> unit smtp" where
  "auth_dialogue net a op [] t =
     (case sn_reply net t op of
        Inr _ \<Rightarrow> (Inr (), t @ [op])
      | Inl e \<Rightarrow> (Inl e, t @ op # (if first_NetError (causes e) = None then [SmtpAuthAbort, SmtpQuit] else [])))"
| "auth_dialogue net a op (challenge # challenges) t =
     (case auth_Next a challenge of
        Inl e \<Rightarrow> (Inl e, t @ [op, SmtpAuthAbort, SmtpQuit])
      | Inr None \<Rightarrow> (Inr (), t @ [op])
      | Inr (Some response) \<Rightarrow> auth_dialogue net a (SmtpAuthResponse response) challenges (t @ [op]))"

definition client_Auth :: "smtp_net \<Rightarrow> auth \<Rightarrow> unit smtp" where
  "client_Auth net a t = auth_dialogue net a (auth_start a) (sn_challenges net t) t"

definition authenticate :: "smtp_net \<Rightarrow> string \<Rightarrow> string \<Rightarrow> unit smtp" where
  "authenticate net username password t =
     (if username = [] \<and> password = [] then (Inr (), t)
      else smtp_then (client_Auth net (selectAuth net username password t))
             (smtp_wrap SmtpAuthFailed ''authentication failed'') (\<lambda>_. smtp_done) t)"

section \<open>Operations\<close>

record smtp_Config =
  sc_Host :: string
  sc_Port :: int
  sc_Username :: string
  sc_Password :: string

text \<open>The rest of an operation on a connected client, which the deferred \<open>Close\<close> ends.\<close>

definition with_client :: "smtp_net \<Rightarrow> string \<Rightarrow> int \<Rightarrow> unit smtp \<Rightarrow> unit smtp" where
  "with_client net host port body t =
     (case smtp_dial net host port t of
        (Inl e, t1) \<Rightarrow> (Inl (smtp_classifyError e), t1)
      | (Inr _, t1) \<Rightarrow> (case body t1 of (r, t2) \<Rightarrow> (r, t2 @ [SmtpClose])))"

definition smtp_quit :: "unit smtp" where "smtp_quit t = (Inr (), sent SmtpQuit t)"

definition smtp_TestConnection :: "smtp_net \<Rightarrow> string \<Rightarrow> int \<Rightarrow> string \<Rightarrow> string \<Rightarrow> unit smtp" where
  "smtp_TestConnection net host port username password =
     with_client net host port (smtp_then (authenticate net username password) (\<lambda>e. e) (\<lambda>_. smtp_quit))"

text \<open>\<open>net/smtp\<close> refuses a line with a carriage return or line feed before sending it.\<close>

definition line_ok :: "string \<Rightarrow> bool" where
  "line_ok s \<longleftrightarrow> CHR 0x0A \<notin> set s \<and> CHR 0x0D \<notin> set s"

definition send_line :: "smtp_net \<Rightarrow> string \<Rightarrow> smtp_op \<Rightarrow> unit smtp" where
  "send_line net s op =
     (if line_ok s then send net op
      else smtp_fail (errors_New Other ''smtp: A line must not contain CR or LF''))"

fun send_recipients :: "smtp_net \<Rightarrow> string list \<Rightarrow> unit smtp" where
  "send_recipients net [] = smtp_done"
| "send_recipients net (addr # to) =
     smtp_then (send_line net addr (SmtpRcpt addr)) (send_failed (''setting recipient '' @ addr))
       (\<lambda>_. send_recipients net to)"

definition send_message :: "smtp_net \<Rightarrow> string \<Rightarrow> string list \<Rightarrow> string \<Rightarrow> unit smtp" where
  "send_message net from_addr to message =
     smtp_then (send_line net from_addr (SmtpMail from_addr)) (send_failed ''setting sender'') (\<lambda>_.
     smtp_then (send_recipients net to) (\<lambda>e. e) (\<lambda>_.
     smtp_then (send net SmtpData) (send_failed ''opening data'') (\<lambda>_.
     smtp_then (send net (SmtpWrite message)) (send_failed ''writing message'') (\<lambda>_.
     smtp_then (send net SmtpEndData) (send_failed ''closing data'') (\<lambda>_. smtp_quit)))))"

definition SendEmail :: "smtp_net \<Rightarrow> smtp_Config \<Rightarrow> string \<Rightarrow> string list \<Rightarrow> string \<Rightarrow> unit smtp" where
  "SendEmail net cfg from_addr to message =
     (if to = [] then smtp_fail (errors_New (SmtpErr SmtpSendFailed) ''failed to send email: no recipients specified'')
      else with_client net (sc_Host cfg) (sc_Port cfg)
             (smtp_then (authenticate net (sc_Username cfg) (sc_Password cfg)) (\<lambda>e. e)
               (\<lambda>_. send_message net from_addr to message)))"

section \<open>What a transcript shows\<close>

definition is_tls :: "smtp_op \<Rightarrow> bool" where
  "is_tls op \<longleftrightarrow> (case op of SmtpTLS _ \<Rightarrow> True | SmtpStartTLS _ \<Rightarrow> True | _ \<Rightarrow> False)"

definition is_secret :: "smtp_op \<Rightarrow> bool" where
  "is_secret op \<longleftrightarrow> (case op of
       SmtpAuth _ _ \<Rightarrow> True | SmtpAuthResponse _ \<Rightarrow> True | SmtpMail _ \<Rightarrow> True | SmtpRcpt _ \<Rightarrow> True
     | SmtpWrite _ \<Rightarrow> True | _ \<Rightarrow> False)"

definition is_connect :: "smtp_op \<Rightarrow> bool" where
  "is_connect op \<longleftrightarrow> (case op of SmtpConnect _ _ \<Rightarrow> True | _ \<Rightarrow> False)"

text \<open>No secret is sent before a TLS handshake that succeeded; \<open>s\<close> says that one has.\<close>

fun secured :: "smtp_net \<Rightarrow> transcript \<Rightarrow> bool \<Rightarrow> transcript \<Rightarrow> bool" where
  "secured net before s [] = True"
| "secured net before s (op # t) =
     ((is_secret op \<longrightarrow> s) \<and> secured net (before @ [op]) (s \<or> is_tls op \<and> sn_reply net before op = Inr ()) t)"

text \<open>Every command of a part of the conversation was accepted.\<close>

fun accepted :: "smtp_net \<Rightarrow> transcript \<Rightarrow> transcript \<Rightarrow> bool" where
  "accepted net before [] = True"
| "accepted net before (op # t) = (sn_reply net before op = Inr () \<and> accepted net (before @ [op]) t)"

definition message_accepted :: "smtp_net \<Rightarrow> transcript \<Rightarrow> bool" where
  "message_accepted net t \<longleftrightarrow> (\<exists>before after. t = before @ SmtpEndData # after \<and> sn_reply net before SmtpEndData = Inr ())"

definition given_back :: "transcript \<Rightarrow> bool" where
  "given_back t \<longleftrightarrow> length (filter (\<lambda>op. op = SmtpClose) t) = length (filter is_connect t)
     \<and> (t = [] \<or> last t = SmtpClose)"

lemma secured_True [simp]: "secured net before True t"
  by (induction t arbitrary: before) auto

lemma secured_plain: "list_all (\<lambda>op. \<not> is_secret op) t \<Longrightarrow> secured net before s t"
  by (induction t arbitrary: before s) auto

lemma accepted_append: "accepted net before (t @ t') \<longleftrightarrow> accepted net before t \<and> accepted net (before @ t) t'"
  by (induction t arbitrary: before) auto

lemma smtp_dial_Inr:
  assumes "smtp_dial net host port [] = (Inr x, t)"
  shows "sn_reply net [] (SmtpConnect host port) = Inr () \<and>
    (t = [SmtpConnect host port, SmtpTLS host, SmtpGreeting]
       \<and> sn_reply net [SmtpConnect host port] (SmtpTLS host) = Inr ()
     \<or> t = [SmtpConnect host port, SmtpGreeting, SmtpStartTLS host]
       \<and> sn_reply net [SmtpConnect host port, SmtpGreeting] (SmtpStartTLS host) = Inr ())"
  using assms
  by (auto simp: smtp_dial_def smtp_dialImplicitTLS_def smtp_dialStartTLS_def closing_def smtp_then_def send_def
      smtp_fail_def split: sum.splits if_splits option.splits)

lemma smtp_dial_Inl:
  assumes "smtp_dial net host port [] = (Inl e, t)"
  shows "t = [] \<or> (\<exists>ops. t = SmtpConnect host port # ops @ [SmtpClose] \<and>
    set ops \<subseteq> {SmtpTLS host, SmtpGreeting, SmtpStartTLS host})"
  using assms
  by (auto simp: smtp_dial_def smtp_dialImplicitTLS_def smtp_dialStartTLS_def closing_def smtp_then_def send_def
      smtp_fail_def split: sum.splits if_splits option.splits)

definition auth_op :: "smtp_op \<Rightarrow> bool" where
  "auth_op op \<longleftrightarrow> (case op of
       SmtpAuth _ _ \<Rightarrow> True | SmtpAuthResponse _ \<Rightarrow> True | SmtpAuthAbort \<Rightarrow> True | SmtpQuit \<Rightarrow> True | _ \<Rightarrow> False)"

lemma auth_dialogue_ops:
  "auth_op op \<Longrightarrow> auth_dialogue net a op cs t = (r, t') \<Longrightarrow> \<exists>ops. t' = t @ ops \<and> list_all auth_op ops"
proof (induction cs arbitrary: op t)
  case Nil
  then show ?case by (auto simp: auth_op_def split: sum.splits if_splits)
next
  case (Cons c cs)
  show ?case
  proof (cases "auth_Next a c")
    case (Inl e)
    with Cons.prems show ?thesis by (auto simp: auth_op_def)
  next
    case (Inr answer)
    show ?thesis
    proof (cases answer)
      case None
      with Inr Cons.prems show ?thesis by auto
    next
      case (Some response)
      with Inr Cons.prems(2) have "auth_dialogue net a (SmtpAuthResponse response) cs (t @ [op]) = (r, t')" by simp
      moreover have "auth_op (SmtpAuthResponse response)" by (simp add: auth_op_def)
      ultimately obtain ops where "t' = (t @ [op]) @ ops" "list_all auth_op ops"
        using Cons.IH by blast
      with Cons.prems(1) have "t' = t @ op # ops \<and> list_all auth_op (op # ops)" by simp
      then show ?thesis by blast
    qed
  qed
qed

lemma authenticate_ops:
  assumes "authenticate net u p t = (r, t')"
  shows "\<exists>ops. t' = t @ ops \<and> list_all auth_op ops"
proof (cases "u = [] \<and> p = []")
  case True
  with assms show ?thesis by (simp add: authenticate_def)
next
  case False
  let ?a = "selectAuth net u p t"
  obtain r1 t1 where d: "auth_dialogue net ?a (auth_start ?a) (sn_challenges net t) t = (r1, t1)" by fastforce
  have "auth_op (auth_start ?a)" by (simp add: auth_start_def auth_op_def split: auth.splits)
  moreover have "t' = t1"
    using assms d False by (auto simp: authenticate_def smtp_then_def client_Auth_def smtp_done_def split: sum.splits)
  ultimately show ?thesis using auth_dialogue_ops [OF _ d] by simp
qed

text \<open>A part of an operation either has a sequence of commands accepted, or fails having sent a proper
  beginning of it, of which only the last may have been rejected.\<close>

fun stopped :: "smtp_net \<Rightarrow> transcript \<Rightarrow> transcript \<Rightarrow> transcript \<Rightarrow> bool" where
  "stopped net before [] t = False"
| "stopped net before (op # ops) [] = True"
| "stopped net before (op # ops) (op' # t) =
     (op' = op \<and> (if sn_reply net before op = Inr () then stopped net (before @ [op]) ops t else t = []))"

definition adds :: "smtp_net \<Rightarrow> unit smtp \<Rightarrow> transcript \<Rightarrow> bool" where
  "adds net m ops \<longleftrightarrow> (\<forall>t. case m t of
     (Inr _, t') \<Rightarrow> t' = t @ ops \<and> accepted net t ops
   | (Inl _, t') \<Rightarrow> \<exists>a. t' = t @ a \<and> stopped net t ops a)"

lemma adds_Inr: "adds net m ops \<Longrightarrow> m t = (Inr x, t') \<Longrightarrow> t' = t @ ops \<and> accepted net t ops"
  unfolding adds_def by (drule spec [of _ t]) simp

lemma adds_Inl: "adds net m ops \<Longrightarrow> m t = (Inl e, t') \<Longrightarrow> \<exists>a. t' = t @ a \<and> stopped net t ops a"
  unfolding adds_def by (drule spec [of _ t]) simp

lemma stopped_append: "stopped net before ops a \<Longrightarrow> stopped net before (ops @ ops') a"
  by (induction net before ops a rule: stopped.induct) (auto split: if_splits)

lemma stopped_after: "accepted net before ops \<Longrightarrow> stopped net (before @ ops) ops' a \<Longrightarrow> stopped net before (ops @ ops') (ops @ a)"
  by (induction ops arbitrary: before) auto

lemma adds_send: "adds net (send net op) [op]"
  unfolding adds_def send_def by (auto split: sum.splits)

lemma adds_send_line: "adds net (send_line net s op) [op]"
  using adds_send [of net op] unfolding adds_def send_line_def smtp_fail_def by simp

lemma adds_then:
  assumes "adds net m ops" and "\<And>x. adds net (k x) ops'"
  shows "adds net (smtp_then m wrap k) (ops @ ops')"
  unfolding adds_def
proof
  fix t
  obtain r1 t1 where m: "m t = (r1, t1)" by fastforce
  show "case smtp_then m wrap k t of
      (Inr _, t') \<Rightarrow> t' = t @ ops @ ops' \<and> accepted net t (ops @ ops')
    | (Inl _, t') \<Rightarrow> \<exists>a. t' = t @ a \<and> stopped net t (ops @ ops') a"
  proof (cases r1)
    case (Inl e)
    with adds_Inl [OF assms(1)] m stopped_append show ?thesis by (fastforce simp: smtp_then_def)
  next
    case (Inr x)
    with adds_Inr [OF assms(1)] m have t1: "t1 = t @ ops" "accepted net t ops" by simp_all
    obtain r2 t2 where k: "k x t1 = (r2, t2)" by fastforce
    show ?thesis
    proof (cases r2)
      case (Inl e)
      from adds_Inl [OF assms(2) k [unfolded Inl]] obtain a where
        a: "t2 = t @ ops @ a" "stopped net (t @ ops) ops' a" by (auto simp: t1)
      have "t2 = t @ (ops @ a) \<and> stopped net t (ops @ ops') (ops @ a)"
        using a stopped_after [OF t1(2) a(2)] by simp
      with m k Inl Inr show ?thesis by (simp add: smtp_then_def)
    next
      case (Inr y)
      with adds_Inr [OF assms(2) k [unfolded Inr]] m k \<open>r1 = Inr x\<close> t1 show ?thesis
        by (simp add: smtp_then_def accepted_append)
    qed
  qed
qed

definition mail_ops :: "string \<Rightarrow> string list \<Rightarrow> string \<Rightarrow> transcript" where
  "mail_ops from_addr to message =
     SmtpMail from_addr # map SmtpRcpt to @ [SmtpData, SmtpWrite message, SmtpEndData]"

lemma adds_recipients: "adds net (send_recipients net to) (map SmtpRcpt to)"
proof (induction to)
  case Nil
  then show ?case by (simp add: adds_def smtp_done_def)
next
  case (Cons a to)
  from adds_then [OF adds_send_line Cons] show ?case by simp
qed

text \<open>The same, for the message up to the reply to its end.\<close>

lemma send_message_ops:
  assumes "send_message net from_addr to message t = (r, t')"
  shows "case r of
      Inr _ \<Rightarrow> t' = t @ mail_ops from_addr to message @ [SmtpQuit] \<and> accepted net t (mail_ops from_addr to message)
    | Inl _ \<Rightarrow> \<exists>a. t' = t @ a \<and> stopped net t (mail_ops from_addr to message) a"
proof -
  define body where "body =
     smtp_then (send_line net from_addr (SmtpMail from_addr)) (send_failed ''setting sender'') (\<lambda>_.
     smtp_then (send_recipients net to) (\<lambda>e. e) (\<lambda>_.
     smtp_then (send net SmtpData) (send_failed ''opening data'') (\<lambda>_.
     smtp_then (send net (SmtpWrite message)) (send_failed ''writing message'') (\<lambda>_.
     smtp_then (send net SmtpEndData) (send_failed ''closing data'') (\<lambda>_. smtp_done)))))"
  have "adds net smtp_done []" by (simp add: adds_def smtp_done_def)
  from adds_then [OF adds_send_line adds_then [OF adds_recipients adds_then [OF adds_send
      adds_then [OF adds_send adds_then [OF adds_send this]]]]]
  have adds: "adds net body (mail_ops from_addr to message)" unfolding body_def mail_ops_def by simp
  obtain r1 t1 where b: "body t = (r1, t1)" by fastforce
  have "r = r1 \<and> t' = (if r1 = Inr () then t1 @ [SmtpQuit] else t1)"
    using assms b unfolding send_message_def body_def
    by (auto simp: smtp_then_def smtp_done_def smtp_quit_def sent_def split: sum.splits prod.splits)
  with adds_Inr [OF adds] adds_Inl [OF adds] b show ?thesis by (cases r1) auto
qed

lemma stopped_not_accepted:
  "stopped net before (ops @ [op]) (b @ op # c) \<Longrightarrow> op \<notin> set ops \<Longrightarrow> sn_reply net (before @ b) op \<noteq> Inr ()"
proof (induction ops arbitrary: before b)
  case Nil
  then show ?case by (cases b) (auto split: if_splits)
next
  case (Cons x ops)
  then show ?case by (cases b) (fastforce split: if_splits)+
qed

section \<open>A whole conversation\<close>

lemma given_back_plain:
  "list_all (\<lambda>op. op \<noteq> SmtpClose \<and> \<not> is_connect op) ops \<Longrightarrow> given_back (SmtpConnect host port # ops @ [SmtpClose])"
  by (simp add: given_back_def is_connect_def filter_False list_all_iff)

lemma auth_op_plain: "list_all auth_op ops \<Longrightarrow> list_all (\<lambda>op. op \<noteq> SmtpClose \<and> \<not> is_connect op) ops"
  by (auto simp: list_all_iff auth_op_def is_connect_def split: smtp_op.splits)

lemma stopped_subset: "stopped net before ops a \<Longrightarrow> set a \<subseteq> set ops"
  by (induction net before ops a rule: stopped.induct) (auto split: if_splits)

lemma mail_ops_plain: "op \<in> set (mail_ops from_addr to message) \<Longrightarrow> op \<noteq> SmtpClose \<and> \<not> is_connect op"
  by (auto simp: mail_ops_def is_connect_def)

text \<open>The conversation of a connected client up to its closing: the handshake, the authentication, a part
  of the mail.\<close>

lemma handshake:
  assumes "smtp_dial net host port [] = (Inr x, t)"
  shows "secured net [] False (t @ rest)"
    and "\<exists>ops. t = SmtpConnect host port # ops \<and> list_all (\<lambda>op. op \<noteq> SmtpClose \<and> \<not> is_connect op) ops"
    and "SmtpEndData \<notin> set t"
  using smtp_dial_Inr [OF assms] by (auto simp: is_secret_def is_tls_def is_connect_def)

lemma no_end_data_split:
  assumes "SmtpEndData \<notin> set pre" and "pre @ a @ [SmtpClose] = b @ SmtpEndData # c"
  shows "\<exists>b' c'. b = pre @ b' \<and> a = b' @ SmtpEndData # c'"
proof -
  obtain b' where b: "b = pre @ b'" "a @ [SmtpClose] = b' @ SmtpEndData # c"
    using assms by (auto simp: append_eq_append_conv2 append_eq_Cons_conv)
  from b(2) have "c \<noteq> []" by (cases c rule: rev_cases) auto
  then obtain c' y where "c = c' @ [y]" by (cases c rule: rev_cases) auto
  with b show ?thesis by auto
qed

lemma send_email_refused:
  assumes "smtp_dial net (sc_Host cfg) (sc_Port cfg) [] = (Inl e, t)"
  shows "secured net [] False t \<and> given_back t \<and> SmtpEndData \<notin> set t"
proof -
  from smtp_dial_Inl [OF assms] consider "t = []"
    | ops where "t = SmtpConnect (sc_Host cfg) (sc_Port cfg) # ops @ [SmtpClose]"
        "set ops \<subseteq> {SmtpTLS (sc_Host cfg), SmtpGreeting, SmtpStartTLS (sc_Host cfg)}"
    by blast
  then show ?thesis
  proof cases
    case (2 ops)
    have "list_all (\<lambda>op. op \<noteq> SmtpClose \<and> \<not> is_connect op) ops" "SmtpEndData \<notin> set ops" "list_all (\<lambda>op. \<not> is_secret op) t"
      using 2(2) by (auto simp: list_all_iff is_connect_def is_secret_def 2(1) dest!: subsetD)
    with 2(1) given_back_plain secured_plain show ?thesis by auto
  qed (simp add: given_back_def)
qed

lemma send_email_connected:
  assumes dial: "smtp_dial net (sc_Host cfg) (sc_Port cfg) [] = (Inr x, t1)" and to: "to \<noteq> []"
    and run: "SendEmail net cfg from_addr to message [] = (r, t)"
  shows "\<exists>aops a. list_all auth_op aops \<and> t = (t1 @ aops) @ a @ [SmtpClose]
    \<and> (r = Inr () \<and> a = mail_ops from_addr to message @ [SmtpQuit] \<and> accepted net (t1 @ aops) (mail_ops from_addr to message)
       \<or> r \<noteq> Inr () \<and> (a = [] \<or> stopped net (t1 @ aops) (mail_ops from_addr to message) a))"
proof -
  obtain r2 t2 where auth: "authenticate net (sc_Username cfg) (sc_Password cfg) t1 = (r2, t2)" by fastforce
  from authenticate_ops [OF auth] obtain aops where t2: "t2 = t1 @ aops" "list_all auth_op aops" by blast
  show ?thesis
  proof (cases r2)
    case (Inl e)
    then have "t = t2 @ [] @ [SmtpClose]" "r \<noteq> Inr ()"
      using run to dial auth by (auto simp: SendEmail_def with_client_def smtp_then_def)
    with t2 show ?thesis by auto
  next
    case (Inr y)
    obtain r3 t3 where mail: "send_message net from_addr to message t2 = (r3, t3)" by fastforce
    have rt: "r = r3" "t = t3 @ [SmtpClose]"
      using run to dial auth Inr mail by (auto simp: SendEmail_def with_client_def smtp_then_def)
    from send_message_ops [OF mail] obtain a where "t3 = t2 @ a"
      "r3 = Inr () \<and> a = mail_ops from_addr to message @ [SmtpQuit] \<and> accepted net t2 (mail_ops from_addr to message)
       \<or> r3 \<noteq> Inr () \<and> stopped net t2 (mail_ops from_addr to message) a"
      by (cases r3) auto
    with rt t2 show ?thesis by auto
  qed
qed

lemma mail_ops_snoc:
  "mail_ops from_addr to message = (SmtpMail from_addr # map SmtpRcpt to @ [SmtpData, SmtpWrite message]) @ [SmtpEndData]"
  by (simp add: mail_ops_def)

lemma send_email_accepts:
  assumes pre: "SmtpEndData \<notin> set pre" and t: "t = pre @ a @ [SmtpClose]"
    and a: "r = Inr () \<and> a = mail_ops from_addr to message @ [SmtpQuit] \<and> accepted net pre (mail_ops from_addr to message)
       \<or> r \<noteq> Inr () \<and> (a = [] \<or> stopped net pre (mail_ops from_addr to message) a)"
  shows "r = Inr () \<longleftrightarrow> message_accepted net t"
proof (cases "r = Inr ()")
  case True
  with a t have "t = (pre @ SmtpMail from_addr # map SmtpRcpt to @ [SmtpData, SmtpWrite message]) @ SmtpEndData # [SmtpQuit, SmtpClose]"
    "accepted net pre ((SmtpMail from_addr # map SmtpRcpt to @ [SmtpData, SmtpWrite message]) @ [SmtpEndData])"
    by (auto simp: mail_ops_def)
  with True show ?thesis unfolding message_accepted_def accepted_append by fastforce
next
  case False
  have "\<not> message_accepted net t"
  proof
    assume "message_accepted net t"
    then obtain b c where bc: "pre @ a @ [SmtpClose] = b @ SmtpEndData # c" "sn_reply net b SmtpEndData = Inr ()"
      using t by (auto simp: message_accepted_def)
    from no_end_data_split [OF pre bc(1)] obtain b' c' where b': "b = pre @ b'" "a = b' @ SmtpEndData # c'" by blast
    with a False have "stopped net pre (mail_ops from_addr to message) (b' @ SmtpEndData # c')" by auto
    from stopped_not_accepted [OF this [unfolded mail_ops_snoc]] bc(2) b'(1) show False by auto
  qed
  with False show ?thesis by simp
qed

lemma send_email_transcript:
  "let (r, t) = SendEmail net cfg from_addr to message [] in
     secured net [] False t \<and> given_back t \<and> (r = Inr () \<longleftrightarrow> message_accepted net t)
     \<and> (r = Inr () \<longrightarrow> (\<exists>before after. t = before @ mail_ops from_addr to message @ after
          \<and> accepted net before (mail_ops from_addr to message)))"
proof (cases "to = []")
  case True
  then show ?thesis by (simp add: SendEmail_def smtp_fail_def given_back_def message_accepted_def)
next
  case False
  obtain r t where run: "SendEmail net cfg from_addr to message [] = (r, t)" by fastforce
  obtain r1 t1 where dial: "smtp_dial net (sc_Host cfg) (sc_Port cfg) [] = (r1, t1)" by fastforce
  show ?thesis
  proof (cases r1)
    case (Inl e)
    with False dial send_email_refused [of net cfg e t1] show ?thesis
      by (auto simp: SendEmail_def with_client_def message_accepted_def)
  next
    case (Inr x)
    note hs = handshake [OF dial [unfolded Inr]]
    from send_email_connected [OF dial [unfolded Inr] False run] obtain aops a where
      aops: "list_all auth_op aops" and t: "t = (t1 @ aops) @ a @ [SmtpClose]" and
      a: "r = Inr () \<and> a = mail_ops from_addr to message @ [SmtpQuit] \<and> accepted net (t1 @ aops) (mail_ops from_addr to message)
        \<or> r \<noteq> Inr () \<and> (a = [] \<or> stopped net (t1 @ aops) (mail_ops from_addr to message) a)"
      by blast
    have plain: "list_all (\<lambda>op. op \<noteq> SmtpClose \<and> \<not> is_connect op) a"
      using a mail_ops_plain stopped_subset by (fastforce simp: list_all_iff is_connect_def)
    obtain hops where "t1 = SmtpConnect (sc_Host cfg) (sc_Port cfg) # hops" "list_all (\<lambda>op. op \<noteq> SmtpClose \<and> \<not> is_connect op) hops"
      using hs(2) by blast
    then have "given_back t"
      using given_back_plain [of "hops @ aops @ a"] plain auth_op_plain [OF aops] t by simp
    moreover have "secured net [] False t" using hs(1) t by simp
    moreover have "SmtpEndData \<notin> set (t1 @ aops)"
      using hs(3) aops by (auto simp: auth_op_def list_all_iff)
    then have "r = Inr () \<longleftrightarrow> message_accepted net t" by (rule send_email_accepts [OF _ t a])
    moreover have "r = Inr () \<Longrightarrow> t = (t1 @ aops) @ mail_ops from_addr to message @ [SmtpQuit, SmtpClose]
        \<and> accepted net (t1 @ aops) (mail_ops from_addr to message)"
      using a t by auto
    ultimately show ?thesis unfolding run Let_def case_prod_conv by blast
  qed
qed

text \<open>C33: \<open>SendEmail\<close> tells the truth, on every server: it returns no error exactly when the server accepted
  sender, every recipient in order and the whole message, and no secret (credentials, addresses,
  the message) is sent before a TLS handshake has succeeded; a connection that was opened is closed
  once, at the end.\<close>

theorem send_email_exact:
  "let (r, t) = SendEmail net cfg from_addr to message [] in
     secured net [] False t \<and> given_back t \<and> (r = Inr () \<longleftrightarrow> message_accepted net t)
     \<and> (r = Inr () \<longleftrightarrow> (\<exists>before after. t = before @ mail_ops from_addr to message @ after
          \<and> accepted net before (mail_ops from_addr to message)))"
proof -
  obtain r t where run: "SendEmail net cfg from_addr to message [] = (r, t)" by fastforce
  have "message_accepted net t"
    if m: "t = before @ mail_ops from_addr to message @ after" "accepted net before (mail_ops from_addr to message)" for before after
  proof -
    obtain ops where "mail_ops from_addr to message = ops @ [SmtpEndData]" by (simp add: mail_ops_def)
    with m show ?thesis unfolding message_accepted_def
      by (intro exI [of _ "before @ ops"] exI [of _ after]) (simp add: accepted_append)
  qed
  with send_email_transcript [of net cfg from_addr to message] run show ?thesis by auto
qed

section \<open>Prompts of the LOGIN dialogue\<close>

text \<open>The prompts \<open>Username\<close> and \<open>Password\<close> without a colon, which the code lists, are never
  recognised: both are valid base64, so the decoding, which \<open>net/smtp\<close> has done already, is
  done a second time and gives another text. With the colon the decoding fails and the prompt is answered.\<close>

lemma login_prompt_without_colon:
  "(\<exists>e. login_Next u p ''Username'' True = Inl e) \<and> (\<exists>e. login_Next u p ''Password'' True = Inl e)
   \<and> login_Next u p ''Username:'' True = Inr (Some u) \<and> login_Next u p ''Password:'' True = Inr (Some p)"
proof -
  have "map_option length (base64_Decode ''Username'') = Some 6" "map_option length (base64_Decode ''Password'') = Some 6"
    by code_simp+
  then obtain m n where m: "base64_Decode ''Username'' = Some m" "length m = 6"
    and n: "base64_Decode ''Password'' = Some n" "length n = 6" by auto
  have "base64_Decode ''Username:'' = None" "base64_Decode ''Password:'' = None" by code_simp+
  moreover have "\<forall>w\<in>{''Username:'', ''Username'', ''username:'', ''Password:'', ''Password'', ''password:''}. m \<noteq> w \<and> n \<noteq> w"
    using m(2) n(2) by auto
  ultimately show ?thesis using m(1) n(1) by (simp add: login_Next_def)
qed

end
