(* ===== verification/GoTime.thy ===== *)
theory GoTime
  imports Domain
begin

text \<open>
  \<open>time.Time.Format\<close> with the two layouts of \<open>internal/api/message_handler.go\<close>. A time read from the
  database is printed in the local zone of the process; the argument \<open>zone\<close> gives the offset of
  that zone from UTC, in seconds, at a time.
\<close>

section \<open>Dates\<close>

text \<open>Days are counted from 1 January of year 1. A year is found by cutting off cycles of 400, 100, 4 and
  1 years, where the last century of 400 years and the last year of 4 are a day longer.\<close>

definition days_before_year :: "int \<Rightarrow> int" where
  "days_before_year y = 365 * (y - 1) + (y - 1) div 4 - (y - 1) div 100 + (y - 1) div 400"

definition cut :: "int \<Rightarrow> int \<Rightarrow> int" where
  "cut d cycle = min 3 (d div cycle)"

definition year_yday :: "int \<Rightarrow> int \<times> int" where
  "year_yday d0 =
     (let n400 = d0 div 146097; d1 = d0 mod 146097;
          n100 = cut d1 36524; d2 = d1 - 36524 * n100;
          n4 = d2 div 1461; d3 = d2 mod 1461;
          n1 = cut d3 365
      in (400 * n400 + 100 * n100 + 4 * n4 + n1 + 1, d3 - 365 * n1))"

definition is_leap :: "int \<Rightarrow> bool" where
  "is_leap y \<longleftrightarrow> y mod 4 = 0 \<and> (y mod 100 \<noteq> 0 \<or> y mod 400 = 0)"

definition month_lengths :: "bool \<Rightarrow> int list" where
  "month_lengths leap = [31, if leap then 29 else 28, 31, 30, 31, 30, 31, 31, 30, 31, 30, 31]"

text \<open>The month, counted from 0, and the day of the month, counted from 1.\<close>

fun month_day :: "int list \<Rightarrow> int \<Rightarrow> nat \<times> int" where
  "month_day [] d = (0, d + 1)"
| "month_day (m # ms) d = (if d < m then (0, d + 1) else (let (k, e) = month_day ms (d - m) in (Suc k, e)))"

lemma year_yday_ok:
  assumes "year_yday d = (y, r)"
  shows "d = days_before_year y + r" and "0 \<le> r" and "r \<le> 365"
proof -
  define n400 d1 where "n400 = d div 146097" and "d1 = d mod 146097"
  define n100 d2 where "n100 = cut d1 36524" and "d2 = d1 - 36524 * n100"
  define n4 d3 where "n4 = d2 div 1461" and "d3 = d2 mod 1461"
  define n1 where "n1 = cut d3 365"
  note defs = n400_def d1_def n100_def d2_def n4_def d3_def n1_def
  have y: "y - 1 = 400 * n400 + 100 * n100 + 4 * n4 + n1" and r: "r = d3 - 365 * n1"
    using assms by (auto simp: year_yday_def Let_def defs)
  have d: "d = 146097 * n400 + d1" "d1 = 36524 * n100 + d2" "d2 = 1461 * n4 + d3"
    by (simp_all add: defs)
  have d1: "0 \<le> d1" "d1 \<le> 146096" by (simp_all add: d1_def)
  have n100: "0 \<le> n100" "n100 \<le> 3" using d1 by (auto simp: n100_def cut_def)
  have d2: "0 \<le> d2" "d2 \<le> 36524"
    using d1 by (auto simp: d2_def n100_def cut_def min_def)
  have d3: "0 \<le> d3" "d3 \<le> 1460" by (simp_all add: d3_def)
  have n1: "0 \<le> n1" "n1 \<le> 3" using d3 by (auto simp: n1_def cut_def)
  have n4: "0 \<le> n4" "n4 \<le> 24" using d2 by (auto simp: n4_def)
  show "0 \<le> r" "r \<le> 365" using d3 by (auto simp: r n1_def cut_def min_def)
  have digit: "(k * a + b) div k = a" if "0 \<le> b" "b < k" for k a b :: int
    using that by (simp add: div_add1_eq)
  have "(y - 1) div 4 = 100 * n400 + 25 * n100 + n4" "(y - 1) div 100 = 4 * n400 + n100" "(y - 1) div 400 = n400"
    using digit [of n1 4 "100 * n400 + 25 * n100 + n4"] digit [of "4 * n4 + n1" 100 "4 * n400 + n100"]
      digit [of "100 * n100 + 4 * n4 + n1" 400 n400] n100 n4 n1 by (simp_all add: y algebra_simps)
  then show "d = days_before_year y + r"
    using y r d by (simp add: days_before_year_def)
qed

section \<open>Format\<close>

text \<open>Integers padded with zeros to a width.\<close>

definition pad :: "nat \<Rightarrow> nat \<Rightarrow> string" where
  "pad width n = (let s = nat_digits n in replicate (width - length s) (CHR ''0'') @ s)"

definition pad_int :: "nat \<Rightarrow> int \<Rightarrow> string" where
  "pad_int width i = (if i < 0 then ''-'' @ pad width (nat (- i)) else pad width (nat i))"

definition weekday_names :: "string list" where
  "weekday_names = [''Mon'', ''Tue'', ''Wed'', ''Thu'', ''Fri'', ''Sat'', ''Sun'']"

definition month_names :: "string list" where
  "month_names = [''Jan'', ''Feb'', ''Mar'', ''Apr'', ''May'', ''Jun'', ''Jul'', ''Aug'', ''Sep'', ''Oct'', ''Nov'', ''Dec'']"

text \<open>\<open>Mon, 2 Jan 2006\<close>; 1 January of year 1 is a Monday.\<close>

definition format_date :: "int \<Rightarrow> string" where
  "format_date d =
     (let (y, yday) = year_yday d; (m, day) = month_day (month_lengths (is_leap y)) yday
      in weekday_names ! nat (d mod 7) @ '', '' @ pad_int 1 day @ '' '' @ month_names ! m @ '' '' @ pad_int 4 y)"

definition local_seconds :: "(time \<Rightarrow> int) \<Rightarrow> time \<Rightarrow> int" where
  "local_seconds zone t = t div second + zone t"

text \<open>\<open>Mon, 2 Jan 2006 at 15:04\<close>\<close>

definition format_attribution_time :: "(time \<Rightarrow> int) \<Rightarrow> time \<Rightarrow> string" where
  "format_attribution_time zone t =
     (let s = local_seconds zone t; sod = s mod 86400
      in format_date (s div 86400) @ '' at '' @ pad_int 2 (sod div 3600) @ '':'' @ pad_int 2 (sod mod 3600 div 60))"

text \<open>\<open>Mon, 2 Jan 2006 15:04:05 -0700\<close>, whose zone is in whole minutes, truncated towards 0.\<close>

definition format_zone :: "int \<Rightarrow> string" where
  "format_zone off =
     (let minutes = \<bar>off\<bar> div 60
      in (if off < 0 \<and> minutes \<noteq> 0 then ''-'' else ''+'') @ pad_int 2 (minutes div 60) @ pad_int 2 (minutes mod 60))"

definition format_header_time :: "(time \<Rightarrow> int) \<Rightarrow> time \<Rightarrow> string" where
  "format_header_time zone t =
     (let s = local_seconds zone t; sod = s mod 86400
      in format_date (s div 86400) @ '' '' @ pad_int 2 (sod div 3600) @ '':'' @ pad_int 2 (sod mod 3600 div 60)
           @ '':'' @ pad_int 2 (sod mod 60) @ '' '' @ format_zone (zone t))"

lemma month_day_bound:
  assumes "0 \<le> d" and "d < sum_list ms"
  shows "fst (month_day ms d) < length ms"
  using assms
proof (induction ms arbitrary: d)
  case (Cons m ms)
  from Cons.prems Cons.IH [of "d - m"] show ?case by (cases "d < m"; cases "month_day ms (d - m)") simp_all
qed simp

text \<open>The month of a date is always one of the twelve: a year of 366 days is a leap year.\<close>

lemma yday_in_year:
  assumes "year_yday d = (y, r)"
  shows "r < sum_list (month_lengths (is_leap y))"
proof -
  define n400 d1 where "n400 = d div 146097" and "d1 = d mod 146097"
  define n100 d2 where "n100 = cut d1 36524" and "d2 = d1 - 36524 * n100"
  define n4 d3 where "n4 = d2 div 1461" and "d3 = d2 mod 1461"
  define n1 where "n1 = cut d3 365"
  note defs = n400_def d1_def n100_def d2_def n4_def d3_def n1_def
  have y: "y = 400 * n400 + 100 * n100 + 4 * n4 + n1 + 1" and r: "r = d3 - 365 * n1"
    using assms by (auto simp: year_yday_def Let_def defs)
  have d1: "0 \<le> d1" "d1 \<le> 146096" by (simp_all add: d1_def)
  have n100: "0 \<le> n100" "n100 \<le> 3" using d1 by (auto simp: n100_def cut_def)
  have d2: "0 \<le> d2" "d2 \<le> 36524" "n100 \<noteq> 3 \<Longrightarrow> d2 < 36524"
    using d1 by (auto simp: d2_def n100_def cut_def min_def split: if_splits)
  have d3: "0 \<le> d3" "d3 \<le> 1460" by (simp_all add: d3_def)
  have n4: "0 \<le> n4" "n4 \<le> 24" using d2 by (auto simp: n4_def)
  show ?thesis
  proof (cases "r = 365")
    case False
    with year_yday_ok(3) [OF assms] show ?thesis by (simp add: month_lengths_def)
  next
    case True
    then have "n1 = 3" "d3 = 1460" using d3 r by (auto simp: n1_def cut_def min_def split: if_splits)
    then have y4: "y = 4 * (100 * n400 + 25 * n100 + n4 + 1)" by (simp add: y)
    show ?thesis
    proof (cases "n4 = 24")
      case True
      then have "d2 = 36524" using \<open>d3 = 1460\<close> mult_div_mod_eq [of 1461 d2] by (simp add: n4_def d3_def)
      then have "n100 = 3" using d2(3) by (cases "n100 = 3") auto
      with True y4 have "y = 400 * (n400 + 1)" by simp
      then have "is_leap y" by (simp add: is_leap_def)
      with \<open>r = 365\<close> show ?thesis by (simp add: month_lengths_def)
    next
      case False
      have "y = 4 * (n4 + 1) + (4 * n400 + n100) * 100" using y4 by simp
      then have "y mod 100 = 4 * (n4 + 1) mod 100" by (simp only: mod_mult_self1)
      also have "\<dots> = 4 * (n4 + 1)" using False n4 by simp
      finally have "y mod 100 = 4 * (n4 + 1)" .
      moreover have "y mod 4 = 0" by (simp add: y4)
      ultimately have "is_leap y" using n4 by (simp add: is_leap_def)
      with \<open>r = 365\<close> show ?thesis by (simp add: month_lengths_def)
    qed
  qed
qed

lemma format_date_month:
  "year_yday d = (y, r) \<Longrightarrow> fst (month_day (month_lengths (is_leap y)) r) < length month_names"
  using month_day_bound [OF year_yday_ok(2) yday_in_year, of d y r]
  by (simp add: month_names_def month_lengths_def)

lemma format_header_time_epoch:
  "format_header_time (\<lambda>_. - 5400) (62135596800 * second) = ''Wed, 31 Dec 1969 22:30:00 -0130''"
  by code_simp

end
