(* ===== verification/MessageText.thy ===== *)
theory MessageText
  imports GoTime Externals
begin

text \<open>
  The text functions of \<open>internal/api/message_handler.go\<close>: subjects of replies and forwards, the
  References and Message-ID headers of a raw message, and the quoted bodies. Slicing a string out of
  bounds panics; \<open>None\<close> is that panic where a function can reach it.
\<close>

section \<open>Subjects\<close>

definition buildReplySubject :: "externals \<Rightarrow> string \<Rightarrow> string" where
  "buildReplySubject x subject =
     (let trimmed = TrimSpace subject
      in if HasPrefix (ToLower (x_unicode_lower x) trimmed) ''re:'' then trimmed else ''Re: '' @ trimmed)"

definition buildForwardSubject :: "externals \<Rightarrow> string \<Rightarrow> string" where
  "buildForwardSubject x subject =
     (let trimmed = TrimSpace subject; lower = ToLower (x_unicode_lower x) trimmed
      in if HasPrefix lower ''fwd:'' \<or> HasPrefix lower ''fw:'' then trimmed else ''Fwd: '' @ trimmed)"

section \<open>Headers of a raw message\<close>

definition blank :: "char \<Rightarrow> bool" where
  "blank c \<longleftrightarrow> c = CHR '' '' \<or> c = CHR 0x09"

definition line_end :: "char \<Rightarrow> bool" where
  "line_end c \<longleftrightarrow> c = CHR 0x0D \<or> c = CHR 0x0A"

text \<open>The loop that finds the end of the header, on the rest of the message from \<open>end\<close> on; its result is
  the part of it that belongs to the header. At a line end, the position \<open>next\<close> is one on, or two when
  a line feed follows; the header goes on when a blank stands there.\<close>

definition after_line_end :: "string \<Rightarrow> string" where
  "after_line_end s = (case s of c # t \<Rightarrow> if c = CHR 0x0A then t else s | [] \<Rightarrow> [])"

definition continues :: "string \<Rightarrow> bool" where
  "continues s \<longleftrightarrow> s \<noteq> [] \<and> blank (hd s)"

function header_rest :: "string \<Rightarrow> string" where
  "header_rest [] = []"
| "header_rest (c # s) =
     (if line_end c
      then if continues (after_line_end s)
        then take (Suc (length s) - length (after_line_end s)) (c # s) @ header_rest (after_line_end s)
        else []
      else c # header_rest s)"
  by pat_completeness auto
termination
  by (relation "measure length") (auto simp: after_line_end_def split: list.splits)

text \<open>\<open>parseMessageIDs\<close> with the bytes since the last \<open><\<close>, if there was one.\<close>

fun message_ids :: "string option \<Rightarrow> string \<Rightarrow> string list" where
  "message_ids open [] = []"
| "message_ids open (c # s) =
     (if c = CHR ''<'' then message_ids (Some ''<'') s
      else case open of
        None \<Rightarrow> message_ids None s
      | Some t \<Rightarrow> if c = CHR ''>'' then (t @ ''>'') # message_ids None s else message_ids (Some (t @ [c])) s)"

definition parseMessageIDs :: "string \<Rightarrow> string list" where
  "parseMessageIDs s = message_ids None s"

text \<open>\<open>extractReferences\<close>: the position of the header is found in the lower-cased message and used in the
  message itself; \<open>raw[start:end]\<close> panics when \<open>start\<close> is beyond its end.\<close>

definition extractReferences :: "externals \<Rightarrow> string \<Rightarrow> string list option" where
  "extractReferences x raw =
     (case Index (ToLower (x_unicode_lower x) raw) ''references:'' of
        None \<Rightarrow> Some []
      | Some idx \<Rightarrow>
          (let start = idx + length ''references:''
           in if start > length raw then None
              else Some (parseMessageIDs (header_rest (dropWhile blank (drop start raw))))))"

text \<open>\<open>extractMessageID\<close>: the three spellings in turn; the inner loop returns in its first round.\<close>

definition message_id_after :: "string \<Rightarrow> string \<Rightarrow> string option" where
  "message_id_after prefix raw =
     (case Index raw prefix of
        None \<Rightarrow> None
      | Some idx \<Rightarrow> Some (takeWhile (\<lambda>c. \<not> line_end c) (drop (idx + length prefix) raw)))"

fun first_message_id :: "string list \<Rightarrow> string \<Rightarrow> string" where
  "first_message_id [] raw = []"
| "first_message_id (p # ps) raw =
     (case message_id_after p raw of None \<Rightarrow> first_message_id ps raw | Some m \<Rightarrow> m)"

definition extractMessageID :: "string \<Rightarrow> string" where
  "extractMessageID raw = first_message_id [''Message-Id: '', ''Message-ID: '', ''message-id: ''] raw"

section \<open>Quoting\<close>

definition escapeHTML :: "string \<Rightarrow> string" where
  "escapeHTML s =
     ReplaceAll1 (ReplaceAll1 (ReplaceAll1 (ReplaceAll1 s (CHR ''&'') ''&amp;'')
       (CHR ''<'') ''&lt;'') (CHR ''>'') ''&gt;'') (CHR 0x22) ''&quot;''"

definition formatAddress :: "string \<Rightarrow> string \<Rightarrow> string" where
  "formatAddress name email = (if name = [] then email else name @ '' <'' @ email @ ''>'')"

definition formatAddressList :: "EmailAddress list \<Rightarrow> string" where
  "formatAddressList addrs = Join (map (\<lambda>a. formatAddress (ea_Name a) (ea_Email a)) addrs) '', ''"

definition formatAttribution :: "(time \<Rightarrow> int) \<Rightarrow> string \<Rightarrow> string \<Rightarrow> time \<Rightarrow> string" where
  "formatAttribution zone fromName fromEmail date =
     ''On '' @ format_attribution_time zone date @ '', '' @ formatAddress fromName fromEmail @ '' wrote:''"

definition quoteLines :: "string \<Rightarrow> string" where
  "quoteLines text = Join (map (\<lambda>line. ''> '' @ line) (Split1 text (CHR 0x0A))) [CHR 0x0A]"

abbreviation newline :: string where "newline \<equiv> [CHR 0x0A]"

definition quoteTextBody :: "(time \<Rightarrow> int) \<Rightarrow> string \<Rightarrow> string \<Rightarrow> string \<Rightarrow> time \<Rightarrow> string" where
  "quoteTextBody zone text fromName fromEmail date =
     (if text = [] then []
      else newline @ newline @ formatAttribution zone fromName fromEmail date @ newline @ quoteLines text)"

definition quoteHTMLBody :: "(time \<Rightarrow> int) \<Rightarrow> string \<Rightarrow> string \<Rightarrow> string \<Rightarrow> time \<Rightarrow> string" where
  \<open>quoteHTMLBody zone html fromName fromEmail date =
     (if html = [] then []
      else ''<br><br><div class="quote">'' @ escapeHTML (formatAttribution zone fromName fromEmail date) @
        ''<blockquote style="margin:0 0 0 0.8ex;border-left:1px solid #ccc;padding-left:1ex">'' @ html @
        ''</blockquote></div>'')\<close>

definition quoteForwardTextBody :: "(time \<Rightarrow> int) \<Rightarrow> email \<Rightarrow> string" where
  "quoteForwardTextBody zone original =
     (if em_ParsedText original = [] \<and> em_ParsedHTML original = [] then []
      else newline @ newline @ ''---------- Forwarded message ----------'' @ newline @
        ''From: '' @ formatAddress (em_FromName original) (em_FromEmail original) @ newline @
        ''Date: '' @ format_header_time zone (em_Date original) @ newline @
        ''Subject: '' @ em_Subject original @ newline @
        (if em_To original = [] then [] else ''To: '' @ formatAddressList (em_To original) @ newline) @
        newline @ em_ParsedText original)"

definition quoteForwardHTMLBody :: "(time \<Rightarrow> int) \<Rightarrow> email \<Rightarrow> string" where
  \<open>quoteForwardHTMLBody zone original =
     (if em_ParsedHTML original = [] \<and> em_ParsedText original = [] then []
      else ''<br><br><div class="forward">'' @
        ''<div style="border-bottom:1px solid #ccc;padding-bottom:10px;margin-bottom:10px">'' @
        ''<b>---------- Forwarded message ----------</b><br>'' @
        ''<b>From:</b> '' @ escapeHTML (formatAddress (em_FromName original) (em_FromEmail original)) @ ''<br>'' @
        ''<b>Date:</b> '' @ format_header_time zone (em_Date original) @ ''<br>'' @
        ''<b>Subject:</b> '' @ escapeHTML (em_Subject original) @ ''<br>'' @
        (if em_To original = [] then []
         else ''<b>To:</b> '' @ escapeHTML (formatAddressList (em_To original)) @ ''<br>'') @
        ''</div>'' @
        (if em_ParsedHTML original \<noteq> [] then em_ParsedHTML original
         else ''<pre>'' @ escapeHTML (em_ParsedText original) @ ''</pre>'') @
        ''</div>'')\<close>

section \<open>References that were written are read back\<close>

text \<open>A message identifier as the composer accepts it, and what may stand between two of them in a header
  that was folded.\<close>

definition message_id_text :: "string \<Rightarrow> bool" where
  "message_id_text r \<longleftrightarrow> (\<exists>inner. r = ''<'' @ inner @ ''>''
     \<and> list_all (\<lambda>c. c \<noteq> CHR ''<'' \<and> c \<noteq> CHR ''>'' \<and> \<not> line_end c) inner)"

definition crlf :: string where "crlf = [CHR 0x0D, CHR 0x0A]"

definition header_sep :: "string \<Rightarrow> bool" where
  "header_sep s \<longleftrightarrow> s = '' '' \<or> s = crlf @ '' ''"

definition header_value :: "(string \<times> string) list \<Rightarrow> string" where
  "header_value parts = concat (map (\<lambda>(sep, ref). sep @ ref) parts)"

lemma header_rest_plain: "list_all (\<lambda>c. \<not> line_end c) a \<Longrightarrow> header_rest (a @ s) = a @ header_rest s"
  by (induction a) auto

lemma header_rest_fold: "header_rest (crlf @ '' '' @ s) = crlf @ '' '' @ header_rest s"
  by (simp add: crlf_def line_end_def after_line_end_def continues_def blank_def)

lemma header_rest_end: "\<not> continues rest \<Longrightarrow> header_rest (crlf @ rest) = []"
  by (simp add: crlf_def line_end_def after_line_end_def)

lemma header_rest_sep: "header_sep sep \<Longrightarrow> header_rest (sep @ s) = sep @ header_rest s"
  using header_rest_fold [of s] by (auto simp: header_sep_def line_end_def)

lemma message_id_no_line_end:
  assumes "message_id_text r"
  shows "list_all (\<lambda>c. \<not> line_end c) r"
proof -
  obtain inner where r: "r = ''<'' @ inner @ ''>''"
    and "list_all (\<lambda>c. c \<noteq> CHR ''<'' \<and> c \<noteq> CHR ''>'' \<and> \<not> line_end c) inner"
    using assms message_id_text_def by blast
  then have "list_all (\<lambda>c. \<not> line_end c) inner" by (simp add: list_all_iff)
  moreover have "\<not> line_end (CHR ''<'')" "\<not> line_end (CHR ''>'')" by (simp_all add: line_end_def)
  ultimately show ?thesis by (simp add: r)
qed

lemma header_rest_value:
  assumes "list_all (\<lambda>(sep, ref). header_sep sep \<and> message_id_text ref) parts" and "\<not> continues rest"
  shows "header_rest (header_value parts @ crlf @ rest) = header_value parts"
  using assms
proof (induction parts)
  case Nil
  then show ?case by (simp add: header_value_def header_rest_end)
next
  case (Cons p parts)
  obtain sep ref where p: "p = (sep, ref)" by fastforce
  have "header_rest (ref @ header_value parts @ crlf @ rest) = ref @ header_value parts"
    using Cons p by (simp add: header_rest_plain message_id_no_line_end)
  with Cons.prems p show ?case by (simp add: header_value_def header_rest_sep)
qed

lemma message_ids_inner:
  "list_all (\<lambda>c. c \<noteq> CHR ''<'' \<and> c \<noteq> CHR ''>'' \<and> \<not> line_end c) inner \<Longrightarrow>
     message_ids (Some t) (inner @ CHR ''>'' # s) = (t @ inner @ ''>'') # message_ids None s"
  by (induction inner arbitrary: t) auto

lemma message_ids_ref: "message_id_text r \<Longrightarrow> message_ids None (r @ s) = r # message_ids None s"
  by (auto simp: message_id_text_def message_ids_inner)

lemma message_ids_sep: "header_sep sep \<Longrightarrow> message_ids None (sep @ s) = message_ids None s"
  by (auto simp: header_sep_def crlf_def)

lemma message_ids_value:
  "list_all (\<lambda>(sep, ref). header_sep sep \<and> message_id_text ref) parts \<Longrightarrow>
     message_ids None (header_value parts) = map snd parts"
  by (induction parts) (auto simp: header_value_def message_ids_ref message_ids_sep)

lemma drop_blank_value:
  assumes "list_all (\<lambda>(sep, ref). header_sep sep \<and> message_id_text ref) parts"
  shows "\<exists>v. dropWhile blank (header_value parts @ crlf @ rest) = v @ crlf @ rest
    \<and> (header_value parts = v \<or> header_value parts = '' '' @ v)"
proof (cases parts)
  case Nil
  then show ?thesis by (simp add: header_value_def crlf_def blank_def)
next
  case (Cons p ps)
  obtain sep ref where p: "p = (sep, ref)" by fastforce
  with assms Cons obtain inner where ref: "ref = CHR ''<'' # inner" and "header_sep sep"
    by (auto simp: message_id_text_def)
  then have "sep = '' '' \<or> sep = crlf @ '' ''" by (simp add: header_sep_def)
  with Cons p ref show ?thesis by (auto simp: header_value_def crlf_def blank_def)
qed

text \<open>C38: The References header of a message, in any spelling of its name and folded over lines in any
  way at its separators, is read back as the list of identifiers it was written from. The message is
  ASCII and no other text before the header spells its name.\<close>

theorem references_roundtrip:
  assumes raw: "raw = pre @ name @ header_value parts @ crlf @ rest"
    and name: "map lower_char name = ''references:''"
    and first: "Index (map lower_char raw) ''references:'' = Some (length pre)"
    and parts: "list_all (\<lambda>(sep, ref). header_sep sep \<and> message_id_text ref) parts"
    and ascii: "list_all is_ascii raw" and rest: "\<not> continues rest"
  shows "extractReferences x raw = Some (map snd parts)"
proof -
  have len: "length name = length ''references:''" using arg_cong [OF name, of length] by simp
  obtain v where v: "dropWhile blank (header_value parts @ crlf @ rest) = v @ crlf @ rest"
    and parts_v: "header_value parts = v \<or> header_value parts = '' '' @ v"
    using drop_blank_value [OF parts] by blast
  have "header_rest (header_value parts @ crlf @ rest) = header_value parts"
    by (rule header_rest_value [OF parts rest])
  then have rest_v: "header_rest (v @ crlf @ rest) = v"
    using parts_v by (auto simp: line_end_def)
  have ids: "parseMessageIDs v = map snd parts"
    using message_ids_value [OF parts] parts_v by (auto simp: parseMessageIDs_def)
  have "drop (length pre + length ''references:'') raw = header_value parts @ crlf @ rest"
    using raw len by simp
  moreover have "\<not> length pre + length ''references:'' > length raw" using raw len by simp
  ultimately show ?thesis
    using first ascii v rest_v ids by (simp add: extractReferences_def ToLower_def Let_def)
qed

definition demo_reply :: string where
  "demo_reply = ''To: y'' @ crlf @ ''REFERENCES: <a@b>'' @ crlf @ '' <c@d>'' @ crlf"

theorem references_roundtrip_witness:
  "extractReferences demo_externals demo_reply = Some [''<a@b>'', ''<c@d>'']"
proof -
  let ?parts = "[('' '', ''<a@b>''), (crlf @ '' '', ''<c@d>'')]"
  have parts: "list_all (\<lambda>(sep, ref). header_sep sep \<and> message_id_text ref) ?parts"
    by (auto simp: header_sep_def message_id_text_def line_end_def)
  have raw: "demo_reply = (''To: y'' @ crlf) @ ''REFERENCES:'' @ header_value ?parts @ crlf @ []"
    by (simp add: demo_reply_def header_value_def crlf_def)
  have name: "map lower_char ''REFERENCES:'' = ''references:''" by code_simp
  have first: "Index (map lower_char demo_reply) ''references:'' = Some (length (''To: y'' @ crlf))" by code_simp
  have ascii: "list_all is_ascii demo_reply" by code_simp
  have rest: "\<not> continues []" by (simp add: continues_def)
  from references_roundtrip [OF raw name first parts ascii rest] show ?thesis by simp
qed

section \<open>A message that cannot be answered\<close>


fun demo_lower :: "string \<Rightarrow> string" where
  "demo_lower [] = []"
| "demo_lower [c] = [lower_char c]"
| "demo_lower (c # d # s) =
     (if c = CHR 0xC8 \<and> d = CHR 0xBA then [CHR 0xE2, CHR 0xB1, CHR 0xA5] @ demo_lower s
      else lower_char c # demo_lower (d # s))"


section \<open>Escaping\<close>

text \<open>The reference: one pass that replaces each special character by its entity, and the reading back of
  the entities.\<close>

definition entities :: "(char \<times> string) list" where
  "entities = [(CHR ''&'', ''&amp;''), (CHR ''<'', ''&lt;''), (CHR ''>'', ''&gt;''), (CHR 0x22, ''&quot;'')]"

definition entity_of :: "char \<Rightarrow> string" where
  "entity_of c = (case map_of entities c of None \<Rightarrow> [c] | Some e \<Rightarrow> e)"

fun read_entity :: "(char \<times> string) list \<Rightarrow> string \<Rightarrow> (char \<times> string) option" where
  "read_entity [] s = None"
| "read_entity ((c, e) # es) s = (if HasPrefix s e then Some (c, drop (length e) s) else read_entity es s)"

function unescapeHTML :: "string \<Rightarrow> string" where
  "unescapeHTML [] = []"
| "unescapeHTML (c # s) =
     (case read_entity entities (c # s) of
        None \<Rightarrow> c # unescapeHTML s
      | Some (d, t) \<Rightarrow> if length t \<le> length s then d # unescapeHTML t else [])"
  by pat_completeness auto
termination by (relation "measure length") auto

lemma escapeHTML_one_pass: "escapeHTML s = concat (map entity_of s)"
  by (induction s) (auto simp: escapeHTML_def ReplaceAll1_def entity_of_def entities_def)

lemma entity_of_special:
  "c = CHR ''&'' \<or> c = CHR ''<'' \<or> c = CHR ''>'' \<or> c = CHR 0x22 \<or> entity_of c = [c]"
  by (auto simp: entity_of_def entities_def)

lemma entity_of_clean: "d \<in> set (entity_of c) \<Longrightarrow> d \<noteq> CHR ''<'' \<and> d \<noteq> CHR ''>'' \<and> d \<noteq> CHR 0x22"
  by (auto simp: entity_of_def entities_def split: if_splits)

lemma read_entity_of:
  "entity_of c \<noteq> [c] \<Longrightarrow> read_entity entities (entity_of c @ s) = Some (c, s)"
  by (auto simp: entity_of_def entities_def HasPrefix_def split: if_splits)

lemma read_entity_plain: "c \<noteq> CHR ''&'' \<Longrightarrow> read_entity entities (c # s) = None"
  by (simp add: entities_def HasPrefix_def)

lemma unescape_entity: "unescapeHTML (entity_of c @ s) = c # unescapeHTML s"
proof (cases "entity_of c = [c]")
  case True
  then have "c \<noteq> CHR ''&''" by (auto simp: entity_of_def entities_def)
  with True show ?thesis by (simp add: read_entity_plain)
next
  case False
  have "entity_of c \<noteq> []" by (auto simp: entity_of_def entities_def split: option.splits if_splits)
  then obtain a e where e: "entity_of c = a # e" by (cases "entity_of c") auto
  from read_entity_of [OF False, of s] e show ?thesis by simp
qed

text \<open>C40: Escaping, which replaces the four special characters one after the other, amounts to one pass:
  its result has no angle bracket or quotation mark, and reading the entities back gives the text, so
  nothing is escaped twice or lost.\<close>

theorem escape_html_exact:
  "escapeHTML s = concat (map entity_of s)
   \<and> set (escapeHTML s) \<inter> {CHR ''<'', CHR ''>'', CHR 0x22} = {}
   \<and> unescapeHTML (escapeHTML s) = s"
proof (intro conjI)
  show "escapeHTML s = concat (map entity_of s)" by (rule escapeHTML_one_pass)
  show "set (escapeHTML s) \<inter> {CHR ''<'', CHR ''>'', CHR 0x22} = {}"
    using entity_of_clean by (fastforce simp: escapeHTML_one_pass)
  show "unescapeHTML (escapeHTML s) = s"
    by (induction s) (simp_all add: escapeHTML_one_pass unescape_entity)
qed

section \<open>Quoted lines\<close>

lemma quoteLines_lines: "Split1 (quoteLines text) (CHR 0x0A) = map (\<lambda>line. ''> '' @ line) (Split1 text (CHR 0x0A))"
  unfolding quoteLines_def
  by (rule Split1_Join) (auto dest: Split1_no_sep)

end
