(* ===== verification/Api.thy ===== *)
theory Api
  imports Coordinator Composer Smtp MessageText
begin

text \<open>
  What the handlers of \<open>internal/api\<close> share: \<open>response.go\<close>, \<open>middleware.go\<close>, and the
  requests and responses of all handlers as records. A request carries its path and query parameters, its headers and,
  per request type, what the JSON decoder makes of its body; the validator library is an argument
  too. A response body is the Go value that is encoded, not its text.
\<close>

section \<open>Responses\<close>

record accountResponse =
  ar_ID :: uuid
  ar_Name :: string
  ar_ImapHost :: string
  ar_ImapPort :: int
  ar_ImapUser :: string
  ar_SmtpHost :: string
  ar_SmtpPort :: int
  ar_SmtpUser :: string
  ar_CreatedAt :: time

record webhookResponse =
  wr_ID :: uuid
  wr_AccountID :: uuid
  wr_URL :: string
  wr_CreatedAt :: time

record messageListItem =
  mi_ID :: uuid
  mi_UID :: int
  mi_MessageID :: string
  mi_Folder :: string
  mi_Subject :: string
  mi_From :: EmailAddress
  mi_To :: "EmailAddress list"
  mi_Date :: time
  mi_Flags :: "string list"

text \<open>\<open>listMessagesResponse\<close> and \<open>searchResponse\<close>, which have the same fields.\<close>

record listMessagesResponse =
  lm_Messages :: "messageListItem list"
  lm_Total :: int
  lm_Limit :: int
  lm_Offset :: int

record attachmentResponse =
  tr_ID :: uuid
  tr_Filename :: string
  tr_ContentType :: string
  tr_Size :: int
  tr_URL :: string

record messageResponse =
  mr_ID :: uuid
  mr_UID :: int
  mr_MessageID :: string
  mr_Folder :: string
  mr_Subject :: string
  mr_From :: EmailAddress
  mr_To :: "EmailAddress list"
  mr_CC :: "EmailAddress list"
  mr_Date :: time
  mr_Text :: string
  mr_HTML :: string
  mr_Raw :: string
  mr_Attachments :: "attachmentResponse list"
  mr_Flags :: "string list"

record sendMessageResponse =
  sr_MessageID :: string
  sr_Success :: bool

record syncCheck =
  sy_idle :: nat
  sy_polled :: nat
  sy_connected :: nat
  sy_status :: string

record readyResponse =
  rd_database :: string
  rd_s3 :: string
  rd_sync :: "syncCheck option"
  rd_status :: string

datatype body =
  NoBody | ErrorBody string | AccountBody accountResponse | AccountsBody "accountResponse list"
| FoldersBody "Folder list" | WebhookBody webhookResponse | WebhooksBody "webhookResponse list"
| MessagesBody listMessagesResponse | MessageBody messageResponse | SentBody sendMessageResponse
| HealthBody string | ReadyBody readyResponse

record response =
  rs_Status :: int
  rs_Body :: body

definition writeJSON :: "int \<Rightarrow> body \<Rightarrow> response" where
  "writeJSON status data = \<lparr>rs_Status = status, rs_Body = data\<rparr>"

definition writeError :: "int \<Rightarrow> string \<Rightarrow> response" where
  "writeError status message = writeJSON status (ErrorBody message)"

lemma writeJSON_simps [simp]:
  "rs_Status (writeJSON s b) = s" "rs_Body (writeJSON s b) = b"
  "rs_Status (writeError s m) = s" "rs_Body (writeError s m) = ErrorBody m"
  by (simp_all add: writeJSON_def writeError_def)

section \<open>Requests\<close>

record createAccountRequest =
  car_Name :: string
  car_ImapHost :: string
  car_ImapPort :: int
  car_ImapUser :: string
  car_ImapPassword :: string
  car_SmtpHost :: string
  car_SmtpPort :: int
  car_SmtpUser :: string
  car_SmtpPassword :: string

record createWebhookRequest =
  cwr_AccountID :: string
  cwr_URL :: string
  cwr_Secret :: string

record sendAttachmentInput =
  sai_Filename :: string
  sai_ContentType :: string
  sai_Data :: string
  sai_IsInline :: bool
  sai_ContentID :: string

record sendMessageRequest =
  smr_To :: "EmailAddress list"
  smr_CC :: "EmailAddress list option"
  smr_BCC :: "EmailAddress list option"
  smr_Subject :: string
  smr_Text :: string
  smr_HTML :: string
  smr_Attachments :: "sendAttachmentInput list"
  smr_ReplyTo :: "int option"
  smr_Forward :: "int option"
  smr_Folder :: string
  smr_IncludeAttachments :: bool
  smr_QuoteOriginal :: "bool option"

text \<open>The validator's outcome: field, tag and parameter of every failure, or another error.\<close>

datatype validation = Valid | InvalidFields "(string \<times> string \<times> string) list" | ValidatorError

record http_request =
  hr_param :: "string \<Rightarrow> string"
  hr_query :: "string \<Rightarrow> string"
  hr_header :: "string \<Rightarrow> string"
  hr_account :: "createAccountRequest res"
  hr_webhook :: "createWebhookRequest res"
  hr_message :: "sendMessageRequest res"

record api =
  ap_ext :: externals
  ap_key :: string
  ap_APIKey :: string
  ap_ingester :: Ingester
  ap_storage :: S3Storage
  ap_imap :: imap_net
  ap_smtp :: smtp_net
  ap_mailer :: mailer
  ap_fts :: fts
  ap_zone :: "time \<Rightarrow> int"
  ap_parse_RFC3339 :: "string \<Rightarrow> time option"
  ap_validate_account :: "createAccountRequest \<Rightarrow> validation"
  ap_validate_webhook :: "createWebhookRequest \<Rightarrow> validation"
  ap_validate_message :: "sendMessageRequest \<Rightarrow> validation"

type_synonym handler = "http_request \<Rightarrow> world \<Rightarrow> response \<times> world"

section \<open>Validation errors\<close>

definition formatFieldError :: "string \<Rightarrow> string \<Rightarrow> string \<Rightarrow> string" where
  "formatFieldError field tag param =
     (if tag = ''required'' then field @ '' is required''
      else if tag = ''uuid'' then field @ '' must be a valid UUID''
      else if tag = ''url'' then field @ '' must be a valid URL''
      else if tag = ''max'' then field @ '' must be '' @ param @ '' characters or less''
      else if tag = ''min'' then field @ '' must be at least '' @ param @ '' characters''
      else field @ '' is invalid'')"

definition formatValidationError :: "validation \<Rightarrow> (string \<rightharpoonup> string) \<Rightarrow> string" where
  "formatValidationError v fieldNames =
     (case v of
        InvalidFields fes \<Rightarrow>
          Join (map (\<lambda>(f, tag, param).
                 formatFieldError (case fieldNames f of None \<Rightarrow> f | Some [] \<Rightarrow> f | Some n \<Rightarrow> n) tag param) fes) ''; ''
      | _ \<Rightarrow> ''validation failed'')"

definition accountFieldNames :: "string \<rightharpoonup> string" where
  "accountFieldNames = map_of
     [(''Name'', ''name''), (''ImapHost'', ''imap_host''), (''ImapPort'', ''imap_port''), (''ImapUser'', ''imap_user''),
      (''ImapPassword'', ''imap_password''), (''SmtpHost'', ''smtp_host''), (''SmtpPort'', ''smtp_port''),
      (''SmtpUser'', ''smtp_user''), (''SmtpPassword'', ''smtp_password'')]"

definition webhookFieldNames :: "string \<rightharpoonup> string" where
  "webhookFieldNames = map_of [(''AccountID'', ''account_id''), (''URL'', ''url''), (''Secret'', ''secret'')]"

definition sendMessageFieldNames :: "string \<rightharpoonup> string" where
  "sendMessageFieldNames = map_of
     [(''To'', ''to''), (''CC'', ''cc''), (''BCC'', ''bcc''), (''Subject'', ''subject''), (''Text'', ''text''), (''HTML'', ''html''),
      (''Attachments'', ''attachments''), (''Filename'', ''filename''), (''ContentType'', ''content_type''), (''Data'', ''data''),
      (''ReplyTo'', ''reply_to''), (''Forward'', ''forward''), (''Folder'', ''folder'')]"

section \<open>Pagination\<close>

definition defaultLimit :: int where "defaultLimit = 50"
definition maxLimit :: int where "maxLimit = 100"

text \<open>The message of the error is the text that the handlers answer.\<close>

definition parsePaginationParams :: "http_request \<Rightarrow> string + int \<times> int" where
  "parsePaginationParams r =
     (let limitStr = hr_query r ''limit''; offsetStr = hr_query r ''offset'' in
      case (if limitStr = [] then Some defaultLimit
            else case ParseInt limitStr of
                   None \<Rightarrow> None
                 | Some l \<Rightarrow> if l < 1 then None else Some (if l > maxLimit then maxLimit else l)) of
        None \<Rightarrow> Inl ''invalid limit''
      | Some limit \<Rightarrow>
          (case (if offsetStr = [] then Some 0
                 else case ParseInt offsetStr of None \<Rightarrow> None | Some i \<Rightarrow> if i < 0 then None else Some i) of
             None \<Rightarrow> Inl ''invalid offset''
           | Some offset \<Rightarrow> Inr (limit, offset)))"

lemma parsePaginationParams_bounds:
  "parsePaginationParams r = Inr (limit, offset) \<Longrightarrow> 1 \<le> limit \<and> limit \<le> 100 \<and> 0 \<le> offset \<and> offset < 2 ^ 63"
  by (auto simp: parsePaginationParams_def Let_def defaultLimit_def maxLimit_def
      split: if_splits option.splits dest!: ParseInt_range)

section \<open>Answering\<close>

definition answer :: "response \<Rightarrow> world \<Rightarrow> response \<times> world" where
  "answer r w = (r, w)"

text \<open>\<open>if err != nil { writeError; return }\<close>\<close>

definition or_answer ::
  "'a io \<Rightarrow> (goerror \<Rightarrow> response) \<Rightarrow> ('a \<Rightarrow> world \<Rightarrow> response \<times> world) \<Rightarrow> world \<Rightarrow> response \<times> world" where
  "or_answer m bad k w = (case m w of (Inl e, w1) \<Rightarrow> (bad e, w1) | (Inr x, w1) \<Rightarrow> k x w1)"

definition get_account_error :: "goerror \<Rightarrow> response" where
  "get_account_error e =
     (if errors_Is e (RepoErr RepoAccountNotFound) then writeError 404 ''account not found''
      else writeError 500 ''failed to get account'')"

text \<open>\<open>uuid.Parse\<close> of a path or query parameter.\<close>

definition with_uuid ::
  "api \<Rightarrow> string \<Rightarrow> string \<Rightarrow> (uuid \<Rightarrow> world \<Rightarrow> response \<times> world) \<Rightarrow> world \<Rightarrow> response \<times> world" where
  "with_uuid a text message k =
     (case x_uuid_Parse (ap_ext a) text of Inl _ \<Rightarrow> answer (writeError 400 message) | Inr i \<Rightarrow> k i)"

definition with_account ::
  "api \<Rightarrow> uuid \<Rightarrow> (account \<Rightarrow> world \<Rightarrow> response \<times> world) \<Rightarrow> world \<Rightarrow> response \<times> world" where
  "with_account a i k = or_answer (AccountRepository_Get (ap_ext a) (ap_key a) i) get_account_error k"

definition classifyImapError :: "goerror \<Rightarrow> string" where
  "classifyImapError e =
     (if errors_Is e (ImapErr ImapAuthFailed) then ''authentication failed''
      else if errors_Is e (ImapErr ImapTimeout) then ''connection timed out''
      else if errors_Is e (ImapErr ImapTLSFailed) then ''TLS handshake failed''
      else if errors_Is e (ImapErr ImapConnectionFailed) then ''connection failed''
      else if errors_Is e (ImapErr ImapListFoldersFailed) then ''failed to list folders''
      else ''unknown error'')"

definition classifySmtpError :: "goerror \<Rightarrow> string" where
  "classifySmtpError e =
     (if errors_Is e (SmtpErr SmtpAuthFailed) then ''authentication failed''
      else if errors_Is e (SmtpErr SmtpTimeout) then ''connection timed out''
      else if errors_Is e (SmtpErr SmtpTLSFailed) then ''TLS handshake failed''
      else if errors_Is e (SmtpErr SmtpConnectionFailed) then ''connection failed''
      else ''unknown error'')"

section \<open>What a handler keeps\<close>

definition hkeeps :: "(world \<Rightarrow> bool) \<Rightarrow> (world \<Rightarrow> 'a \<times> world) \<Rightarrow> bool" where
  "hkeeps P h \<longleftrightarrow> (\<forall>w. P w \<longrightarrow> P (snd (h w)))"

lemma hkeeps_answer [inv_intros]: "hkeeps P (answer r)"
  by (simp add: hkeeps_def answer_def)

lemma hkeeps_or_answer [inv_intros]:
  "keeps P m \<Longrightarrow> (\<And>x. hkeeps P (k x)) \<Longrightarrow> hkeeps P (or_answer m bad k)"
  unfolding hkeeps_def keeps_def or_answer_def by (force split: prod.splits sum.splits)

lemma hkeeps_if [inv_intros]: "(b \<Longrightarrow> hkeeps P h) \<Longrightarrow> (\<not> b \<Longrightarrow> hkeeps P h') \<Longrightarrow> hkeeps P (if b then h else h')"
  by simp

lemma hkeeps_sum [inv_intros]:
  "(\<And>x. hkeeps P (f x)) \<Longrightarrow> (\<And>y. hkeeps P (g y)) \<Longrightarrow> hkeeps P (case s of Inl x \<Rightarrow> f x | Inr y \<Rightarrow> g y)"
  by (simp split: sum.split)

lemma hkeeps_uuid [inv_intros]: "(\<And>i. hkeeps P (k i)) \<Longrightarrow> hkeeps P (with_uuid a t m k)"
  unfolding with_uuid_def by (intro inv_intros)

lemma hkeeps_if_then [inv_intros]:
  "(b \<Longrightarrow> hkeeps P h) \<Longrightarrow> (\<not> b \<Longrightarrow> hkeeps P h') \<Longrightarrow> hkeeps P (\<lambda>w. if b then h w else h' w)"
  by (simp add: hkeeps_def)

lemma hkeeps_io [inv_intros]:
  assumes m: "keeps P m" and k: "\<And>x. hkeeps P (k x)" and b: "\<And>e. hkeeps P (b e)"
  shows "hkeeps P (\<lambda>w. case m w of (Inr x, w1) \<Rightarrow> k x w1 | (Inl e, w1) \<Rightarrow> b e w1)"
  unfolding hkeeps_def
proof (intro allI impI)
  fix w assume w: "P w"
  obtain r w1 where r: "m w = (r, w1)" by fastforce
  with keepsD_eq [OF m w] have "P w1" by blast
  with k b r show "P (snd (case m w of (Inr x, w1) \<Rightarrow> k x w1 | (Inl e, w1) \<Rightarrow> b e w1))"
    by (cases r) (simp_all add: hkeeps_def)
qed

lemma hkeepsD: "hkeeps P h \<Longrightarrow> P w \<Longrightarrow> P (snd (h w))"
  by (simp add: hkeeps_def)

end
