(* ===== verification/AccountApi.thy ===== *)
theory AccountApi
  imports Api
begin

text \<open>
  \<open>account_handler.go\<close>, \<open>folder_handler.go\<close>, \<open>webhook_handler.go\<close>, \<open>search_handler.go\<close>, \<open>health_handler.go\<close>,
  and \<open>ListMessages\<close> of \<open>message_handler.go\<close>: the handlers around the repositories.
\<close>

section \<open>Accounts\<close>

definition toAccountResponse :: "account \<Rightarrow> accountResponse" where
  "toAccountResponse a =
     \<lparr>ar_ID = acc_ID a, ar_Name = acc_Name a, ar_ImapHost = acc_ImapHost a, ar_ImapPort = acc_ImapPort a,
      ar_ImapUser = acc_ImapUser a, ar_SmtpHost = acc_SmtpHost a, ar_SmtpPort = acc_SmtpPort a,
      ar_SmtpUser = acc_SmtpUser a, ar_CreatedAt = acc_CreatedAt a\<rparr>"

definition create_account_input :: "createAccountRequest \<Rightarrow> CreateAccountInput" where
  "create_account_input req =
     \<lparr>cac_Name = car_Name req, cac_ImapHost = car_ImapHost req, cac_ImapPort = car_ImapPort req,
      cac_ImapUser = car_ImapUser req, cac_ImapPassword = car_ImapPassword req, cac_SmtpHost = car_SmtpHost req,
      cac_SmtpPort = car_SmtpPort req, cac_SmtpUser = car_SmtpUser req, cac_SmtpPassword = car_SmtpPassword req\<rparr>"

text \<open>The check of the SMTP credentials, if a host is given: the error to answer.\<close>

definition smtp_validation :: "api \<Rightarrow> createAccountRequest \<Rightarrow> string option" where
  "smtp_validation a req =
     (if car_SmtpHost req = [] then None
      else if car_SmtpPort req = 0 then Some ''smtp_port is required when smtp_host is provided''
      else case fst (smtp_TestConnection (ap_smtp a) (car_SmtpHost req) (car_SmtpPort req) (car_SmtpUser req)
                       (car_SmtpPassword req) []) of
             Inl e \<Rightarrow> Some (''SMTP validation failed: '' @ classifySmtpError e)
           | Inr _ \<Rightarrow> None)"

definition AccountHandler_Create :: "api \<Rightarrow> handler" where
  "AccountHandler_Create a r =
     (case hr_account r of
        Inl _ \<Rightarrow> answer (writeError 400 ''invalid JSON'')
      | Inr req \<Rightarrow>
          if ap_validate_account a req \<noteq> Valid
          then answer (writeError 400 (formatValidationError (ap_validate_account a req) accountFieldNames))
          else or_answer (imap_io (TestConnection (ap_imap a) (car_ImapHost req) (car_ImapPort req) (car_ImapUser req)
                                     (car_ImapPassword req)))
                 (\<lambda>e. writeError 400 (''IMAP validation failed: '' @ classifyImapError e))
                 (\<lambda>_. case smtp_validation a req of
                        Some m \<Rightarrow> answer (writeError 400 m)
                      | None \<Rightarrow>
                          or_answer (AccountRepository_Create (ap_ext a) (ap_key a) (create_account_input req))
                            (\<lambda>_. writeError 500 ''failed to create account'')
                            (\<lambda>account. answer (writeJSON 201 (AccountBody (toAccountResponse account))))))"

definition AccountHandler_List :: "api \<Rightarrow> handler" where
  "AccountHandler_List a r =
     or_answer (AccountRepository_List (ap_ext a) (ap_key a)) (\<lambda>_. writeError 500 ''failed to list accounts'')
       (\<lambda>accounts. answer (writeJSON 200 (AccountsBody (map toAccountResponse accounts))))"

definition AccountHandler_Get :: "api \<Rightarrow> handler" where
  "AccountHandler_Get a r =
     with_uuid a (hr_param r ''id'') ''invalid account ID'' (\<lambda>i.
       with_account a i (\<lambda>account. answer (writeJSON 200 (AccountBody (toAccountResponse account)))))"

definition AccountHandler_Delete :: "api \<Rightarrow> handler" where
  "AccountHandler_Delete a r =
     with_uuid a (hr_param r ''id'') ''invalid account ID'' (\<lambda>i.
       or_answer (AccountRepository_Delete i)
         (\<lambda>e. if errors_Is e (RepoErr RepoAccountNotFound) then writeError 404 ''account not found''
              else writeError 500 ''failed to delete account'')
         (\<lambda>_. answer (writeJSON 204 NoBody)))"

section \<open>Folders\<close>

definition FolderHandler_List :: "api \<Rightarrow> handler" where
  "FolderHandler_List a r =
     with_uuid a (hr_param r ''id'') ''invalid account ID'' (\<lambda>i.
       with_account a i (\<lambda>account.
         or_answer (imap_io (ListFolders (ap_imap a) (acc_ImapHost account) (acc_ImapPort account)
                               (acc_ImapUser account) (acc_ImapPassword account)))
           (\<lambda>e. writeError 502 (''failed to list folders: '' @ classifyImapError e))
           (\<lambda>folders. answer (writeJSON 200 (FoldersBody folders)))))"

section \<open>Webhooks\<close>

definition toWebhookResponse :: "webhook \<Rightarrow> webhookResponse" where
  "toWebhookResponse w =
     \<lparr>wr_ID = wh_ID w, wr_AccountID = wh_AccountID w, wr_URL = wh_URL w, wr_CreatedAt = wh_CreatedAt w\<rparr>"

definition create_webhook_error :: "goerror \<Rightarrow> response" where
  "create_webhook_error e =
     (if errors_Is e (RepoErr RepoEmptyAccountID) then writeError 400 ''account_id is required''
      else if errors_Is e (RepoErr RepoEmptyURL) then writeError 400 ''url is required''
      else if errors_Is e (RepoErr RepoEmptySecret) then writeError 400 ''secret is required''
      else if pg_code_is e ''23503'' then writeError 400 ''account not found''
      else writeError 500 ''failed to create webhook'')"

definition WebhookHandler_Create :: "api \<Rightarrow> handler" where
  "WebhookHandler_Create a r =
     (case hr_webhook r of
        Inl _ \<Rightarrow> answer (writeError 400 ''invalid JSON'')
      | Inr req \<Rightarrow>
          if ap_validate_webhook a req \<noteq> Valid
          then answer (writeError 400 (formatValidationError (ap_validate_webhook a req) webhookFieldNames))
          else with_uuid a (cwr_AccountID req) ''invalid account_id format'' (\<lambda>accountID.
            or_answer (WebhookRepository_Create (ap_ext a) (ap_key a)
                \<lparr>cwi_AccountID = accountID, cwi_URL = cwr_URL req, cwi_Secret = cwr_Secret req\<rparr>)
              create_webhook_error
              (\<lambda>webhook. answer (writeJSON 201 (WebhookBody (toWebhookResponse webhook))))))"

definition WebhookHandler_List :: "api \<Rightarrow> handler" where
  "WebhookHandler_List a r =
     or_answer (WebhookRepository_List (ap_ext a) (ap_key a)) (\<lambda>_. writeError 500 ''failed to list webhooks'')
       (\<lambda>webhooks. answer (writeJSON 200 (WebhooksBody (map toWebhookResponse webhooks))))"

definition WebhookHandler_Delete :: "api \<Rightarrow> handler" where
  "WebhookHandler_Delete a r =
     with_uuid a (hr_param r ''id'') ''invalid webhook ID'' (\<lambda>i.
       or_answer (WebhookRepository_Delete i)
         (\<lambda>e. if errors_Is e (RepoErr RepoWebhookNotFound) then writeError 404 ''webhook not found''
              else writeError 500 ''failed to delete webhook'')
         (\<lambda>_. answer (writeJSON 204 NoBody)))"

section \<open>Listing and searching messages\<close>

definition toMessageListItem :: "email \<Rightarrow> messageListItem" where
  "toMessageListItem e =
     \<lparr>mi_ID = em_ID e, mi_UID = em_UID e, mi_MessageID = em_MessageID e, mi_Folder = em_Folder e,
      mi_Subject = em_Subject e, mi_From = \<lparr>ea_Name = em_FromName e, ea_Email = em_FromEmail e\<rparr>,
      mi_To = em_To e, mi_Date = em_Date e, mi_Flags = em_Flags e\<rparr>"

definition parse_time_param :: "api \<Rightarrow> string \<Rightarrow> string \<Rightarrow> string + time option" where
  "parse_time_param a name text =
     (if text = [] then Inr None
      else case ap_parse_RFC3339 a text of
             None \<Rightarrow> Inl (''invalid '' @ name @ '' timestamp (use RFC3339)'')
           | Some t \<Rightarrow> Inr (Some t))"

definition parseListParams ::
  "api \<Rightarrow> http_request \<Rightarrow> string + int \<times> int \<times> time option \<times> time option" where
  "parseListParams a r =
     (case parsePaginationParams r of
        Inl m \<Rightarrow> Inl m
      | Inr (limit, offset) \<Rightarrow>
          (case parse_time_param a ''before'' (hr_query r ''before'') of
             Inl m \<Rightarrow> Inl m
           | Inr before \<Rightarrow>
               (case parse_time_param a ''after'' (hr_query r ''after'') of
                  Inl m \<Rightarrow> Inl m
                | Inr after \<Rightarrow> Inr (limit, offset, before, after))))"

definition list_body :: "email list \<Rightarrow> int \<Rightarrow> int \<Rightarrow> int \<Rightarrow> body" where
  "list_body emails count limit offset =
     MessagesBody \<lparr>lm_Messages = map toMessageListItem emails, lm_Total = count, lm_Limit = limit, lm_Offset = offset\<rparr>"

definition ListMessages :: "api \<Rightarrow> handler" where
  "ListMessages a r =
     with_uuid a (hr_param r ''id'') ''invalid account ID'' (\<lambda>i.
       if hr_param r ''name'' = [] then answer (writeError 400 ''folder name is required'')
       else with_account a i (\<lambda>_.
         case parseListParams a r of
           Inl m \<Rightarrow> answer (writeError 400 m)
         | Inr params \<Rightarrow>
             (case params of (limit, offset, before, after) \<Rightarrow>
               or_answer (EmailRepository_List (ap_ext a)
                   \<lparr>lef_AccountID = i, lef_Folder = hr_param r ''name'', lef_Limit = limit, lef_Offset = offset,
                    lef_Before = before, lef_After = after\<rparr>)
                 (\<lambda>_. writeError 500 ''failed to list messages'')
                 (\<lambda>emails. or_answer (CountInFolder i (hr_param r ''name''))
                    (\<lambda>_. writeError 500 ''failed to count messages'')
                    (\<lambda>count. answer (writeJSON 200 (list_body emails count limit offset)))))))"

definition SearchHandler_Search :: "api \<Rightarrow> handler" where
  "SearchHandler_Search a r =
     (let query = TrimSpace (hr_query r ''q''); accountIDStr = hr_query r ''account_id'' in
      if query = [] then answer (writeError 400 ''query parameter 'q' is required'')
      else if accountIDStr = [] then answer (writeError 400 ''query parameter 'account_id' is required'')
      else with_uuid a accountIDStr ''invalid account_id'' (\<lambda>accountID.
        with_account a accountID (\<lambda>_.
          case parsePaginationParams r of
            Inl m \<Rightarrow> answer (writeError 400 m)
          | Inr page \<Rightarrow>
              or_answer (Search (ap_ext a) (ap_fts a)
                  \<lparr>sef_AccountID = accountID, sef_Query = query, sef_Folder = hr_query r ''folder'',
                   sef_Limit = fst page, sef_Offset = snd page\<rparr>)
                (\<lambda>e. if errors_Is e (RepoErr RepoInvalidSearchQuery) then writeError 400 ''invalid search query syntax''
                     else writeError 500 ''search failed'')
                (\<lambda>emails. or_answer (CountSearch (ap_fts a) accountID query (hr_query r ''folder''))
                   (\<lambda>_. writeError 500 ''search failed'')
                   (\<lambda>count. answer (writeJSON 200 (list_body emails count (fst page) (snd page))))))))"

section \<open>Health\<close>

definition Health :: handler where
  "Health r = answer (writeJSON 200 (HealthBody ''ok''))"

text \<open>\<open>db.Ping\<close> is an external call. \<open>sync\<close> is the adapter around the coordinator, or absent.\<close>

definition db_Ping :: "unit io" where "db_Ping = call (\<lambda>w. (Inr (), w))"

definition check_text :: "'a res \<Rightarrow> string" where
  "check_text r = (case r of Inl e \<Rightarrow> msg e | Inr _ \<Rightarrow> ''ok'')"

definition sync_check :: "CoordinatorStats \<Rightarrow> syncCheck \<times> bool" where
  "sync_check stats =
     (let sick = cs_IdleAccounts stats > 0 \<and> cs_ConnectedIdle stats = 0
      in (\<lparr>sy_idle = cs_IdleAccounts stats, sy_polled = cs_PolledAccounts stats, sy_connected = cs_ConnectedIdle stats,
           sy_status =
             (if sick then ''unhealthy: '' @ Itoa (int (cs_IdleAccounts stats)) @ '' IDLE accounts but 0 connected''
              else if cs_IdleAccounts stats + cs_PolledAccounts stats > 0 then ''ok'' else ''ok (no accounts)'')\<rparr>,
          \<not> sick))"

definition Ready :: "api \<Rightarrow> CoordinatorStats option \<Rightarrow> handler" where
  "Ready a stats r w =
     (case db_Ping w of (r1, w1) \<Rightarrow>
        (case s3_Ping (ap_storage a) w1 of (r2, w2) \<Rightarrow>
           (let sync = map_option sync_check stats;
                allHealthy = ((\<exists>x. r1 = Inr x) \<and> (\<exists>x. r2 = Inr x) \<and> (case sync of None \<Rightarrow> True | Some (_, good) \<Rightarrow> good))
            in (writeJSON (if allHealthy then 200 else 503)
                  (ReadyBody \<lparr>rd_database = check_text r1, rd_s3 = check_text r2, rd_sync = map_option fst sync,
                              rd_status = (if allHealthy then ''ok'' else ''unhealthy'')\<rparr>), w2))))"

section \<open>What the handlers keep\<close>

lemma keeps_imap_io [inv_intros]: "keeps (winv I) (imap_io op)"
  unfolding imap_io_def by (intro keeps_winv_call) (simp add: winv_def)

lemma hkeeps_pair [inv_intros]: "(\<And>x y. hkeeps P (f x y)) \<Longrightarrow> hkeeps P (case p of (x, y) \<Rightarrow> f x y)"
  by (simp split: prod.split)

lemma hkeeps_option [inv_intros]:
  "hkeeps P f \<Longrightarrow> (\<And>y. hkeeps P (g y)) \<Longrightarrow> hkeeps P (case s of None \<Rightarrow> f | Some y \<Rightarrow> g y)"
  by (simp split: option.split)

lemma hkeeps_account [inv_intros]: "(\<And>x. hkeeps (winv I) (k x)) \<Longrightarrow> hkeeps (winv I) (with_account a i k)"
  unfolding with_account_def by (intro inv_intros)

lemmas account_handler_defs = AccountHandler_Create_def AccountHandler_List_def AccountHandler_Get_def
  AccountHandler_Delete_def FolderHandler_List_def WebhookHandler_Create_def WebhookHandler_List_def
  WebhookHandler_Delete_def ListMessages_def SearchHandler_Search_def Health_def

lemma hkeeps_reading_handlers [inv_intros]:
  "hkeeps (winv I) (AccountHandler_List a r)" "hkeeps (winv I) (AccountHandler_Get a r)"
  "hkeeps (winv I) (FolderHandler_List a r)" "hkeeps (winv I) (WebhookHandler_List a r)"
  "hkeeps (winv I) (ListMessages a r)" "hkeeps (winv I) (SearchHandler_Search a r)" "hkeeps (winv I) (Health r)"
  unfolding account_handler_defs Let_def by (intro inv_intros)+

lemma hkeeps_Ready [inv_intros]: "hkeeps (winv I) (Ready a stats r)"
proof -
  have "keeps (winv I) db_Ping" unfolding db_Ping_def by (intro keeps_winv_call) simp
  moreover have "keeps (winv I) (s3_Ping s)" for s
    unfolding s3_Ping_def s3_HeadBucket_def by (intro inv_intros keeps_winv_call) simp
  ultimately show ?thesis
    unfolding hkeeps_def Ready_def keeps_def by (auto simp: Let_def split: prod.splits) (metis snd_conv)+
qed

context table_invariant
begin

lemma hkeeps_writing_handlers:
  "hkeeps (winv I) (AccountHandler_Create a r)" "hkeeps (winv I) (AccountHandler_Delete a r)"
  "hkeeps (winv I) (WebhookHandler_Create a r)" "hkeeps (winv I) (WebhookHandler_Delete a r)"
  unfolding account_handler_defs by (intro inv_intros keeps_repository_writes)+

end

end
