(* ===== verification/MessageApi.thy ===== *)
theory MessageApi
  imports AccountApi
begin

text \<open>
  \<open>GetMessage\<close> and \<open>SendMessage\<close> of \<open>message_handler.go\<close>: a message is fetched on demand when it is not
  stored; an outgoing one may answer or forward a stored one, is composed, sent, and stored.
\<close>

section \<open>GetMessage\<close>

definition presignedURLExpiry :: int where "presignedURLExpiry = 1 * hour"

fun presign_attachments :: "S3Storage \<Rightarrow> attachment list \<Rightarrow> world \<Rightarrow> attachmentResponse list \<times> world" where
  "presign_attachments s [] w = ([], w)"
| "presign_attachments s (att # atts) w =
     (case GeneratePresignedURL s (att_S3Key att) presignedURLExpiry w of (r, w1) \<Rightarrow>
        (case presign_attachments s atts w1 of (rs, w2) \<Rightarrow>
           (\<lparr>tr_ID = att_ID att, tr_Filename = att_Filename att, tr_ContentType = att_ContentType att,
             tr_Size = att_Size att, tr_URL = (case r of Inl _ \<Rightarrow> [] | Inr url \<Rightarrow> url)\<rparr> # rs, w2)))"

definition message_response :: "email \<Rightarrow> attachmentResponse list \<Rightarrow> messageResponse" where
  "message_response e atts =
     \<lparr>mr_ID = em_ID e, mr_UID = em_UID e, mr_MessageID = em_MessageID e, mr_Folder = em_Folder e,
      mr_Subject = em_Subject e, mr_From = \<lparr>ea_Name = em_FromName e, ea_Email = em_FromEmail e\<rparr>,
      mr_To = em_To e, mr_CC = em_CC e, mr_Date = em_Date e, mr_Text = em_ParsedText e, mr_HTML = em_ParsedHTML e,
      mr_Raw = em_Raw e, mr_Attachments = atts, mr_Flags = em_Flags e\<rparr>"

definition answer_message :: "api \<Rightarrow> email \<Rightarrow> attachment list \<Rightarrow> world \<Rightarrow> response \<times> world" where
  "answer_message a e attachments w =
     (case presign_attachments (ap_storage a) attachments w of (atts, w1) \<Rightarrow>
        (writeJSON 200 (MessageBody (message_response e atts)), w1))"

text \<open>Loading the attachments of an email that came without them.\<close>

definition load_and_answer :: "api \<Rightarrow> email \<Rightarrow> world \<Rightarrow> response \<times> world" where
  "load_and_answer a e =
     (case em_Attachments e of
        Some attachments \<Rightarrow> answer_message a e attachments
      | None \<Rightarrow>
          or_answer (GetByEmailID (em_ID e)) (\<lambda>_. writeError 500 ''failed to get attachments'')
            (\<lambda>attachments. answer_message a e attachments))"

text \<open>The fetch on demand narrows the UID to 32 bits.\<close>

definition fetch_on_demand :: "api \<Rightarrow> uuid \<Rightarrow> string \<Rightarrow> int \<Rightarrow> world \<Rightarrow> response \<times> world" where
  "fetch_on_demand a accountID folder uid w =
     (case IngestEmail (ap_ingester a) accountID folder (of_int uid) w of
        (Inr e, w1) \<Rightarrow> load_and_answer a e w1
      | (Inl err, w1) \<Rightarrow>
          (if errors_Is err (IngestErr IngestAccountNotFound) then answer (writeError 404 ''account not found'')
           else if errors_Is err (IngestErr IngestEmailAlreadyExists)
             then or_answer (EmailRepository_GetByUID accountID folder uid)
                    (\<lambda>_. writeError 500 ''failed to get message'') (load_and_answer a)
           else if errors_Is err (ImapErr ImapMessageNotFound) \<or> errors_Is err (ImapErr ImapFolderNotFound)
             then answer (writeError 404 ''message not found'')
           else answer (writeError 502 ''failed to fetch message from IMAP'')) w1)"

definition GetMessage :: "api \<Rightarrow> handler" where
  "GetMessage a r =
     with_uuid a (hr_param r ''id'') ''invalid account ID'' (\<lambda>accountID.
       case ParseInt (hr_param r ''uid'') of
         None \<Rightarrow> answer (writeError 400 ''invalid message UID'')
       | Some uid \<Rightarrow>
           if uid < 1 then answer (writeError 400 ''invalid message UID'')
           else
             (let folder = (if hr_query r ''folder'' = [] then ''INBOX'' else hr_query r ''folder'')
              in with_account a accountID (\<lambda>_ w.
                case EmailRepository_GetByUID accountID folder uid w of
                  (Inr e, w1) \<Rightarrow> load_and_answer a e w1
                | (Inl err, w1) \<Rightarrow>
                    if errors_Is err (RepoErr RepoEmailNotFound) then fetch_on_demand a accountID folder uid w1
                    else answer (writeError 500 ''failed to get message'') w1)))"

section \<open>The original of a reply or a forward\<close>

definition getOriginalEmail :: "api \<Rightarrow> uuid \<Rightarrow> string \<Rightarrow> int \<Rightarrow> email io" where
  "getOriginalEmail a accountID folder uid w =
     (case EmailRepository_GetByUID accountID folder uid w of
        (Inr e, w1) \<Rightarrow>
          (if em_Attachments e = None
           then case GetByEmailID (em_ID e) w1 of
                  (Inl _, w2) \<Rightarrow> (Inr e, w2)
                | (Inr attachments, w2) \<Rightarrow> (Inr (e\<lparr>em_Attachments := Some attachments\<rparr>), w2)
           else (Inr e, w1))
      | (Inl err, w1) \<Rightarrow>
          (if \<not> errors_Is err (RepoErr RepoEmailNotFound) then (Inl err, w1)
           else case IngestEmail (ap_ingester a) accountID folder (of_int uid) w1 of
                  (Inl err, w2) \<Rightarrow>
                    (if errors_Is err (IngestErr IngestEmailAlreadyExists)
                     then EmailRepository_GetByUID accountID folder uid w2 else (Inl err, w2))
                | (Inr e, w2) \<Rightarrow> (Inr e, w2)))"

text \<open>The downloaded attachments and the names of those that failed.\<close>

fun download_attachments ::
  "S3Storage \<Rightarrow> attachment list \<Rightarrow> world \<Rightarrow> (composer_Attachment list \<times> string list) \<times> world" where
  "download_attachments s [] w = (([], []), w)"
| "download_attachments s (att # atts) w =
     (case Download s (att_S3Key att) w of (r, w1) \<Rightarrow>
        (case download_attachments s atts w1 of ((got, failed), w2) \<Rightarrow>
           ((case r of
               Inl _ \<Rightarrow> (got, att_Filename att # failed)
             | Inr data \<Rightarrow>
                 (\<lparr>ca_Filename = att_Filename att, ca_ContentType = att_ContentType att, ca_Data = data,
                   ca_IsInline = False, ca_ContentID = []\<rparr> # got, failed)), w2)))"

definition fetchOriginalAttachments :: "api \<Rightarrow> attachment list \<Rightarrow> composer_Attachment list io" where
  "fetchOriginalAttachments a atts w =
     (case download_attachments (ap_storage a) atts w of ((got, failed), w1) \<Rightarrow>
        (if failed = [] then Inr got
         else Inl (errors_New Other (''failed to download '' @ Itoa (int (length failed)) @ '' attachment(s): ''
                     @ Join failed '', '')), w1))"

record replyForwardContext =
  rfc_InReplyTo :: string
  rfc_References :: "string list"
  rfc_Subject :: string
  rfc_QuotedText :: string
  rfc_QuotedHTML :: string

text \<open>\<open>None\<close> is the panic of \<open>extractReferences\<close>.\<close>

definition reply_context :: "api \<Rightarrow> email \<Rightarrow> bool \<Rightarrow> replyForwardContext option" where
  "reply_context a original quoteOriginal =
     (case (if em_MessageID original \<noteq> []
            then map_option (\<lambda>refs. refs @ [em_MessageID original]) (extractReferences (ap_ext a) (em_Raw original))
            else Some []) of
        None \<Rightarrow> None
      | Some references \<Rightarrow>
          Some \<lparr>rfc_InReplyTo = em_MessageID original, rfc_References = references,
                rfc_Subject = buildReplySubject (ap_ext a) (em_Subject original),
                rfc_QuotedText = (if quoteOriginal
                  then quoteTextBody (ap_zone a) (em_ParsedText original) (em_FromName original) (em_FromEmail original) (em_Date original)
                  else []),
                rfc_QuotedHTML = (if quoteOriginal
                  then quoteHTMLBody (ap_zone a) (em_ParsedHTML original) (em_FromName original) (em_FromEmail original) (em_Date original)
                  else [])\<rparr>)"

definition buildReplyContext ::
  "api \<Rightarrow> uuid \<Rightarrow> string \<Rightarrow> int \<Rightarrow> bool \<Rightarrow> world \<Rightarrow> replyForwardContext res option \<times> world" where
  "buildReplyContext a accountID folder uid quoteOriginal w =
     (case getOriginalEmail a accountID folder uid w of
        (Inl err, w1) \<Rightarrow> (Some (Inl err), w1)
      | (Inr original, w1) \<Rightarrow> (map_option Inr (reply_context a original quoteOriginal), w1))"

definition forward_context :: "api \<Rightarrow> email \<Rightarrow> bool \<Rightarrow> replyForwardContext" where
  "forward_context a original quoteOriginal =
     \<lparr>rfc_InReplyTo = [], rfc_References = [], rfc_Subject = buildForwardSubject (ap_ext a) (em_Subject original),
      rfc_QuotedText = (if quoteOriginal then quoteForwardTextBody (ap_zone a) original else []),
      rfc_QuotedHTML = (if quoteOriginal then quoteForwardHTMLBody (ap_zone a) original else [])\<rparr>"

definition buildForwardContext ::
  "api \<Rightarrow> uuid \<Rightarrow> string \<Rightarrow> int \<Rightarrow> bool \<Rightarrow> bool \<Rightarrow> (replyForwardContext \<times> composer_Attachment list) io" where
  "buildForwardContext a accountID folder uid quoteOriginal includeAttachments w =
     (case getOriginalEmail a accountID folder uid w of
        (Inl err, w1) \<Rightarrow> (Inl err, w1)
      | (Inr original, w1) \<Rightarrow>
          (let atts = (case em_Attachments original of None \<Rightarrow> [] | Some as \<Rightarrow> as) in
           if includeAttachments \<and> atts \<noteq> []
           then case fetchOriginalAttachments a atts w1 of
                  (Inl err, w2) \<Rightarrow> (Inl (Errorf_w ''fetching original attachments'' err), w2)
                | (Inr got, w2) \<Rightarrow> (Inr (forward_context a original quoteOriginal, got), w2)
           else (Inr (forward_context a original quoteOriginal, []), w1)))"

section \<open>SendMessage\<close>

fun parseAttachments :: "sendAttachmentInput list \<Rightarrow> string + composer_Attachment list" where
  "parseAttachments [] = Inr []"
| "parseAttachments (i # is) =
     (case base64_Decode (sai_Data i) of
        None \<Rightarrow> Inl (''invalid base64 data for attachment: '' @ sai_Filename i)
      | Some data \<Rightarrow>
          (case parseAttachments is of
             Inl m \<Rightarrow> Inl m
           | Inr as \<Rightarrow> Inr (\<lparr>ca_Filename = sai_Filename i, ca_ContentType = sai_ContentType i, ca_Data = data,
                             ca_IsInline = sai_IsInline i, ca_ContentID = sai_ContentID i\<rparr> # as)))"

text \<open>A stage of the handler panics, answers, or goes on.\<close>

datatype 'a stage = Panicked | Answered response | Continue 'a

definition is_original_missing :: "goerror \<Rightarrow> bool" where
  "is_original_missing e \<longleftrightarrow> errors_Is e (RepoErr RepoEmailNotFound) \<or> errors_Is e (ImapErr ImapMessageNotFound)"

text \<open>The context of a reply or a forward, with the forwarded attachments.\<close>

definition message_context ::
  "api \<Rightarrow> uuid \<Rightarrow> sendMessageRequest \<Rightarrow> world \<Rightarrow> (replyForwardContext option \<times> composer_Attachment list) stage \<times> world" where
  "message_context a accountID req w =
     (let folder = (if smr_Folder req = [] then ''INBOX'' else smr_Folder req);
          quoteOriginal = (case smr_QuoteOriginal req of None \<Rightarrow> True | Some q \<Rightarrow> q)
      in case smr_ReplyTo req of
           Some uid \<Rightarrow>
             (case buildReplyContext a accountID folder uid quoteOriginal w of
                (None, w1) \<Rightarrow> (Panicked, w1)
              | (Some (Inl err), w1) \<Rightarrow>
                  (Answered (if is_original_missing err then writeError 404 ''original message not found''
                             else writeError 500 ''failed to fetch original message''), w1)
              | (Some (Inr rfc), w1) \<Rightarrow> (Continue (Some rfc, []), w1))
         | None \<Rightarrow>
             (case smr_Forward req of
                None \<Rightarrow> (Continue (None, []), w)
              | Some uid \<Rightarrow>
                  (case buildForwardContext a accountID folder uid quoteOriginal (smr_IncludeAttachments req) w of
                     (Inl err, w1) \<Rightarrow>
                       (Answered (if is_original_missing err then writeError 404 ''original message not found''
                                  else if Contains (msg err) ''attachment''
                                    then writeError 502 (''failed to fetch original attachments: '' @ msg err)
                                  else writeError 500 ''failed to fetch original message''), w1)
                   | (Inr (rfc, atts), w1) \<Rightarrow> (Continue (Some rfc, atts), w1))))"

definition compose_email ::
  "account \<Rightarrow> sendMessageRequest \<Rightarrow> replyForwardContext option \<Rightarrow> composer_Attachment list \<Rightarrow> ComposeEmail" where
  "compose_email account req rfCtx attachments =
     (let base = \<lparr>ce_From = \<lparr>ea_Name = acc_Name account, ea_Email = acc_ImapUser account\<rparr>,
                  ce_To = smr_To req,
                  ce_CC = (case smr_CC req of None \<Rightarrow> [] | Some as \<Rightarrow> as),
                  ce_BCC = (case smr_BCC req of None \<Rightarrow> [] | Some as \<Rightarrow> as),
                  ce_Subject = smr_Subject req, ce_Text = smr_Text req, ce_HTML = smr_HTML req,
                  ce_Attachments = attachments, ce_InReplyTo = [], ce_References = []\<rparr>
      in case rfCtx of
           None \<Rightarrow> base
         | Some rfc \<Rightarrow>
             base\<lparr>ce_Subject := (if (smr_ReplyTo req \<noteq> None \<or> smr_Forward req \<noteq> None) \<and> smr_Subject req = []
                                 then rfc_Subject rfc else smr_Subject req),
                  ce_InReplyTo := rfc_InReplyTo rfc, ce_References := rfc_References rfc,
                  ce_Text := smr_Text req @ rfc_QuotedText rfc, ce_HTML := smr_HTML req @ rfc_QuotedHTML rfc\<rparr>)"

definition smtp_config :: "account \<Rightarrow> smtp_Config" where
  "smtp_config account =
     (let cfg = \<lparr>sc_Host = acc_SmtpHost account, sc_Port = acc_SmtpPort account, sc_Username = acc_SmtpUser account,
                 sc_Password = acc_SmtpPassword account\<rparr>
      in if sc_Username cfg = []
         then cfg\<lparr>sc_Username := acc_ImapUser account, sc_Password := acc_ImapPassword account\<rparr> else cfg)"

definition sent_email_input :: "account \<Rightarrow> string \<Rightarrow> sendMessageRequest \<Rightarrow> time \<Rightarrow> CreateEmailInput" where
  "sent_email_input account raw req now =
     \<lparr>cei_AccountID = acc_ID account, cei_UID = 0, cei_MessageID = extractMessageID raw, cei_Folder = ''Sent'',
      cei_Subject = smr_Subject req, cei_FromEmail = acc_ImapUser account, cei_FromName = acc_Name account,
      cei_To = Some (smr_To req), cei_CC = smr_CC req, cei_Date = now, cei_ParsedText = smr_Text req,
      cei_ParsedHTML = smr_HTML req, cei_Raw = raw, cei_Flags = Some [CHR 0x5C # ''Seen'']\<rparr>"

definition storeSentEmail :: "account \<Rightarrow> string \<Rightarrow> sendMessageRequest \<Rightarrow> email io" where
  "storeSentEmail account raw req w = EmailRepository_Create (sent_email_input account raw req (clock w)) w"

text \<open>From the composed message on: build, send, store, answer. The transcript of the SMTP conversation is
  returned with the response.\<close>

definition deliver_message ::
  "api \<Rightarrow> account \<Rightarrow> sendMessageRequest \<Rightarrow> ComposeEmail \<Rightarrow> world \<Rightarrow> (response \<times> transcript) \<times> world" where
  "deliver_message a account req email w =
     (case compose_Build (ap_ext a) (ap_mailer a) email w of
        (Inl err, w1) \<Rightarrow> ((writeError 400 (''failed to build email: '' @ msg err), []), w1)
      | (Inr raw, w1) \<Rightarrow>
          (case SendEmail (ap_smtp a) (smtp_config account) (acc_ImapUser account) (AllRecipients email) raw [] of
             (Inl err, t) \<Rightarrow> ((writeError 502 (''failed to send email: '' @ classifySmtpError err), t), w1)
           | (Inr _, t) \<Rightarrow>
               (case storeSentEmail account raw req w1 of (_, w2) \<Rightarrow>
                  ((writeJSON 200 (SentBody \<lparr>sr_MessageID = extractMessageID raw, sr_Success = True\<rparr>), t), w2))))"

text \<open>The checks of the request before anything is read; \<open>None\<close> of the response is a panic, which
  \<open>middleware.Recoverer\<close> turns into status 500.\<close>

definition request_error :: "api \<Rightarrow> sendMessageRequest \<Rightarrow> string option" where
  "request_error a req =
     (if ap_validate_message a req \<noteq> Valid
        then Some (formatValidationError (ap_validate_message a req) sendMessageFieldNames)
      else if smr_ReplyTo req \<noteq> None \<and> smr_Forward req \<noteq> None
        then Some ''cannot specify both reply_to and forward''
      else if smr_Text req = [] \<and> smr_HTML req = [] then Some ''at least text or html body is required''
      else None)"

definition send_for_account ::
  "api \<Rightarrow> uuid \<Rightarrow> sendMessageRequest \<Rightarrow> account \<Rightarrow> world \<Rightarrow> (response option \<times> transcript) \<times> world" where
  "send_for_account a accountID req account w =
     (if acc_SmtpHost account = [] then ((Some (writeError 400 ''SMTP not configured for this account''), []), w)
      else case parseAttachments (smr_Attachments req) of
        Inl m \<Rightarrow> ((Some (writeError 400 m), []), w)
      | Inr attachments \<Rightarrow>
          (case message_context a accountID req w of
             (Panicked, w1) \<Rightarrow> ((None, []), w1)
           | (Answered r, w1) \<Rightarrow> ((Some r, []), w1)
           | (Continue (rfCtx, original), w1) \<Rightarrow>
               (case deliver_message a account req (compose_email account req rfCtx (original @ attachments)) w1 of
                  ((r, t), w2) \<Rightarrow> ((Some r, t), w2))))"

definition SendMessage ::
  "api \<Rightarrow> http_request \<Rightarrow> world \<Rightarrow> (response option \<times> transcript) \<times> world" where
  "SendMessage a r w =
     (case x_uuid_Parse (ap_ext a) (hr_param r ''id'') of
        Inl _ \<Rightarrow> ((Some (writeError 400 ''invalid account ID''), []), w)
      | Inr accountID \<Rightarrow>
          (case hr_message r of
             Inl _ \<Rightarrow> ((Some (writeError 400 ''invalid JSON''), []), w)
           | Inr req \<Rightarrow>
               (case request_error a req of
                  Some m \<Rightarrow> ((Some (writeError 400 m), []), w)
                | None \<Rightarrow>
                    (case AccountRepository_Get (ap_ext a) (ap_key a) accountID w of
                       (Inl e, w1) \<Rightarrow> ((Some (get_account_error e), []), w1)
                     | (Inr account, w1) \<Rightarrow> send_for_account a accountID req account w1))))"

end
