(* ===== verification/SyncRuns.thy ===== *)
theory SyncRuns
  imports Coordinator
begin

text \<open>
  Concrete runs of the synchroniser, and what \<open>AddAccount\<close> registers.
\<close>

section \<open>Registration\<close>

lemma AddAccount_accounts:
  "IdlePool_AddAccount config p = (Inr (), p') \<Longrightarrow>
     ip_accounts p' = ip_accounts p @ [(icf_AccountID config, length (ip_entries p))]"
  "Poller_AddAccount config q = (Inr (), q') \<Longrightarrow>
     pl_accounts q' = pl_accounts q @ [(icf_AccountID config, length (pl_entries q))]"
  by (auto simp: IdlePool_AddAccount_def Poller_AddAccount_def split: if_splits sum.splits)


section \<open>The concrete coordinator\<close>

definition demo_coordinator :: "Ingester \<Rightarrow> u32 list \<Rightarrow> Coordinator" where
  "demo_coordinator i uids = NewCoordinator demo_externals demo_key (demo_net uids) i
     \<lparr>cc_PollInterval = 0, cc_EventHandler = Some (producer_EventHandler demo_producer)\<rparr>"

lemma demo_coordinator_simps [simp]:
  "co_ext (demo_coordinator i uids) = demo_externals" "co_key (demo_coordinator i uids) = demo_key"
  "co_net (demo_coordinator i uids) = demo_net uids" "co_ingester (demo_coordinator i uids) = i"
  "co_eventHandler (demo_coordinator i uids) = Some (producer_EventHandler demo_producer)"
  "last_uid (demo_coordinator i uids) key = 0" "co_closed (demo_coordinator i uids) = False"
  "co_pool (demo_coordinator i uids) = NewIdlePool" "co_poller (demo_coordinator i uids) = NewPoller sync_DefaultPollInterval"
  by (simp_all add: demo_coordinator_def NewCoordinator_def last_uid_def Let_def)

lemma last_uid_upd [simp]: "last_uid (c\<lparr>co_lastUIDs := m(key \<mapsto> v)\<rparr>) key = v"
  by (simp add: last_uid_def)

definition demo_event :: IdleEvent where
  "demo_event = \<lparr>ie_Type = EventNewMessage, ie_AccountID = ''1'', ie_Folder = ''INBOX'',
     ie_NumMessages = Some 1, ie_SeqNum = 0\<rparr>"

lemma demo_event_simps [simp]:
  "ie_Type demo_event = EventNewMessage" "ie_AccountID demo_event = ''1''" "ie_Folder demo_event = ''INBOX''"
  by (simp_all add: demo_event_def)

lemma demo_parse: "x_uuid_Parse demo_externals ''1'' = Inr 1"
  by code_simp

lemma demo_get_account:
  "tAccounts d = [demo_account] \<Longrightarrow>
     \<exists>a. AccountRepository_Get demo_externals demo_key 1 (demo_world d) = (Inr a, demo_world d)"
proof -
  assume d: "tAccounts d = [demo_account]"
  obtain a where a: "toAccount demo_externals demo_key demo_account = Inr a" using demo_toAccount by blast
  show ?thesis
    using d a by (simp add: AccountRepository_Get_def check_def GetAccount_def exec_healthy sql_get_account_def
        one_row_def demo_world_def)
qed

lemma demo_fetch:
  "uids \<noteq> [] \<Longrightarrow> imap_io (FetchUIDsAfter (demo_net uids) h p u pw f 0) (demo_world d) = (Inr uids, demo_world d)"
  using imap_with_session_logged_in [OF demo_logs_in, of uids h p u pw "search_after f 0"]
  by (simp add: imap_io_def call_healthy FetchUIDsAfter_def search_after_def imap_select_def demo_session_def demo_search_def)

theorem event_stores_new_witness:
  "\<exists>c' w'. handleEvent [] demo_event (demo_coordinator demo_ingester [7]) (demo_world demo_db) = (c', w')
     \<and> (1, ''INBOX'', 7) \<in> stored_keys w' \<and> last_uid c' (uid_key demo_event) = 7"
proof -
  let ?c = "demo_coordinator demo_ingester [7]" and ?w = "demo_world demo_db"
  obtain a where get: "AccountRepository_Get demo_externals demo_key 1 ?w = (Inr a, ?w)"
    using demo_get_account [of demo_db] by (auto simp: demo_db_def)
  obtain e w1 where ing: "IngestEmail demo_ingester 1 ''INBOX'' 7 ?w = (Inr e, w1)" using demo_ingest by blast
  obtain c' w' where run: "handleEvent [] demo_event ?c ?w = (c', w')" by fastforce
  have n: "no_races ?w" by (simp add: no_races_def)
  have h: "\<forall>h email w. co_eventHandler ?c = Some h \<longrightarrow> grows w (h email w)"
    by (simp add: handler_grows)
  have p: "x_uuid_Parse (co_ext ?c) (ie_AccountID demo_event) = Inr 1"
    using demo_parse by (simp del: One_nat_def)
  have g: "AccountRepository_Get (co_ext ?c) (co_key ?c) 1 ?w = (Inr a, ?w)" using get by (simp del: One_nat_def)
  have fetch: "imap_io (FetchUIDsAfter (co_net ?c) (acc_ImapHost a) (acc_ImapPort a) (acc_ImapUser a)
      (acc_ImapPassword a) (ie_Folder demo_event) (last_uid ?c (uid_key demo_event))) ?w = (Inr [7], ?w)"
    by (simp add: demo_fetch)
  have results: "ingest_results demo_ingester h 1 ''INBOX'' [7] ?w = [Inr e]" for h
    using ing by (simp del: One_nat_def)
  from event_stores_new [OF n h demo_event_simps(1) p g fetch run]
  have stored: "(1, ''INBOX'', 7) \<in> stored_keys w'" and "last_uid c' (uid_key demo_event) = 7"
    by (simp_all add: results advances_def del: One_nat_def ingest_results.simps)
  with run show ?thesis by blast
qed

definition failing_ingester :: Ingester where
  "failing_ingester = demo_ingester\<lparr>ing_mailbox :=
     (\<lambda>_ _ _ _ _ _. Inl (errors_New (ImapErr ImapFetchFailed) ''failed to fetch message''))\<rparr>"

lemma failing_ingest:
  fixes u :: u32
  assumes "uint u \<in> {9, 10}"
  shows "\<exists>e. IngestEmail failing_ingester 1 ''INBOX'' u (demo_world demo_mails) = (Inl e, demo_world demo_mails)
    \<and> (errors_Is e (IngestErr IngestEmailAlreadyExists) \<longleftrightarrow> uint u = 10)"
proof -
  obtain a where get: "AccountRepository_Get demo_externals demo_key 1 (demo_world demo_mails) = (Inr a, demo_world demo_mails)"
    using demo_get_account [of demo_mails] by (auto simp: demo_mails_def demo_db_def)
  have ex: "ExistsByUID 1 ''INBOX'' (uint u) (demo_world demo_mails) = (Inr (uint u = 10), demo_world demo_mails)"
    using assms by (auto simp: ExistsByUID_def check_def EmailExistsByUID_def exec_healthy demo_world_def demo_mails_def
        sql_email_exists_by_uid_def text_params_def demo_text_ok demo_row_def email_key_def)
  show ?thesis
    using get ex assms by (auto simp: IngestEmail_def ingest_prepare_def check_def failing_ingester_def demo_ingester_def
        FetchRaw_def call_healthy ingest_ErrEmailAlreadyExists_def simp del: One_nat_def)
qed


section \<open>Witnesses of registration and removal\<close>

lemma demo_account_fields:
  "\<exists>a. toAccount demo_externals demo_key demo_account = Inr a \<and> acc_ImapHost a = ''imap.example.com''
     \<and> acc_ImapPort a = 993 \<and> acc_ImapUser a = ''me'' \<and> acc_ImapPassword a = ''pw''"
proof -
  have "dbA_SmtpPassword demo_account = None" "dbA_ImapHost demo_account = ''imap.example.com''"
    "dbA_ImapPort demo_account = 993" "dbA_ImapUser demo_account = ''me''" by (simp_all add: demo_account_def)
  then show ?thesis
    using demo_Decrypt [of "replicate 12 (CHR ''n'')" "''pw''"]
    by (simp add: toAccount_def demo_account_password)
qed


definition demo_watching :: Coordinator where
  "demo_watching = (demo_coordinator demo_ingester [])
     \<lparr>co_pool := NewIdlePool\<lparr>ip_accounts := [(''1'', 0)],
        ip_entries := [new_accountEntry \<lparr>icf_AccountID = ''1'', icf_Host = ''h'', icf_Port = 993, icf_Username = ''u'',
           icf_Password = ''p'', icf_Folder = ''INBOX''\<rparr>]\<rparr>,
      co_lastUIDs := [''1:INBOX'' \<mapsto> 5, ''2:INBOX'' \<mapsto> 6]\<rparr>"

lemma remove_account_exact_witness:
  "\<exists>c'. coordinator_RemoveAccount 1 demo_watching = (Inr (), c')
     \<and> co_lastUIDs c' ''1:INBOX'' = None \<and> co_lastUIDs c' ''2:INBOX'' = Some 6 \<and> ip_accounts (co_pool c') = []"
proof -
  have digits: "x_uuid_String demo_externals 1 = ''1''" "x_uuid_String demo_externals 2 = ''2''" by code_simp+
  have colon: "CHR '':'' \<notin> set (x_uuid_String demo_externals i)" for i
    unfolding demo_externals_def by (simp, rule nondigit_notin_nat_digits) (simp add: digit_val_def)
  have c: "co_ext demo_watching = demo_externals" "\<not> co_closed demo_watching" "\<not> ip_closed (co_pool demo_watching)"
    "\<not> pl_closed (co_poller demo_watching)" "ip_accounts (co_pool demo_watching) = [(''1'', 0)]"
    "co_lastUIDs demo_watching = [''1:INBOX'' \<mapsto> 5, ''2:INBOX'' \<mapsto> 6]"
    by (simp_all add: demo_watching_def demo_coordinator_def NewCoordinator_def NewIdlePool_def NewPoller_def Let_def)
  obtain r c' where run: "coordinator_RemoveAccount 1 demo_watching = (r, c')" by fastforce
  note exact = remove_account_exact [OF _ _ c(2,3,4) run, unfolded c(1), OF demo_uuid colon]
  have "co_lastUIDs c' (x_uuid_String demo_externals 1 @ '':'' @ ''INBOX'') = None" using exact by blast
  moreover have "co_lastUIDs c' (x_uuid_String demo_externals 2 @ '':'' @ ''INBOX'')
      = co_lastUIDs demo_watching (x_uuid_String demo_externals 2 @ '':'' @ ''INBOX'')"
    using exact by simp
  moreover have "r = Inr ()" "ip_accounts (co_pool c') = []" using exact by (simp_all add: digits c(5) del: One_nat_def)
  ultimately show ?thesis using run by (simp add: digits c(6) del: One_nat_def)
qed

end
