(* ===== verification/MessageRuns.thy ===== *)
theory MessageRuns
  imports MessageApi SyncRuns
begin

text \<open>
  What the two larger handlers promise: a fetched message is the one that was asked for, an answer of
  200 to a send means that the SMTP server has the message, and how its local copy is kept.
\<close>

section \<open>The message that is returned\<close>

lemma toEmail_key:
  "toEmail row = Inr e \<Longrightarrow> (em_AccountID e, em_Folder e, em_UID e) = email_key row \<and> em_Attachments e = None"
  by (auto simp: toEmail_def email_key_def split: sum.splits)

lemma exec_Inr:
  assumes "exec q w = (Inr r, w')"
  shows "\<exists>now d d'. q now d = (Inr r, d')"
proof -
  obtain w0 where "(let (r, d) = q (pg_micros (clock w0)) (db w0) in (r, w0\<lparr>db := d\<rparr>)) = (Inr r, w')"
    using call_Inr [OF assms [unfolded exec_def]] by blast
  then have "q (pg_micros (clock w0)) (db w0) = (Inr r, snd (q (pg_micros (clock w0)) (db w0)))"
    by (cases "q (pg_micros (clock w0)) (db w0)") simp
  then show ?thesis by blast
qed

lemma GetByUID_key:
  assumes "EmailRepository_GetByUID acc folder uid w = (Inr e, w')"
  shows "em_AccountID e = acc \<and> em_Folder e = folder \<and> em_UID e = uid"
proof -
  obtain row w1 where row: "GetEmailByUID acc folder uid w = (Inr row, w1)" and e: "toEmail row = Inr e"
    using assms by (auto simp: EmailRepository_GetByUID_def check_def ret_def split: prod.splits sum.splits)
  from exec_Inr [OF row [unfolded GetEmailByUID_def]] obtain now d d' where
    "sql_get_email_by_uid acc folder uid now d = (Inr row, d')" by blast
  then have "one_row (filter (\<lambda>r. email_key r = (acc, folder, uid)) (tEmails d)) = Inr row"
    by (auto simp: sql_get_email_by_uid_def text_params_def split: if_splits)
  then obtain rows where "filter (\<lambda>r. email_key r = (acc, folder, uid)) (tEmails d) = row # rows"
    by (auto simp: one_row_def split: list.splits)
  then have "row \<in> set (filter (\<lambda>r. email_key r = (acc, folder, uid)) (tEmails d))" by simp
  with toEmail_key [OF e] show ?thesis by auto
qed

lemma Create_key:
  assumes "EmailRepository_Create i w = (Inr e, w')"
  shows "em_AccountID e = cei_AccountID i \<and> em_Folder e = cei_Folder i \<and> em_UID e = cei_UID i"
proof -
  obtain row where row: "InsertEmail (insert_email_params i) w = (Inr row, w')" and e: "toEmail row = Inr e"
    using assms by (auto simp: EmailRepository_Create_def check_def ret_def split: prod.splits sum.splits)
  then obtain w0 where "(let (r, d) = sql_insert_email (insert_email_params i) (uuid_gen w0 (draws w0))
      (pg_micros (clock w0)) (db w0) in (r, w0\<lparr>db := d, draws := Suc (draws w0)\<rparr>)) = (Inr row, w')"
    unfolding InsertEmail_def exec_new_def using call_Inr by fast
  then obtain d where d: "sql_insert_email (insert_email_params i) (uuid_gen w0 (draws w0)) (pg_micros (clock w0)) (db w0) = (Inr row, d)"
    by (auto simp: Let_def split: prod.splits)
  from toEmail_inserted [OF d] e show ?thesis by simp
qed

lemma Ingest_key:
  assumes "IngestEmail i acc folder uid w = (Inr e, w')"
  shows "em_AccountID e = acc \<and> em_Folder e = folder \<and> em_UID e = uint uid"
proof -
  obtain raw parsed w1 where s: "store_parsed i acc folder uid raw parsed w1 = (Inr e, w')"
    using assms by (auto simp: IngestEmail_def check_def split: prod.splits sum.splits)
  then obtain w2 em w3 as where "EmailRepository_Create (email_input acc folder uid raw parsed) w2 = (Inr em, w3)"
    "e = em\<lparr>em_Attachments := Some as\<rparr>"
    by (auto simp: store_parsed_def check_def split: prod.splits sum.splits)
  with Create_key show ?thesis by (fastforce simp: email_input_def)
qed

lemma Ingest_attachments: "IngestEmail i acc folder uid w = (Inr e, w') \<Longrightarrow> em_Attachments e \<noteq> None"
  by (auto simp: IngestEmail_def store_parsed_def check_def split: prod.splits sum.splits)

text \<open>The answer that a handler gives about a message.\<close>

definition answers_with :: "(email \<Rightarrow> bool) \<Rightarrow> response \<Rightarrow> bool" where
  "answers_with P resp \<longleftrightarrow>
     (rs_Status resp = 200 \<longrightarrow> (\<exists>e atts. P e \<and> rs_Body resp = MessageBody (message_response e atts)))"

lemma load_answers: "P e \<Longrightarrow> answers_with P (fst (load_and_answer a e w))"
  by (auto simp: answers_with_def load_and_answer_def answer_message_def or_answer_def split: option.splits prod.splits sum.splits)

lemma error_answers: "rs_Status resp \<noteq> 200 \<Longrightarrow> answers_with P resp"
  by (simp add: answers_with_def)

lemma on_demand_answers:
  "answers_with (\<lambda>e. em_Folder e = folder \<and> (em_UID e = uid \<or> em_UID e = uid mod 2 ^ 32)) (fst (fetch_on_demand a acc folder uid w))"
proof -
  let ?P = "\<lambda>e. em_Folder e = folder \<and> (em_UID e = uid \<or> em_UID e = uid mod 2 ^ 32)"
  obtain r w1 where i: "IngestEmail (ap_ingester a) acc folder (of_int uid) w = (r, w1)" by fastforce
  show ?thesis
  proof (cases r)
    case (Inr e)
    with Ingest_key i have "?P e" by (auto simp: uint_word_of_int)
    with i Inr show ?thesis by (simp add: fetch_on_demand_def load_answers)
  next
    case (Inl err)
    obtain r2 w2 where g: "EmailRepository_GetByUID acc folder uid w1 = (r2, w2)" by fastforce
    have "answers_with ?P (fst (or_answer (EmailRepository_GetByUID acc folder uid) (\<lambda>_. writeError 500 m) (load_and_answer a) w1))" for m
    proof (cases r2)
      case (Inr e)
      with GetByUID_key g have "?P e" by blast
      with g Inr show ?thesis by (simp add: or_answer_def load_answers)
    qed (simp add: g or_answer_def error_answers)
    with i Inl show ?thesis by (simp add: fetch_on_demand_def answer_def error_answers)
  qed
qed


section \<open>Sending\<close>

lemma deliver_sent:
  assumes "deliver_message a account req email w = ((resp, t), w')"
  shows "(rs_Status resp = 200 \<longleftrightarrow> message_accepted (ap_smtp a) t) \<and> secured (ap_smtp a) [] False t \<and> given_back t"
proof (cases "compose_Build (ap_ext a) (ap_mailer a) email w")
  case (Pair r1 w1)
  show ?thesis
  proof (cases r1)
    case (Inl e)
    with Pair assms show ?thesis by (auto simp: deliver_message_def message_accepted_def given_back_def)
  next
    case (Inr raw)
    obtain r2 t2 where s: "SendEmail (ap_smtp a) (smtp_config account) (acc_ImapUser account) (AllRecipients email) raw [] = (r2, t2)"
      by fastforce
    with Pair Inr assms have "t = t2 \<and> (rs_Status resp = 200 \<longleftrightarrow> r2 = Inr ())"
      by (cases r2) (auto simp: deliver_message_def split: prod.splits)
    with send_email_transcript [of "ap_smtp a" "smtp_config account" "acc_ImapUser account" "AllRecipients email" raw] s
    show ?thesis by simp
  qed
qed

lemma context_answers: "message_context a acc req w = (Answered rs, w1) \<Longrightarrow> rs_Status rs \<noteq> 200"
  by (auto simp: message_context_def Let_def split: option.splits sum.splits prod.splits if_splits)

text \<open>C32: \<open>SendMessage\<close> answers 200 exactly when the SMTP server accepted the message, whatever happens to
  the database, the object store and the original of a reply or forward; a request it rejects, and one on which it
  panics, sends nothing; and no conversation shows a secret in clear or leaves a connection open.\<close>

theorem send_message_sent:
  assumes "SendMessage a r w = ((resp, t), w')"
  shows "((\<exists>rs. resp = Some rs \<and> rs_Status rs = 200) \<longleftrightarrow> message_accepted (ap_smtp a) t)
    \<and> secured (ap_smtp a) [] False t \<and> given_back t \<and> (resp = None \<longrightarrow> t = [])"
proof -
  have silent: "t = [] \<and> (\<forall>rs. resp = Some rs \<longrightarrow> rs_Status rs \<noteq> 200)
    \<or> (\<exists>acc req w1 rs email. resp = Some rs \<and> deliver_message a acc req email w1 = ((rs, t), w'))"
    using assms
    by (auto simp: SendMessage_def send_for_account_def get_account_error_def context_answers
        split: sum.splits option.splits prod.splits if_splits stage.splits)
  then show ?thesis
  proof (elim disjE exE conjE)
    assume "t = []" "\<forall>rs. resp = Some rs \<longrightarrow> rs_Status rs \<noteq> 200"
    then show ?thesis by (auto simp: message_accepted_def given_back_def)
  next
    fix acc req w1 rs email
    assume "resp = Some rs" "deliver_message a acc req email w1 = ((rs, t), w')"
    with deliver_sent [of a acc req email w1 rs t w'] show ?thesis by simp
  qed
qed

section \<open>The local copy\<close>

lemma AccountRepository_Get_ID:
  assumes "script w = []" and "AccountRepository_Get x key acc w = (Inr account, w1)"
  shows "w1 = w \<and> acc_ID account = acc"
proof -
  have "GetAccount acc w = (fst (sql_get_account acc (pg_micros (clock w)) (db w)), w)"
    using assms(1) by (simp add: GetAccount_def exec_healthy sql_get_account_def)
  with assms(2) obtain row where row: "one_row (filter (\<lambda>r. dbA_ID r = acc) (tAccounts (db w))) = Inr row"
    and a: "toAccount x key row = Inr account" "w1 = w"
    by (auto simp: AccountRepository_Get_def check_def ret_def sql_get_account_def split: sum.splits)
  from row obtain rows where "filter (\<lambda>r. dbA_ID r = acc) (tAccounts (db w)) = row # rows"
    by (auto simp: one_row_def split: list.splits)
  then have "row \<in> set (filter (\<lambda>r. dbA_ID r = acc) (tAccounts (db w)))" by simp
  with a show ?thesis by (auto simp: toAccount_def split: sum.splits option.splits if_splits)
qed

lemma Create_taken:
  assumes "script w = []" and "(cei_AccountID i, cei_Folder i, cei_UID i) \<in> email_key ` set (tEmails (db w))"
  shows "db (snd (EmailRepository_Create i w)) = db w"
proof -
  have key: "iep_AccountID (insert_email_params i) = cei_AccountID i" "iep_Folder (insert_email_params i) = cei_Folder i"
    "iep_Uid (insert_email_params i) = cei_UID i" by (simp_all add: insert_email_params_def)
  have "snd (sql_insert_email (insert_email_params i) new now (db w)) = db w" for new now
    using assms(2) by (auto simp: sql_insert_email_def text_params_def jsonb_params_def Let_def key)
  with assms(1) show ?thesis
    by (simp add: EmailRepository_Create_def check_def ret_def InsertEmail_def exec_new_healthy Let_def
        split: sum.split prod.split)
qed


section \<open>Concrete requests\<close>

definition demo_sender :: account_row where
  "demo_sender = demo_account\<lparr>dbA_SmtpHost := Some ''smtp'', dbA_SmtpPort := Some 465\<rparr>"

definition demo_sent :: database where
  "demo_sent = empty_db\<lparr>tAccounts := [demo_sender],
     tEmails := [(demo_row 1 0)\<lparr>dbE_Folder := ''Sent'', dbE_Uid := 0\<rparr>]\<rparr>"

definition demo_smtp :: smtp_net where
  "demo_smtp = \<lparr>sn_reply = (\<lambda>_ _. Inr ()), sn_extension = (\<lambda>_ _. None), sn_challenges = (\<lambda>_. []), sn_upper = (\<lambda>s. s)\<rparr>"

definition demo_api :: api where
  "demo_api = \<lparr>ap_ext = demo_externals, ap_key = demo_key, ap_APIKey = ''secret'', ap_ingester = demo_ingester,
     ap_storage = ing_storage demo_ingester, ap_imap = demo_net [7], ap_smtp = demo_smtp,
     ap_mailer = \<lparr>ml_parse_address = (\<lambda>s. s \<noteq> []), ml_build = (\<lambda>_. Inr ()), ml_encode = (\<lambda>_. Inr ''Message-Id: <1@x>'')\<rparr>,
     ap_fts = (\<lambda>_. Inr (\<lambda>_. True)), ap_zone = (\<lambda>_. 0), ap_parse_RFC3339 = (\<lambda>_. None),
     ap_validate_account = (\<lambda>_. Valid), ap_validate_webhook = (\<lambda>_. Valid), ap_validate_message = (\<lambda>_. Valid)\<rparr>"

definition demo_message :: sendMessageRequest where
  "demo_message = \<lparr>smr_To = [\<lparr>ea_Name = [], ea_Email = ''you''\<rparr>], smr_CC = None, smr_BCC = None, smr_Subject = ''hi'',
     smr_Text = ''hello'', smr_HTML = [], smr_Attachments = [], smr_ReplyTo = None, smr_Forward = None, smr_Folder = [],
     smr_IncludeAttachments = False, smr_QuoteOriginal = None\<rparr>"

definition demo_request :: http_request where
  "demo_request = \<lparr>hr_param = (\<lambda>p. if p = ''id'' then ''1'' else if p = ''uid'' then ''7'' else ''INBOX''), hr_query = (\<lambda>_. []),
     hr_header = (\<lambda>_. ''secret''), hr_account = Inl ErrNoRows, hr_webhook = Inl ErrNoRows, hr_message = Inr demo_message\<rparr>"

lemma demo_api_simps [simp]:
  "ap_ext demo_api = demo_externals" "ap_key demo_api = demo_key" "ap_smtp demo_api = demo_smtp"
  "ap_ingester demo_api = demo_ingester" "ap_validate_message demo_api m = Valid" "ap_APIKey demo_api = ''secret''"
  by (simp_all add: demo_api_def)

lemma demo_request_simps [simp]:
  "hr_param demo_request ''id'' = ''1''" "hr_param demo_request ''uid'' = ''7''" "hr_message demo_request = Inr demo_message"
  "hr_query demo_request q = []"
  by (simp_all add: demo_request_def)

lemma demo_message_simps [simp]:
  "smr_ReplyTo demo_message = None" "smr_Forward demo_message = None" "smr_Attachments demo_message = []"
  "smr_Text demo_message = ''hello''" "smr_HTML demo_message = []"
  by (simp_all add: demo_message_def)

lemma demo_sender_get:
  "\<exists>account. AccountRepository_Get demo_externals demo_key 1 (demo_world demo_sent) = (Inr account, demo_world demo_sent)
     \<and> acc_SmtpHost account = ''smtp'' \<and> acc_ImapUser account = ''me'' \<and> acc_Name account = ''work''
     \<and> acc_SmtpUser account = [] \<and> acc_ImapPassword account = ''pw'' \<and> acc_SmtpPort account = 465"
proof -
  have row: "dbA_SmtpPassword demo_sender = None" "dbA_ImapPassword demo_sender = dbA_ImapPassword demo_account"
    "dbA_SmtpHost demo_sender = Some ''smtp''" "dbA_SmtpPort demo_sender = Some 465" "dbA_ImapUser demo_sender = ''me''"
    "dbA_Name demo_sender = ''work''" "dbA_SmtpUser demo_sender = None" "dbA_ID demo_sender = 1"
    by (simp_all add: demo_sender_def demo_account_def)
  then have "\<exists>account. toAccount demo_externals demo_key demo_sender = Inr account
     \<and> acc_SmtpHost account = ''smtp'' \<and> acc_ImapUser account = ''me'' \<and> acc_Name account = ''work''
     \<and> acc_SmtpUser account = [] \<and> acc_ImapPassword account = ''pw'' \<and> acc_SmtpPort account = 465"
    using demo_Decrypt [of "replicate 12 (CHR ''n'')" "''pw''"]
    by (simp add: toAccount_def demo_account_password derefString_def derefInt32_def)
  with row show ?thesis
    by (simp add: AccountRepository_Get_def check_def GetAccount_def exec_healthy sql_get_account_def
        one_row_def demo_sent_def empty_db_def ret_def demo_world_def)
qed

lemma demo_send:
  "\<exists>resp t w'. SendMessage demo_api demo_request (demo_world demo_sent) = ((Some resp, t), w') \<and> rs_Status resp = 200"
proof -
  let ?w = "demo_world demo_sent"
  obtain account where get: "AccountRepository_Get demo_externals demo_key 1 ?w = (Inr account, ?w)"
    and host: "acc_SmtpHost account = ''smtp''" and user: "acc_ImapUser account = ''me''" "acc_SmtpUser account = []"
      "acc_ImapPassword account = ''pw''" "acc_SmtpPort account = 465"
    using demo_sender_get by blast
  let ?email = "compose_email account demo_message None []"
  have valid: "compose_Validate (ap_mailer demo_api) ?email = Inr ()"
    by (simp add: compose_Validate_Inr compose_email_def demo_message_def demo_api_def AllRecipients_def user)
  then obtain w1 where build: "compose_Build demo_externals (ap_mailer demo_api) ?email ?w = (Inr ''Message-Id: <1@x>'', w1)"
    by (simp add: compose_Build_def demo_api_def Let_def)
  have rcpt: "AllRecipients ?email = [''you'']" by (simp add: compose_email_def demo_message_def AllRecipients_def)
  obtain t where send: "SendEmail demo_smtp (smtp_config account) (acc_ImapUser account) [''you''] ''Message-Id: <1@x>'' [] = (Inr (), t)"
    by (simp add: SendEmail_def with_client_def smtp_dial_def smtp_dialImplicitTLS_def closing_def smtp_then_def send_def
        demo_smtp_def smtp_config_def host user authenticate_def selectAuth_def client_Auth_def auth_start_def smtp_done_def
        send_message_def send_line_def line_ok_def smtp_quit_def Let_def)
  obtain x w2 where "storeSentEmail account ''Message-Id: <1@x>'' demo_message w1 = (x, w2)" by fastforce
  then obtain resp where d: "deliver_message demo_api account demo_message ?email ?w = ((resp, t), w2)" "rs_Status resp = 200"
    using build rcpt send by (simp add: deliver_message_def)
  have "send_for_account demo_api 1 demo_message account ?w = ((Some resp, t), w2)"
    using host d(1) by (simp add: send_for_account_def message_context_def Let_def del: One_nat_def)
  with get d(2) show ?thesis
    by (simp add: SendMessage_def demo_parse request_error_def del: One_nat_def)
qed


theorem send_message_sent_witness:
  "\<exists>resp t w'. SendMessage demo_api demo_request (demo_world demo_sent) = ((Some resp, t), w')
     \<and> rs_Status resp = 200 \<and> message_accepted demo_smtp t"
proof -
  obtain resp t w' where run: "SendMessage demo_api demo_request (demo_world demo_sent) = ((Some resp, t), w')" "rs_Status resp = 200"
    using demo_send by blast
  with send_message_sent [OF run(1)] show ?thesis by auto
qed


end
