(* ===== verification/Delivery.thy ===== *)
theory Delivery
  imports WebhookRuns MessageRuns
begin

text \<open>
  From an ingested message to its webhooks: what the producer queues when no call fails, and what the worker does with
  rows whose endpoints accept them. The property over the whole path is in the root theory.
\<close>

section \<open>A batch that is accepted\<close>

definition accepts_item :: "Worker \<Rightarrow> database \<Rightarrow> webhook \<Rightarrow> queue_row \<Rightarrow> bool" where
  "accepts_item wk d wh item \<longleftrightarrow> webhook_found wk d (dbQ_WebhookID item) wh \<and> always_accepts wk wh"

definition item_request :: "Worker \<Rightarrow> time \<Rightarrow> webhook \<Rightarrow> queue_row \<Rightarrow> HttpRequest" where
  "item_request wk now wh item = webhook_request (wk_ext wk) (wh_URL wh) (wh_Secret wh) (dbQ_Payload item) now"

definition mark_rows :: "uuid set \<Rightarrow> queue_row list \<Rightarrow> queue_row list" where
  "mark_rows ids rows = map (\<lambda>r. if dbQ_ID r \<in> ids then set_delivered r else r) rows"

lemma mark_rows_mark [simp]: "mark_rows ids (mark_rows ids' rows) = mark_rows (ids' \<union> ids) rows"
  by (auto simp: mark_rows_def set_delivered_def)

lemma mark_rows_none: "dbQ_ID ` set rows \<inter> ids = {} \<Longrightarrow> mark_rows ids rows = rows"
  by (induction rows) (auto simp: mark_rows_def)

lemma mark_rows_append: "mark_rows ids (rows @ rows') = mark_rows ids rows @ mark_rows ids rows'"
  by (simp add: mark_rows_def)

lemma accepts_item_queue [simp]: "accepts_item wk (d\<lparr>tQueue := q\<rparr>) = accepts_item wk d"
  by (intro ext) (simp add: accepts_item_def webhook_found_def)

lemma deliverWebhook_accepts:
  assumes w: "script w = []" and item: "accepts_item wk (db w) wh item"
  shows "deliverWebhook wk item w = w\<lparr>db := (db w)\<lparr>tQueue := mark_rows {dbQ_ID item} (tQueue (db w))\<rparr>,
    http_log := http_log w @ [item_request wk (clock w) wh item]\<rparr>"
proof -
  have same: "w\<lparr>script := []\<rparr> = w" using w by simp
  have found: "webhook_found wk (db w) (dbQ_WebhookID item) wh" and acc: "always_accepts wk wh"
    using item by (simp_all add: accepts_item_def)
  show ?thesis
    using Get_webhook_found [OF w found] sendWebhook_accepts [OF acc, of w "[]" "dbQ_Payload item"] w
    by (simp add: deliverWebhook_def Let_def same item_request_def markDelivered_def MarkWebhookQueueDelivered_def
        exec_healthy sql_mark_webhook_queue_delivered_def update_queue_def mark_rows_def set_delivered_def)
qed

lemma deliver_items_accepts:
  "script w = [] \<Longrightarrow> list_all2 (accepts_item wk (db w)) whs items \<Longrightarrow>
     deliver_items wk [] items w = w\<lparr>db := (db w)\<lparr>tQueue := mark_rows (dbQ_ID ` set items) (tQueue (db w))\<rparr>,
       http_log := http_log w @ map2 (item_request wk (clock w)) whs items\<rparr>"
proof (induction items arbitrary: w whs)
  case Nil
  then show ?case by (simp add: mark_rows_none)
next
  case (Cons item items)
  then obtain wh whs' where whs: "whs = wh # whs'" "accepts_item wk (db w) wh item"
    "list_all2 (accepts_item wk (db w)) whs' items" by (auto simp: list_all2_Cons2)
  let ?w = "w\<lparr>db := (db w)\<lparr>tQueue := mark_rows {dbQ_ID item} (tQueue (db w))\<rparr>,
    http_log := http_log w @ [item_request wk (clock w) wh item]\<rparr>"
  have "deliver_items wk [] (item # items) w = deliver_items wk [] items ?w"
    using deliverWebhook_accepts [OF Cons.prems(1) whs(2)] by simp
  also have "\<dots> = ?w\<lparr>db := (db ?w)\<lparr>tQueue := mark_rows (dbQ_ID ` set items) (tQueue (db ?w))\<rparr>,
       http_log := http_log ?w @ map2 (item_request wk (clock ?w)) whs' items\<rparr>"
    by (rule Cons.IH) (use Cons.prems(1) whs(3) in simp_all)
  finally show ?case by (simp add: whs(1))
qed

text \<open>The due rows are taken in the order in which they were created.\<close>

lemma processBatch_due:
  assumes "script w = []" and "filter (queue_due (pg_micros (clock w))) (tQueue (db w)) = rows"
    and "sorted (map dbQ_CreatedAt rows)" and "int (length rows) \<le> wc_BatchSize (wk_config wk)"
  shows "processBatch wk stops w = deliver_items wk stops rows w"
  using assms
  by (simp add: processBatch_def GetPendingWebhookQueueItems_def exec_healthy sql_get_pending_webhook_queue_items_def
      limit_offset_def order_asc_def sort_key_id_if_sorted)

section \<open>What is queued for an ingested message\<close>

lemma no_script_id: "script w = [] \<Longrightarrow> no_script w = w"
proof -
  assume "script w = []"
  then have "w\<lparr>script := []\<rparr> = w" by simp
  then show ?thesis by (simp add: no_script_def)
qed

lemma queue_healthy:
  assumes w: "script w = []" and inv: "db_inv (db w)"
    and whs: "GetForAccount (prod_ext p) (prod_key p) (em_AccountID email) w = (Inr whs, w)"
    and bytes: "prod_marshal p (fst (buildPayload p email w)) = Inr payload"
    and fresh: "fresh_ids w (dbQ_ID ` set (tQueue (db w)))" and stored: "em_ID email \<in> dbE_ID ` set (tEmails (db w))"
  obtains rows where "list_all2 (queued_row (em_ID email) payload (pg_micros (clock w))) whs rows"
    and "db (producer_EventHandler p email w) = (db w)\<lparr>tQueue := tQueue (db w) @ rows\<rparr>"
    and "quiet w (producer_EventHandler p email w)" and "distinct (map dbQ_ID (tQueue (db w) @ rows))"
proof -
  let ?w' = "producer_EventHandler p email w"
  note none = no_script_id [OF w]
  obtain pl w2 where b: "buildPayload p email w = (pl, w2)" by fastforce
  note w2 = buildPayload_faults [OF faults_Nil [OF w, of 0] b]
  obtain c w3 where q: "queue_rows whs (em_ID email) payload w2 = (c, w3)" by fastforce
  have run: "?w' = (if whs = [] then w else w3)"
    using whs b q bytes by (simp add: producer_EventHandler_def QueueForEmail_def check_def Let_def)
  note ids = GetForAccount_ids [of "prod_ext p" "prod_key p" "em_AccountID email" w whs, unfolded none, OF whs]
  obtain rows where rows: "list_all2 (queued_row (em_ID email) payload (pg_micros (clock w))) whs rows"
    and db: "db ?w' = (db w)\<lparr>tQueue := tQueue (db w) @ rows\<rparr>"
  proof (cases "whs = []")
    case True
    with run that [of "[]"] show thesis by simp
  next
    case False
    from queue_rows_faults [of 0, OF _ q] w2 ids stored fresh obtain rows where
      "only_queue w2 w3" "tQueue (db w3) = tQueue (db w2) @ rows"
      "list_all2 (queued_row (em_ID email) payload (pg_micros (clock w2))) whs rows"
      by (auto simp: same_tables_def fresh_ids_def)
    with run False w2 that [of rows] show thesis by (auto simp: only_queue_def same_tables_def)
  qed
  have "quiet w ?w'" using uses_script_queue by (simp add: uses_script_def producer_EventHandler_def)
  moreover have "winv db_inv ?w'"
    unfolding producer_EventHandler_def
    by (rule keepsD [OF tables.keeps_QueueForEmail]) (simp add: winv_def inv w)
  then have "distinct (map dbQ_ID (tQueue (db w) @ rows))" by (simp add: winv_def db_inv_def keys_unique_def db)
  ultimately show thesis using that rows db by blast
qed

lemma Create_ID:
  assumes "EmailRepository_Create i w = (Inr e, w')"
  shows "em_ID e \<in> dbE_ID ` set (tEmails (db w'))"
proof -
  obtain row where row: "InsertEmail (insert_email_params i) w = (Inr row, w')" and e: "toEmail row = Inr e"
    using assms by (auto simp: EmailRepository_Create_def check_def ret_def split: prod.splits sum.splits)
  then obtain w0 where "(let (r, d) = sql_insert_email (insert_email_params i) (uuid_gen w0 (draws w0))
      (pg_micros (clock w0)) (db w0) in (r, w0\<lparr>db := d, draws := Suc (draws w0)\<rparr>)) = (Inr row, w')"
    unfolding InsertEmail_def exec_new_def using call_Inr by fast
  then obtain d where d: "sql_insert_email (insert_email_params i) (uuid_gen w0 (draws w0))
      (pg_micros (clock w0)) (db w0) = (Inr row, d)" "db w' = d"
    by (auto simp: Let_def split: prod.splits)
  from sql_insert_email_Inr [OF d(1)] d(2) e show ?thesis
    by (auto simp: toEmail_def split: sum.splits)
qed

lemma ingested_ID:
  assumes w: "script w = []" and run: "IngestEmail i acc folder uid w = (Inr e, w')"
  shows "em_ID e \<in> dbE_ID ` set (tEmails (db w'))"
proof -
  obtain raw parsed w1 where p: "ingest_prepare i acc folder uid w = (Inr (raw, parsed), w1)"
    and s: "store_parsed i acc folder uid raw parsed w1 = (Inr e, w')"
    using run by (auto simp: IngestEmail_def check_def split: prod.splits sum.splits)
  let ?up = "upload_attachments (ing_storage i) (x_uuid_String (ing_ext i) acc) (uint uid) [] (pe_Attachments parsed)"
  obtain ks w2 em w3 as where u: "?up w1 = (Inr ks, w2)"
    and c: "EmailRepository_Create (email_input acc folder uid raw parsed) w2 = (Inr em, w3)"
    and t: "store_attachments (em_ID em) [] (zip (pe_Attachments parsed) ks) w3 = (Inr as, w')"
    and e: "e = em\<lparr>em_Attachments := Some as\<rparr>"
    using s by (auto simp: store_parsed_def check_def split: prod.splits sum.splits)
  have "quiet w w3"
    by (intro quiet_trans [OF uses_scriptD [OF uses_script_prepare p]] quiet_trans [OF uses_scriptD [OF uses_script_uploads u]]
        uses_scriptD [OF uses_script_Create c])
  then have "faults 0 w3" by (intro faults_Nil quiet_healthy [OF _ w])
  with store_attachments_emails [OF this t] Create_ID [OF c] e show ?thesis by simp
qed

lemma found_webhook:
  assumes "db_inv (db w)" and "GetForAccount x key acc (no_script w) = (Inr whs, v)" and "wh \<in> set whs"
    and "wk_ext wk = x" and "wk_key wk = key"
  shows "webhook_found wk (db w) (wh_ID wh) wh"
proof -
  obtain row where row: "row \<in> set (tWebhooks (db w))" "toWebhook x key row = Inr wh" "wh_ID wh = dbW_ID row"
    using GetForAccount_rows [OF assms(2,3)] by blast
  have "distinct (map dbW_ID (tWebhooks (db w)))" using assms(1) by (simp add: db_inv_def keys_unique_def)
  from filter_eq_single [OF this row(1)] row(2,3) assms(4,5) show ?thesis by (simp add: webhook_found_def)
qed

lemma queued_requests:
  "list_all2 (queued_row eid payload now) whs rows \<Longrightarrow> map2 (item_request wk t) whs rows
     = map (\<lambda>wh. webhook_request (wk_ext wk) (wh_URL wh) (wh_Secret wh) payload t) whs"
  by (induction rule: list_all2_induct) (simp_all add: item_request_def queued_row_def)

section \<open>A concrete state\<close>

definition demo_mailbox :: world where
  "demo_mailbox = demo_world (demo_db\<lparr>tWebhooks := [demo_webhook_row]\<rparr>)"

lemma demo_mailbox_ok: "script demo_mailbox = []" "http_log demo_mailbox = []" "clock demo_mailbox = 1000000" "db_inv (db demo_mailbox)"
  by (simp_all add: demo_mailbox_def demo_world_def demo_db_def empty_db_def db_inv_defs demo_webhook_row_def demo_account_def)

lemma demo_mailbox_webhooks:
  assumes "script w = []" and "tWebhooks (db w) = [demo_webhook_row]"
  shows "GetForAccount (prod_ext demo_producer) (prod_key demo_producer) 1 w = (Inr [demo_webhook], w)"
proof -
  have "dbW_AccountID demo_webhook_row = 1" by (simp add: demo_webhook_row_def)
  with assms show ?thesis
    by (simp add: GetForAccount_def check_def GetWebhooksForAccount_def exec_healthy
        sql_get_webhooks_for_account_def order_desc_def demo_producer_def demo_toWebhook)
qed

end
