(* ===== verification/Logging.thy ===== *)
theory Logging
  imports Externals GoStrings
begin

text \<open>
  \<open>internal/logging\<close>: the level and the format that the configuration names, and the wrapper around the
  response writer from which the request logger reads the status.
\<close>

section \<open>Setup\<close>

datatype Level = LevelDebug | LevelInfo | LevelWarn | LevelError

text \<open>The level, and whether a warning was printed.\<close>

definition parseLevel :: "externals \<Rightarrow> string \<Rightarrow> Level \<times> bool" where
  "parseLevel x level =
     (let l = ToLower (x_unicode_lower x) level in
      if l = ''debug'' then (LevelDebug, False)
      else if l = ''info'' \<or> l = [] then (LevelInfo, False)
      else if l = ''warn'' \<or> l = ''warning'' then (LevelWarn, False)
      else if l = ''error'' then (LevelError, False)
      else (LevelInfo, True))"

record logging_Config =
  lgc_Level :: string
  lgc_Format :: string

datatype log_handler = TextHandler Level | JSONHandler Level

text \<open>The default logger, and the number of warnings that were printed.\<close>

definition Setup :: "externals \<Rightarrow> logging_Config \<Rightarrow> log_handler \<times> nat" where
  "Setup x cfg =
     (let (level, warned) = parseLevel x (lgc_Level cfg);
          format = ToLower (x_unicode_lower x) (lgc_Format cfg)
      in if format = ''text'' then (TextHandler level, of_bool warned)
         else (JSONHandler level, of_bool warned + of_bool (format \<noteq> [] \<and> format \<noteq> ''json'')))"

section \<open>The response writer\<close>

text \<open>What reaches the wrapped writer: a header with its status, or a piece of the body.\<close>

datatype 'b written = HeaderWritten int | BodyWritten 'b

record 'b responseWriter =
  rw_sent :: "'b written list"
  rw_status :: int
  rw_wroteHeader :: bool

definition wrapResponseWriter :: "'b responseWriter" where
  "wrapResponseWriter = \<lparr>rw_sent = [], rw_status = 200, rw_wroteHeader = False\<rparr>"

definition WriteHeader :: "int \<Rightarrow> 'b responseWriter \<Rightarrow> 'b responseWriter" where
  "WriteHeader code rw =
     (if rw_wroteHeader rw then rw
      else rw\<lparr>rw_status := code, rw_wroteHeader := True, rw_sent := rw_sent rw @ [HeaderWritten code]\<rparr>)"

definition rw_Write :: "'b \<Rightarrow> 'b responseWriter \<Rightarrow> 'b responseWriter" where
  "rw_Write b rw =
     (let rw1 = (if \<not> rw_wroteHeader rw then WriteHeader 200 rw else rw)
      in rw1\<lparr>rw_sent := rw_sent rw1 @ [BodyWritten b]\<rparr>)"

text \<open>The level of the log line of a request.\<close>

definition request_level :: "int \<Rightarrow> Level" where
  "request_level status = (if status \<ge> 500 then LevelError else if status \<ge> 400 then LevelWarn else LevelInfo)"

text \<open>Nothing is sent before the one header, whose status is the one that is logged.\<close>

definition writer_ok :: "'b responseWriter \<Rightarrow> bool" where
  "writer_ok rw \<longleftrightarrow>
     (if rw_wroteHeader rw then \<exists>bs. rw_sent rw = HeaderWritten (rw_status rw) # map BodyWritten bs
      else rw_sent rw = [] \<and> rw_status rw = 200)"

lemma writer_ok_wrap [simp]: "writer_ok wrapResponseWriter"
  by (simp add: writer_ok_def wrapResponseWriter_def)

lemma writer_ok_WriteHeader: "writer_ok rw \<Longrightarrow> writer_ok (WriteHeader code rw)"
  by (auto simp: writer_ok_def WriteHeader_def)

lemma WriteHeader_wrote [simp]: "rw_wroteHeader (WriteHeader code rw)"
  by (simp add: WriteHeader_def)

lemma writer_ok_Write: "writer_ok rw \<Longrightarrow> writer_ok (rw_Write b rw)"
proof -
  assume "writer_ok rw"
  then have "writer_ok (if \<not> rw_wroteHeader rw then WriteHeader 200 rw else rw)"
    by (simp add: writer_ok_WriteHeader)
  then obtain bs where "rw_sent (if \<not> rw_wroteHeader rw then WriteHeader 200 rw else rw)
      = HeaderWritten (rw_status (if \<not> rw_wroteHeader rw then WriteHeader 200 rw else rw)) # map BodyWritten bs"
    by (auto simp: writer_ok_def split: if_splits)
  then have "\<exists>bs'. rw_sent (rw_Write b rw) = HeaderWritten (rw_status (rw_Write b rw)) # map BodyWritten bs'"
    by (auto simp: rw_Write_def Let_def intro: exI [of _ "bs @ [b]"])
  then show ?thesis by (auto simp: writer_ok_def rw_Write_def Let_def)
qed

end
