(* ===== verification/Router.thy ===== *)
theory Router
  imports MessageRuns Logging
begin

text \<open>
  \<open>router.go\<close>: the routes, the middleware around them, and what a request to the server does. The matching
  of a method and a path against the routes (\<open>chi\<close>) is an argument.
\<close>

section \<open>Middleware\<close>

text \<open>A handler whose response is \<open>None\<close> when it panics, with the transcript of the SMTP conversation.\<close>

type_synonym served = "http_request \<Rightarrow> world \<Rightarrow> (response option \<times> transcript) \<times> world"

definition respond :: "handler \<Rightarrow> served" where
  "respond h r w = (case h r w of (resp, w1) \<Rightarrow> ((Some resp, []), w1))"

text \<open>\<open>subtle.ConstantTimeCompare\<close> is equality of the byte strings.\<close>

definition APIKeyAuth :: "string \<Rightarrow> served \<Rightarrow> served" where
  "APIKeyAuth apiKey handle_next r w =
     (let provided = hr_header r ''X-API-Key''
      in if provided = [] then ((Some (writeError 401 ''missing API key''), []), w)
         else if provided \<noteq> apiKey then ((Some (writeError 401 ''invalid API key''), []), w)
         else handle_next r w)"

text \<open>\<open>middleware.Recoverer\<close> answers 500 when the handler panicked.\<close>

definition Recoverer :: "served \<Rightarrow> http_request \<Rightarrow> world \<Rightarrow> (response \<times> transcript) \<times> world" where
  "Recoverer h r w =
     (case h r w of ((resp, t), w1) \<Rightarrow>
        ((case resp of None \<Rightarrow> \<lparr>rs_Status = 500, rs_Body = NoBody\<rparr> | Some rs \<Rightarrow> rs, t), w1))"

text \<open>A response written through the logger's writer, and the level and status of the log line.\<close>

definition write_response :: "response \<Rightarrow> body responseWriter" where
  "write_response resp =
     (let rw = WriteHeader (rs_Status resp) wrapResponseWriter
      in if rs_Body resp = NoBody then rw else rw_Write (rs_Body resp) rw)"

definition RequestLogger ::
  "(http_request \<Rightarrow> world \<Rightarrow> (response \<times> transcript) \<times> world)
   \<Rightarrow> http_request \<Rightarrow> world \<Rightarrow> ((response \<times> transcript) \<times> Level \<times> int) \<times> world" where
  "RequestLogger h r w =
     (case h r w of ((resp, t), w1) \<Rightarrow>
        (let status = rw_status (write_response resp) in (((resp, t), request_level status, status), w1)))"

lemma write_response_ok: "writer_ok (write_response resp) \<and> rw_status (write_response resp) = rs_Status resp"
  by (auto simp: write_response_def Let_def writer_ok_WriteHeader writer_ok_Write)
    (auto simp: rw_Write_def WriteHeader_def wrapResponseWriter_def)

section \<open>Routes\<close>

datatype endpoint =
  EpHealth | EpReady | EpAccountCreate | EpAccountList | EpAccountGet | EpAccountDelete | EpFolderList
| EpListMessages | EpGetMessage | EpSendMessage | EpWebhookCreate | EpWebhookList | EpWebhookDelete | EpSearch

record route =
  rt_Method :: string
  rt_Pattern :: string
  rt_Protected :: bool
  rt_Endpoint :: endpoint

text \<open>The subroutes of \<open>/accounts\<close> and \<open>/webhooks\<close> with their full patterns.\<close>

definition routes :: "route list" where
  "routes = map (\<lambda>(m, p, k, e). \<lparr>rt_Method = m, rt_Pattern = p, rt_Protected = k, rt_Endpoint = e\<rparr>)
     [(''GET'', ''/health'', False, EpHealth),
      (''GET'', ''/ready'', False, EpReady),
      (''POST'', ''/accounts/'', True, EpAccountCreate),
      (''GET'', ''/accounts/'', True, EpAccountList),
      (''GET'', ''/accounts/{id}'', True, EpAccountGet),
      (''DELETE'', ''/accounts/{id}'', True, EpAccountDelete),
      (''GET'', ''/accounts/{id}/folders'', True, EpFolderList),
      (''GET'', ''/accounts/{id}/folders/{name}/messages'', True, EpListMessages),
      (''GET'', ''/accounts/{id}/messages/{uid}'', True, EpGetMessage),
      (''POST'', ''/accounts/{id}/messages'', True, EpSendMessage),
      (''POST'', ''/webhooks/'', True, EpWebhookCreate),
      (''GET'', ''/webhooks/'', True, EpWebhookList),
      (''DELETE'', ''/webhooks/{id}'', True, EpWebhookDelete),
      (''GET'', ''/search'', True, EpSearch)]"

fun endpoint_handler :: "api \<Rightarrow> CoordinatorStats option \<Rightarrow> endpoint \<Rightarrow> served" where
  "endpoint_handler a stats EpHealth = respond Health"
| "endpoint_handler a stats EpReady = respond (Ready a stats)"
| "endpoint_handler a stats EpAccountCreate = respond (AccountHandler_Create a)"
| "endpoint_handler a stats EpAccountList = respond (AccountHandler_List a)"
| "endpoint_handler a stats EpAccountGet = respond (AccountHandler_Get a)"
| "endpoint_handler a stats EpAccountDelete = respond (AccountHandler_Delete a)"
| "endpoint_handler a stats EpFolderList = respond (FolderHandler_List a)"
| "endpoint_handler a stats EpListMessages = respond (ListMessages a)"
| "endpoint_handler a stats EpGetMessage = respond (GetMessage a)"
| "endpoint_handler a stats EpSendMessage = SendMessage a"
| "endpoint_handler a stats EpWebhookCreate = respond (WebhookHandler_Create a)"
| "endpoint_handler a stats EpWebhookList = respond (WebhookHandler_List a)"
| "endpoint_handler a stats EpWebhookDelete = respond (WebhookHandler_Delete a)"
| "endpoint_handler a stats EpSearch = respond (SearchHandler_Search a)"

text \<open>The mux picks one of the routes or answers by itself: 404 or 405, or what the middleware of a subrouter
  answers.\<close>

type_synonym mux = "route list \<Rightarrow> string \<Rightarrow> string \<Rightarrow> route + response"

definition mux_documented :: "mux \<Rightarrow> bool" where
  "mux_documented chi \<longleftrightarrow>
     (\<forall>rs m p. case chi rs m p of Inl rt \<Rightarrow> rt \<in> set rs \<and> rt_Method rt = m | Inr resp \<Rightarrow> rs_Status resp \<in> {401, 404, 405})"

definition NewRouter :: "mux \<Rightarrow> api \<Rightarrow> CoordinatorStats option \<Rightarrow> string \<Rightarrow> string \<Rightarrow> served" where
  "NewRouter chi a stats meth path =
     (case chi routes meth path of
        Inr resp \<Rightarrow> respond (\<lambda>_. answer resp)
      | Inl rt \<Rightarrow>
          (let h = endpoint_handler a stats (rt_Endpoint rt)
           in if rt_Protected rt then APIKeyAuth (ap_APIKey a) h else h))"

definition serve ::
  "mux \<Rightarrow> api \<Rightarrow> CoordinatorStats option \<Rightarrow> string \<Rightarrow> string \<Rightarrow> http_request \<Rightarrow> world
   \<Rightarrow> ((response \<times> transcript) \<times> Level \<times> int) \<times> world" where
  "serve chi a stats meth path = RequestLogger (Recoverer (NewRouter chi a stats meth path))"

lemma serve_eq:
  "serve chi a stats meth path r w =
     (case NewRouter chi a stats meth path r w of ((resp, t), w1) \<Rightarrow>
        (let rs = (case resp of None \<Rightarrow> \<lparr>rs_Status = 500, rs_Body = NoBody\<rparr> | Some rs \<Rightarrow> rs)
         in (((rs, t), request_level (rs_Status rs), rs_Status rs), w1)))"
  by (simp add: serve_def RequestLogger_def Recoverer_def write_response_ok Let_def split: prod.split)

section \<open>The API key\<close>

lemma routes_protected:
  "rt \<in> set routes \<Longrightarrow> \<not> rt_Protected rt \<Longrightarrow> rt_Endpoint rt = EpHealth \<or> rt_Endpoint rt = EpReady"
  by (auto simp: routes_def)

lemma open_endpoints:
  assumes "script w = []"
  shows "endpoint_handler a stats EpHealth r w = ((Some (fst (Health r w)), []), w)"
    and "\<exists>resp. endpoint_handler a stats EpReady r w = ((Some resp, []), w)"
  using assms
  by (auto simp: respond_def Health_def answer_def Ready_def db_Ping_def s3_Ping_def s3_HeadBucket_def check_def call_healthy
      Let_def ok_def fail_def split: prod.splits sum.splits)

text \<open>C34: A request without the API key of the configuration runs no handler but \<open>Health\<close> and \<open>Ready\<close>: every other
  one is answered 401, 404 or 405, logged as a warning, and changes nothing at all; \<open>Health\<close> and \<open>Ready\<close> change nothing
  when their calls are healthy; and no SMTP conversation is started.\<close>

theorem api_requires_key:
  assumes chi: "mux_documented chi" and key: "hr_header r ''X-API-Key'' \<noteq> ap_APIKey a"
    and run: "serve chi a stats meth path r w = (((resp, t), logged), w')"
  shows "t = [] \<and> (script w = [] \<longrightarrow> w' = w)
    \<and> ((\<exists>rt. chi routes meth path = Inl rt \<and> rt_Endpoint rt \<in> {EpHealth, EpReady})
       \<or> rs_Status resp \<in> {401, 404, 405} \<and> w' = w \<and> logged = (LevelWarn, rs_Status resp))"
proof (cases "chi routes meth path")
  case (Inl rt)
  with chi have rt: "rt \<in> set routes" unfolding mux_documented_def by (metis (no_types, lifting) sum.simps(5))
  show ?thesis
  proof (cases "rt_Protected rt")
    case True
    with Inl key run show ?thesis
      by (auto simp: serve_eq NewRouter_def APIKeyAuth_def Let_def request_level_def split: if_splits)
  next
    case False
    with routes_protected [OF rt] have e: "rt_Endpoint rt \<in> {EpHealth, EpReady}" by blast
    have "t = []" using e Inl False run
      by (auto simp: serve_eq NewRouter_def respond_def Let_def split: prod.splits)
    moreover have "w' = w" if "script w = []"
      using open_endpoints [OF that, of a stats r] e Inl False run by (auto simp: serve_eq NewRouter_def Let_def)
    ultimately show ?thesis using Inl e by blast
  qed
next
  case (Inr rs)
  with chi have "rs_Status rs \<in> {401, 404, 405}" unfolding mux_documented_def by (metis (no_types, lifting) sum.simps(6))
  with Inr run show ?thesis
    by (auto simp: serve_eq NewRouter_def respond_def answer_def Let_def request_level_def)
qed

section \<open>What an endpoint may answer\<close>

primrec success_body :: "endpoint \<Rightarrow> body \<Rightarrow> bool" where
  "success_body EpHealth b = (\<exists>x. b = HealthBody x)"
| "success_body EpReady b = (\<exists>x. b = ReadyBody x)"
| "success_body EpAccountCreate b = (\<exists>x. b = AccountBody x)"
| "success_body EpAccountList b = (\<exists>x. b = AccountsBody x)"
| "success_body EpAccountGet b = (\<exists>x. b = AccountBody x)"
| "success_body EpAccountDelete b = (b = NoBody)"
| "success_body EpFolderList b = (\<exists>x. b = FoldersBody x)"
| "success_body EpListMessages b = (\<exists>x. b = MessagesBody x)"
| "success_body EpGetMessage b = (\<exists>x. b = MessageBody x)"
| "success_body EpSendMessage b = (\<exists>x. b = SentBody x)"
| "success_body EpWebhookCreate b = (\<exists>x. b = WebhookBody x)"
| "success_body EpWebhookList b = (\<exists>x. b = WebhooksBody x)"
| "success_body EpWebhookDelete b = (b = NoBody)"
| "success_body EpSearch b = (\<exists>x. b = MessagesBody x)"

fun success_statuses :: "endpoint \<Rightarrow> int set" where
  "success_statuses EpReady = {200, 503}"
| "success_statuses EpAccountCreate = {201}"
| "success_statuses EpWebhookCreate = {201}"
| "success_statuses EpAccountDelete = {204}"
| "success_statuses EpWebhookDelete = {204}"
| "success_statuses _ = {200}"

fun error_statuses :: "endpoint \<Rightarrow> int set" where
  "error_statuses EpHealth = {}"
| "error_statuses EpReady = {}"
| "error_statuses EpAccountCreate = {400, 500}"
| "error_statuses EpAccountList = {500}"
| "error_statuses EpWebhookCreate = {400, 500}"
| "error_statuses EpWebhookList = {500}"
| "error_statuses EpFolderList = {400, 404, 500, 502}"
| "error_statuses EpGetMessage = {400, 404, 500, 502}"
| "error_statuses EpSendMessage = {400, 404, 500, 502}"
| "error_statuses _ = {400, 404, 500}"

definition typed :: "endpoint \<Rightarrow> response \<Rightarrow> bool" where
  "typed e resp \<longleftrightarrow>
     rs_Status resp \<in> success_statuses e \<and> success_body e (rs_Body resp)
     \<or> rs_Status resp \<in> error_statuses e \<and> (\<exists>m. rs_Body resp = ErrorBody m)"

lemma typed_simps [simp]:
  "typed e (writeJSON s b) \<longleftrightarrow> s \<in> success_statuses e \<and> success_body e b \<or> s \<in> error_statuses e \<and> (\<exists>m. b = ErrorBody m)"
  "typed e (writeError s m) \<longleftrightarrow> s \<in> error_statuses e \<or> s \<in> success_statuses e \<and> success_body e (ErrorBody m)"
  by (auto simp: typed_def)

definition answers :: "(response \<Rightarrow> bool) \<Rightarrow> (world \<Rightarrow> response \<times> world) \<Rightarrow> bool" where
  "answers P h \<longleftrightarrow> (\<forall>w. P (fst (h w)))"

named_theorems answers_intros

lemma answers_answer [answers_intros]: "P r \<Longrightarrow> answers P (answer r)"
  by (simp add: answers_def answer_def)

lemma answers_or_answer [answers_intros]:
  "(\<And>e. P (bad e)) \<Longrightarrow> (\<And>x. answers P (k x)) \<Longrightarrow> answers P (or_answer m bad k)"
  by (auto simp: answers_def or_answer_def split: prod.split sum.split)

lemma answers_uuid [answers_intros]: "P (writeError 400 m) \<Longrightarrow> (\<And>i. answers P (k i)) \<Longrightarrow> answers P (with_uuid a t m k)"
  by (auto simp: answers_def with_uuid_def answer_def split: sum.split)

lemma answers_account [answers_intros]:
  "(\<And>e. P (get_account_error e)) \<Longrightarrow> (\<And>x. answers P (k x)) \<Longrightarrow> answers P (with_account a i k)"
  unfolding with_account_def by (rule answers_or_answer)

lemma answers_if [answers_intros]: "(b \<Longrightarrow> answers P h) \<Longrightarrow> (\<not> b \<Longrightarrow> answers P h') \<Longrightarrow> answers P (if b then h else h')"
  by simp

lemma answers_if_then [answers_intros]:
  "(b \<Longrightarrow> answers P h) \<Longrightarrow> (\<not> b \<Longrightarrow> answers P h') \<Longrightarrow> answers P (\<lambda>w. if b then h w else h' w)"
  by (simp add: answers_def)

lemma answers_cases [answers_intros]:
  "(\<And>x. answers P (f x)) \<Longrightarrow> (\<And>y. answers P (g y)) \<Longrightarrow> answers P (case s of Inl x \<Rightarrow> f x | Inr y \<Rightarrow> g y)"
  "answers P n \<Longrightarrow> (\<And>z. answers P (k z)) \<Longrightarrow> answers P (case q of None \<Rightarrow> n | Some z \<Rightarrow> k z)"
  "(\<And>x y. answers P (h x y)) \<Longrightarrow> answers P (case p of (x, y) \<Rightarrow> h x y)"
  by (simp_all split: sum.split option.split prod.split)

lemma typed_handlers:
  "answers (typed EpHealth) (Health r)" "answers (typed EpAccountCreate) (AccountHandler_Create a r)"
  "answers (typed EpAccountList) (AccountHandler_List a r)" "answers (typed EpAccountGet) (AccountHandler_Get a r)"
  "answers (typed EpAccountDelete) (AccountHandler_Delete a r)" "answers (typed EpFolderList) (FolderHandler_List a r)"
  "answers (typed EpListMessages) (ListMessages a r)" "answers (typed EpWebhookCreate) (WebhookHandler_Create a r)"
  "answers (typed EpWebhookList) (WebhookHandler_List a r)" "answers (typed EpWebhookDelete) (WebhookHandler_Delete a r)"
  "answers (typed EpSearch) (SearchHandler_Search a r)"
  unfolding account_handler_defs Let_def
  by (intro answers_intros; simp add: get_account_error_def create_webhook_error_def list_body_def)+

lemma typed_Ready: "answers (typed EpReady) (Ready a stats r)"
  by (auto simp: answers_def Ready_def Let_def split: prod.splits)

lemma answers_io [answers_intros]:
  "(\<And>x. answers P (k x)) \<Longrightarrow> (\<And>e. answers P (b e)) \<Longrightarrow>
     answers P (\<lambda>w. case m w of (Inr x, w1) \<Rightarrow> k x w1 | (Inl e, w1) \<Rightarrow> b e w1)"
  by (auto simp: answers_def split: prod.split sum.split)

lemma typed_load: "answers (typed EpGetMessage) (load_and_answer a e)"
  by (auto simp: answers_def load_and_answer_def answer_message_def or_answer_def
      split: option.splits prod.splits sum.splits)

lemma typed_fetch: "answers (typed EpGetMessage) (fetch_on_demand a acc folder uid)"
proof -
  have *: "answers (typed EpGetMessage)
      (or_answer m (\<lambda>_. writeError 500 t) (load_and_answer a))" for m :: "email io" and t
    by (intro answers_intros typed_load) simp
  show ?thesis
    using * typed_load
    by (auto simp: answers_def fetch_on_demand_def answer_def split: prod.splits sum.splits)
qed

lemma typed_GetMessage: "answers (typed EpGetMessage) (GetMessage a r)"
  unfolding GetMessage_def Let_def
  by (intro answers_intros typed_load typed_fetch; simp add: get_account_error_def)

lemma typed_context: "message_context a acc req w = (Answered rs, w1) \<Longrightarrow> typed EpSendMessage rs"
  by (auto simp: message_context_def Let_def split: option.splits sum.splits prod.splits if_splits)

lemma typed_deliver: "deliver_message a account req email w = ((rs, t), w1) \<Longrightarrow> typed EpSendMessage rs"
  by (auto simp: deliver_message_def split: sum.splits prod.splits)

lemma typed_SendMessage: "SendMessage a r w = ((Some rs, t), w1) \<Longrightarrow> typed EpSendMessage rs"
  by (auto simp: SendMessage_def send_for_account_def get_account_error_def
      split: sum.splits option.splits prod.splits if_splits stage.splits
      intro: typed_context dest: typed_deliver)

lemma typed_endpoint:
  assumes "endpoint_handler a stats e r w = ((resp, t), w1)"
  shows "case resp of Some rs \<Rightarrow> typed e rs | None \<Rightarrow> e = EpSendMessage"
proof -
  have lift: "case resp of Some rs \<Rightarrow> typed e rs | None \<Rightarrow> e = EpSendMessage"
    if "endpoint_handler a stats e = respond h" "answers (typed e) (h r)" for h
    using assms that by (auto simp: respond_def answers_def split: prod.splits) (metis fst_conv)
  show ?thesis
  proof (cases e)
    case EpSendMessage
    with assms show ?thesis by (auto split: option.split intro: typed_SendMessage)
  qed (use lift typed_handlers typed_Ready typed_GetMessage in auto)
qed

text \<open>C35: Every response of the server is one of its endpoint's: a success status with the body type that belongs
  to it, or one of the endpoint's error statuses with an error message; besides these there are only the mux's own
  answers, the 401 of a request without the key, and the bare 500 after \<open>SendMessage\<close> panicked. The log
  line has the status that was sent, with the level error exactly from 500 on.\<close>

theorem responses_typed:
  assumes "serve chi a stats meth path r w = (((resp, t), (level, status)), w')"
  shows "(case chi routes meth path of
            Inr rs \<Rightarrow> resp = rs
          | Inl rt \<Rightarrow> typed (rt_Endpoint rt) resp
              \<or> rt_Protected rt \<and> rs_Status resp = 401 \<and> (\<exists>m. rs_Body resp = ErrorBody m)
              \<or> rt_Endpoint rt = EpSendMessage \<and> resp = \<lparr>rs_Status = 500, rs_Body = NoBody\<rparr>)
    \<and> status = rs_Status resp \<and> (level = LevelError \<longleftrightarrow> 500 \<le> rs_Status resp)"
proof -
  have log: "status = rs_Status resp \<and> (level = LevelError \<longleftrightarrow> 500 \<le> rs_Status resp)"
    using assms by (auto simp: serve_eq Let_def request_level_def split: prod.splits option.splits if_splits)
  obtain out t' w1 where n: "NewRouter chi a stats meth path r w = ((out, t'), w1)" by (metis surj_pair)
  with assms have resp: "resp = (case out of None \<Rightarrow> \<lparr>rs_Status = 500, rs_Body = NoBody\<rparr> | Some rs \<Rightarrow> rs)"
    by (simp add: serve_eq Let_def)
  show ?thesis
  proof (cases "chi routes meth path")
    case (Inr rs)
    with n resp log show ?thesis by (auto simp: NewRouter_def respond_def answer_def)
  next
    case (Inl rt)
    let ?e = "rt_Endpoint rt"
    have run: "endpoint_handler a stats ?e r w = ((out, t'), w1)
        \<or> rt_Protected rt \<and> (\<exists>m. out = Some (writeError 401 m))"
      using n Inl by (auto simp: NewRouter_def APIKeyAuth_def Let_def split: if_splits)
    then show ?thesis
    proof
      assume "endpoint_handler a stats ?e r w = ((out, t'), w1)"
      from typed_endpoint [OF this] resp log Inl show ?thesis by (auto split: option.splits)
    qed (use resp log Inl in auto)
  qed
qed

section \<open>What a request keeps\<close>

lemma hkeeps_world [inv_intros]: "hkeeps P (\<lambda>w. (x, w))"
  by (simp add: hkeeps_def)

lemma hkeeps_fun [inv_intros]: "hkeeps P h \<Longrightarrow> hkeeps P (\<lambda>w. case h w of (x, w1) \<Rightarrow> (f x, w1))"
  by (auto simp: hkeeps_def split: prod.split)

lemma hkeeps_keeps: "keeps P m \<Longrightarrow> hkeeps P m"
  by (simp add: keeps_def hkeeps_def)

lemma winv_presign: "winv I w \<Longrightarrow> winv I (snd (presign_attachments s atts w))"
proof (induction atts arbitrary: w)
  case (Cons att atts)
  obtain r w1 where g: "GeneratePresignedURL s (att_S3Key att) presignedURLExpiry w = (r, w1)" by fastforce
  from Cons.IH [OF keepsD_eq [OF keeps_downloads(2) Cons.prems g]] g show ?case by (auto split: prod.split)
qed simp

lemma winv_download: "winv I w \<Longrightarrow> winv I (snd (download_attachments s atts w))"
proof (induction atts arbitrary: w)
  case (Cons att atts)
  obtain r w1 where g: "Download s (att_S3Key att) w = (r, w1)" by fastforce
  from Cons.IH [OF keepsD_eq [OF keeps_downloads(1) Cons.prems g]] g show ?case by (auto split: prod.split sum.split)
qed simp

lemma hkeeps_load [inv_intros]: "hkeeps (winv I) (load_and_answer a e)"
proof -
  have "hkeeps (winv I) (answer_message a e atts)" for atts
    by (simp add: hkeeps_def answer_message_def case_prod_beta winv_presign)
  then show ?thesis
    unfolding load_and_answer_def by (intro inv_intros)
qed

lemma winv_build:
  "winv I w \<Longrightarrow> winv I (snd (compose_Build x m email w))"
  using compose_Build_world [of x m email w] by (auto simp: winv_def)

context insert_invariant
begin

lemma hkeeps_GetMessage: "hkeeps (winv I) (GetMessage a r)"
proof -
  have "hkeeps (winv I) (fetch_on_demand a acc folder uid)" for acc folder uid
    unfolding fetch_on_demand_def by (intro inv_intros keeps_IngestEmail)
  then show ?thesis unfolding GetMessage_def Let_def by (intro inv_intros)
qed

lemma hkeeps_getOriginalEmail: "hkeeps (winv I) (getOriginalEmail a acc folder uid)"
proof -
  have "hkeeps (winv I) (EmailRepository_GetByUID acc folder uid)"
    by (intro hkeeps_keeps keeps_repository_reads)
  then show ?thesis
    unfolding getOriginalEmail_def by (intro inv_intros keeps_IngestEmail)
qed

lemma winv_context:
  assumes "winv I w" and "message_context a acc req w = (s, w1)"
  shows "winv I w1"
proof -
  have orig: "winv I v1" if "getOriginalEmail a acc folder uid w = (r, v1)" for folder uid r v1
    using hkeepsD [OF hkeeps_getOriginalEmail assms(1), of a acc folder uid] that by simp
  have reply: "winv I v1" if "buildReplyContext a acc folder uid q w = (c, v1)" for folder uid q c v1
    using that orig by (auto simp: buildReplyContext_def split: sum.splits prod.splits)
  have fwd: "winv I v1" if "buildForwardContext a acc folder uid q i w = (c, v1)" for folder uid q i c v1
  proof -
    have "winv I (snd (fetchOriginalAttachments a atts v))" if "winv I v" for atts v
      using winv_download [OF that, of "ap_storage a" atts] by (simp add: fetchOriginalAttachments_def case_prod_beta)
    with that orig show ?thesis
      by (auto simp: buildForwardContext_def Let_def split: sum.splits prod.splits if_splits) (metis snd_conv)+
  qed
  show ?thesis
    using assms reply fwd by (auto simp: message_context_def Let_def split: option.splits sum.splits prod.splits)
qed

lemma winv_deliver: "winv I w \<Longrightarrow> winv I (snd (deliver_message a account req email w))"
proof -
  assume w: "winv I w"
  obtain b w1 where b: "compose_Build (ap_ext a) (ap_mailer a) email w = (b, w1)" by fastforce
  with winv_build [OF w] have w1: "winv I w1" by (metis snd_conv)
  have "winv I (snd (storeSentEmail account raw req w1))" for raw
    unfolding storeSentEmail_def by (rule keepsD [OF keeps_repository_inserts(1) w1])
  with b w1 show ?thesis by (simp add: deliver_message_def case_prod_beta split: sum.split)
qed

lemma hkeeps_SendMessage: "hkeeps (winv I) (SendMessage a r)"
  unfolding hkeeps_def
proof (intro allI impI)
  fix w assume w: "winv I w"
  have get: "winv I w1" if "AccountRepository_Get x key acc w = (y, w1)" for x key acc y w1
    by (rule keepsD_eq [OF keeps_repository_reads(11) w that])
  have "winv I (snd (send_for_account a acc req account w1))" if w1: "winv I w1" for acc req account w1
    using winv_context [OF w1, of a acc req] w1
    by (auto simp: send_for_account_def split: sum.splits stage.splits prod.splits) (metis snd_conv winv_deliver)
  with get w show "winv I (snd (SendMessage a r w))"
    by (auto simp: SendMessage_def split: sum.splits option.splits prod.splits)
qed

end

context table_invariant
begin

lemma hkeeps_endpoint: "hkeeps (winv I) (endpoint_handler a stats e r)"
proof -
  have "hkeeps (winv I) (respond h r)" if "hkeeps (winv I) (h r)" for h
    using that by (simp add: hkeeps_def respond_def case_prod_beta)
  then show ?thesis
    by (cases e) (simp_all add: inv_intros hkeeps_writing_handlers hkeeps_GetMessage hkeeps_SendMessage)
qed

lemma hkeeps_serve: "hkeeps (winv I) (serve chi a stats meth path r)"
proof -
  have "hkeeps (winv I) (NewRouter chi a stats meth path r)"
    using hkeeps_endpoint
    by (auto simp: hkeeps_def NewRouter_def respond_def answer_def APIKeyAuth_def Let_def split: sum.split)
  then show ?thesis by (simp add: hkeeps_def serve_eq case_prod_beta Let_def)
qed

end

section \<open>Concrete requests\<close>

definition demo_chi :: mux where
  "demo_chi rs m p =
     (case find (\<lambda>rt. rt_Method rt = m \<and> rt_Pattern rt = p) rs of
        None \<Rightarrow> Inr \<lparr>rs_Status = 404, rs_Body = NoBody\<rparr>
      | Some rt \<Rightarrow> Inl rt)"

lemma demo_chi_documented: "mux_documented demo_chi"
  by (auto simp: mux_documented_def demo_chi_def find_Some_iff split: option.split)

lemma demo_chi_routes:
  "demo_chi routes ''GET'' ''/accounts/'' =
     Inl \<lparr>rt_Method = ''GET'', rt_Pattern = ''/accounts/'', rt_Protected = True, rt_Endpoint = EpAccountList\<rparr>"
  "demo_chi routes ''GET'' ''/health'' =
     Inl \<lparr>rt_Method = ''GET'', rt_Pattern = ''/health'', rt_Protected = False, rt_Endpoint = EpHealth\<rparr>"
  by (simp_all add: demo_chi_def routes_def)

definition demo_keyless :: http_request where
  "demo_keyless = demo_request\<lparr>hr_header := (\<lambda>_. [])\<rparr>"

theorem api_requires_key_witness:
  "\<exists>resp. serve demo_chi demo_api None ''GET'' ''/accounts/'' demo_keyless (demo_world demo_db)
       = (((resp, []), (LevelWarn, rs_Status resp)), demo_world demo_db)
     \<and> rs_Status resp \<in> {401, 404, 405}"
proof -
  obtain resp t logged w' where run:
    "serve demo_chi demo_api None ''GET'' ''/accounts/'' demo_keyless (demo_world demo_db) = (((resp, t), logged), w')"
    by (metis surj_pair)
  have key: "hr_header demo_keyless ''X-API-Key'' \<noteq> ap_APIKey demo_api" by (simp add: demo_keyless_def)
  from api_requires_key [OF demo_chi_documented key run] run show ?thesis by (auto simp: demo_chi_routes)
qed

theorem responses_typed_witness:
  "\<exists>resp log w'. serve demo_chi demo_api None ''GET'' ''/health'' demo_keyless (demo_world demo_db) = (((resp, []), log), w')
     \<and> typed EpHealth resp"
proof -
  obtain resp t level status w' where run:
    "serve demo_chi demo_api None ''GET'' ''/health'' demo_keyless (demo_world demo_db) = (((resp, t), (level, status)), w')"
    by (metis surj_pair)
  have "t = []" using run by (simp add: serve_eq NewRouter_def demo_chi_routes respond_def Health_def answer_def Let_def)
  with responses_typed [OF run] run show ?thesis by (auto simp: demo_chi_routes)
qed

end
