(* ===== verification/Program.thy ===== *)
theory Program
  imports Router WorkerRefinement
begin

text \<open>
  \<open>cmd/letterbox/main.go\<close>: the checks at start-up, how the components are put together, the loading of the
  stored accounts, and the order of the shutdown; then everything that runs at the same time as the
  interleaved steps of one state.
\<close>

section \<open>Start-up\<close>

text \<open>What the program is given: its configuration and the libraries and services that it calls.\<close>

record environment =
  env_ext :: externals
  env_config :: "Config res"
  env_pgxpool_New :: "string \<Rightarrow> unit res"
  env_presigner :: "S3Config \<Rightarrow> string \<Rightarrow> string \<Rightarrow> int \<Rightarrow> string res"
  env_imap :: imap_net
  env_smtp :: smtp_net
  env_mailer :: mailer
  env_read_envelope :: "string \<Rightarrow> envelope res"
  env_marshal :: "WebhookPayload \<Rightarrow> string res"
  env_new_request :: "string \<Rightarrow> unit res"
  env_endpoint :: "HttpRequest \<Rightarrow> int res"
  env_chi :: mux
  env_fts :: fts
  env_zone :: "time \<Rightarrow> int"
  env_parse_RFC3339 :: "string \<Rightarrow> time option"
  env_validate_account :: "createAccountRequest \<Rightarrow> validation"
  env_validate_webhook :: "createWebhookRequest \<Rightarrow> validation"
  env_validate_message :: "sendMessageRequest \<Rightarrow> validation"

text \<open>After a signal: \<open>Close\<close> of the coordinator waits for the pool, then for the poller, then for its event
  loops; then the worker, the server and the database connections are stopped.\<close>

datatype lifecycle =
  Serving | Signalled | ClosingPool | ClosingPoller | WaitingLoops | CoordinatorClosed | WorkerStopped | ServerStopped | Exited

primrec rank :: "lifecycle \<Rightarrow> nat" where
  "rank Serving = 0" | "rank Signalled = 1" | "rank ClosingPool = 2" | "rank ClosingPoller = 3"
| "rank WaitingLoops = 4" | "rank CoordinatorClosed = 5" | "rank WorkerStopped = 6" | "rank ServerStopped = 7"
| "rank Exited = 8"

lemma rank_inject: "rank l = rank m \<Longrightarrow> l = m"
  by (cases l; cases m) simp_all

instantiation lifecycle :: linorder
begin

definition less_eq_lifecycle :: "lifecycle \<Rightarrow> lifecycle \<Rightarrow> bool" where
  [simp]: "less_eq_lifecycle l m \<longleftrightarrow> rank l \<le> rank m"

definition less_lifecycle :: "lifecycle \<Rightarrow> lifecycle \<Rightarrow> bool" where
  [simp]: "less_lifecycle l m \<longleftrightarrow> rank l < rank m"

instance
  by standard (auto intro: rank_inject)

end

text \<open>Where \<open>loadExistingAccounts\<close> is: before its listing, in its loop with the accounts that are left, or inside
  \<open>AddAccount\<close>, before the registration.\<close>

datatype loading = NotListed | Loading "account list" | Registering "IdleConfig \<times> bool" "account list"

record program =
  pg_api :: api
  pg_chi :: mux
  pg_logger :: log_handler
  pg_coordinator :: Coordinator
  pg_worker :: Worker
  pg_loading :: loading
  pg_startup_cancelled :: bool
  pg_lifecycle :: lifecycle

definition s3_config :: "Config \<Rightarrow> S3Config" where
  "s3_config cfg =
     \<lparr>s3c_Endpoint = cfg_S3Endpoint cfg, s3c_Bucket = cfg_S3Bucket cfg, s3c_AccessKey = cfg_S3AccessKey cfg,
      s3c_SecretKey = cfg_S3SecretKey cfg, s3c_Region = cfg_S3Region cfg\<rparr>"

definition main_ingester :: "environment \<Rightarrow> S3Storage \<Rightarrow> string \<Rightarrow> Ingester" where
  "main_ingester env s3 key =
     \<lparr>ing_ext = env_ext env, ing_key = key, ing_storage = s3,
      ing_mailbox = (\<lambda>host port user password folder uid. fst (imap_FetchRaw (env_imap env) host port user password folder uid)),
      ing_read_envelope = env_read_envelope env\<rparr>"

definition main_producer :: "environment \<Rightarrow> S3Storage \<Rightarrow> string \<Rightarrow> Producer" where
  "main_producer env s3 key =
     \<lparr>prod_ext = env_ext env, prod_key = key, prod_storage = s3, prod_marshal = env_marshal env\<rparr>"

definition main_api :: "environment \<Rightarrow> Config \<Rightarrow> S3Storage \<Rightarrow> string \<Rightarrow> api" where
  "main_api env cfg s3 key =
     \<lparr>ap_ext = env_ext env, ap_key = key, ap_APIKey = cfg_APIKey cfg, ap_ingester = main_ingester env s3 key,
      ap_storage = s3, ap_imap = env_imap env, ap_smtp = env_smtp env, ap_mailer = env_mailer env,
      ap_fts = env_fts env, ap_zone = env_zone env, ap_parse_RFC3339 = env_parse_RFC3339 env,
      ap_validate_account = env_validate_account env, ap_validate_webhook = env_validate_webhook env,
      ap_validate_message = env_validate_message env\<rparr>"

text \<open>The program when its services are started. The worker's configuration is empty, so its defaults apply.\<close>

definition main_program :: "environment \<Rightarrow> Config \<Rightarrow> S3Storage \<Rightarrow> string \<Rightarrow> program" where
  "main_program env cfg s3 key =
     \<lparr>pg_api = main_api env cfg s3 key, pg_chi = env_chi env,
      pg_logger = fst (Setup (env_ext env) \<lparr>lgc_Level = cfg_LogLevel cfg, lgc_Format = cfg_LogFormat cfg\<rparr>),
      pg_coordinator = coordinator_Start (NewCoordinator (env_ext env) key (env_imap env) (main_ingester env s3 key)
        \<lparr>cc_PollInterval = 0, cc_EventHandler = Some (producer_EventHandler (main_producer env s3 key))\<rparr>),
      pg_worker = worker_Start (NewWorker (env_ext env) key (env_new_request env) (env_endpoint env)
        \<lparr>wc_PollInterval = 0, wc_BatchSize = 0, wc_HTTPTimeout = 0, wc_MaxRetries = 0\<rparr>),
      pg_loading = NotListed, pg_startup_cancelled = False, pg_lifecycle = Serving\<rparr>"

text \<open>\<open>log.Fatal\<close> ends the process with a message.\<close>

definition startup :: "environment \<Rightarrow> world \<Rightarrow> (string + program) \<times> world" where
  "startup env w =
     (case Load (env_config env) of
        Inl e \<Rightarrow> (Inl (''config error: '' @ msg e), w)
      | Inr cfg \<Rightarrow>
          (case env_pgxpool_New env (cfg_DatabaseURL cfg) of
             Inl e \<Rightarrow> (Inl (''database connection error: '' @ msg e), w)
           | Inr _ \<Rightarrow>
               (case db_Ping w of
                  (Inl e, w1) \<Rightarrow> (Inl (''database ping error: '' @ msg e), w1)
                | (Inr _, w1) \<Rightarrow>
                    (if cfg_APIKey cfg = [] then Inl ''LETTERBOX_API_KEY must not be empty''
                     else case NewS3Storage (env_presigner env) (s3_config cfg) of
                       Inl e \<Rightarrow> Inl (''S3 storage error: '' @ msg e)
                     | Inr s3 \<Rightarrow>
                         (case NewAccountRepository (EncryptionKeyBytes cfg) of
                            Inl e \<Rightarrow> Inl (''account repository error: '' @ msg e)
                          | Inr key \<Rightarrow>
                              (case NewWebhookRepository (EncryptionKeyBytes cfg) of
                                 Inl e \<Rightarrow> Inl (''webhook repository error: '' @ msg e)
                               | Inr _ \<Rightarrow> Inr (main_program env cfg s3 key))), w1))))"

definition syncStatusAdapter_Stats :: "program \<Rightarrow> CoordinatorStats" where
  "syncStatusAdapter_Stats p =
     (let stats = coordinator_Stats (pg_coordinator p)
      in \<lparr>cs_IdleAccounts = cs_IdleAccounts stats, cs_PolledAccounts = cs_PolledAccounts stats,
          cs_ConnectedIdle = cs_ConnectedIdle stats\<rparr>)"

section \<open>Loading the accounts\<close>

text \<open>The steps of \<open>loadExistingAccounts\<close>: the listing, and the two parts of a turn of its loop.\<close>

definition load_list :: "program \<Rightarrow> world \<Rightarrow> program \<times> world" where
  "load_list p w =
     (let c = pg_coordinator p in
      case AccountRepository_List (co_ext c) (co_key c) w of
        (Inl _, w1) \<Rightarrow> (p\<lparr>pg_loading := Loading []\<rparr>, w1)
      | (Inr accounts, w1) \<Rightarrow> (p\<lparr>pg_loading := Loading accounts\<rparr>, w1))"

definition load_next :: "account \<Rightarrow> account list \<Rightarrow> program \<Rightarrow> world \<Rightarrow> program \<times> world" where
  "load_next account accounts p w =
     (if pg_startup_cancelled p then (p\<lparr>pg_loading := Loading []\<rparr>, w)
      else case coordinator_probe (acc_ID account) (pg_coordinator p) w of
        (Inl _, w1) \<Rightarrow> (p\<lparr>pg_loading := Loading accounts\<rparr>, w1)
      | (Inr target, w1) \<Rightarrow> (p\<lparr>pg_loading := Registering target accounts\<rparr>, w1))"

definition load_register :: "IdleConfig \<times> bool \<Rightarrow> account list \<Rightarrow> program \<Rightarrow> program" where
  "load_register target accounts p =
     p\<lparr>pg_coordinator := snd (coordinator_register target (pg_coordinator p)), pg_loading := Loading accounts\<rparr>"

section \<open>Shutdown\<close>

text \<open>One step of \<open>main\<close> after the signal; it waits while goroutines of the pool, goroutines of the
  poller, and then event loops run.\<close>

fun shutdown_step :: "lifecycle \<Rightarrow> program \<Rightarrow> program option" where
  "shutdown_step Serving p = Some (p\<lparr>pg_startup_cancelled := True, pg_lifecycle := Signalled\<rparr>)"
| "shutdown_step Signalled p =
     (let c = pg_coordinator p
      in Some (p\<lparr>pg_coordinator := c\<lparr>co_closed := True, co_cancelled := True, co_pool := snd (IdlePool_Close (co_pool c))\<rparr>,
                 pg_lifecycle := ClosingPool\<rparr>))"
| "shutdown_step ClosingPool p =
     (let c = pg_coordinator p in
      case ip_closing (co_pool c) of
        None \<Rightarrow> None
      | Some ns \<Rightarrow>
          (if list_all (\<lambda>n. ae_pc (ip_entries (co_pool c) ! n) = GoroutineDone) ns
           then Some (p\<lparr>pg_coordinator := c\<lparr>co_pool := IdlePool_Close_end (co_pool c),
                                             co_poller := snd (Poller_Close (co_poller c))\<rparr>,
                        pg_lifecycle := ClosingPoller\<rparr>)
           else None))"
| "shutdown_step ClosingPoller p =
     (let c = pg_coordinator p in
      case pl_closing (co_poller c) of
        None \<Rightarrow> None
      | Some ns \<Rightarrow>
          (if list_all (\<lambda>n. ple_pc (pl_entries (co_poller c) ! n) = Returned) ns
           then Some (p\<lparr>pg_coordinator := c\<lparr>co_poller := Poller_Close_end (co_poller c)\<rparr>, pg_lifecycle := WaitingLoops\<rparr>)
           else None))"
| "shutdown_step WaitingLoops p =
     (if co_poolLoop (pg_coordinator p) \<or> co_pollerLoop (pg_coordinator p) then None
      else Some (p\<lparr>pg_lifecycle := CoordinatorClosed\<rparr>))"
| "shutdown_step CoordinatorClosed p = Some (p\<lparr>pg_worker := worker_Stop (pg_worker p), pg_lifecycle := WorkerStopped\<rparr>)"
| "shutdown_step WorkerStopped p = Some (p\<lparr>pg_lifecycle := ServerStopped\<rparr>)"
| "shutdown_step ServerStopped p = Some (p\<lparr>pg_lifecycle := Exited\<rparr>)"
| "shutdown_step Exited p = None"

section \<open>Everything that runs\<close>

text \<open>What a goroutine of the pool or of the poller does by itself: it registers and closes nothing, and reads no
  event for the coordinator.\<close>

definition pool_goroutine :: "IdlePool \<Rightarrow> IdlePool \<Rightarrow> bool" where
  "pool_goroutine q q' \<longleftrightarrow> pool_step True q q' \<and> ip_accounts q' = ip_accounts q \<and> ip_closed q' = ip_closed q
     \<and> ip_closing q' = ip_closing q \<and> length (ch_buf (ip_events q)) \<le> length (ch_buf (ip_events q'))"

definition poller_goroutine :: "Poller \<Rightarrow> Poller \<Rightarrow> bool" where
  "poller_goroutine q q' \<longleftrightarrow> poller_step True q q' \<and> pl_accounts q' = pl_accounts q \<and> pl_closed q' = pl_closed q
     \<and> pl_closing q' = pl_closing q \<and> length (ch_buf (pl_events q)) \<le> length (ch_buf (pl_events q'))"

inductive program_step :: "program \<times> world \<Rightarrow> program \<times> world \<Rightarrow> bool" where
  request: "pg_lifecycle p \<notin> {ServerStopped, Exited} \<Longrightarrow>
    serve (pg_chi p) (pg_api p) (Some (syncStatusAdapter_Stats p)) meth path r w = (out, w') \<Longrightarrow>
    program_step (p, w) (p, w')"
| load_start: "pg_loading p = NotListed \<Longrightarrow> program_step (p, w) (load_list p w)"
| load_one: "pg_loading p = Loading (account # accounts) \<Longrightarrow> program_step (p, w) (load_next account accounts p w)"
| load_end: "pg_loading p = Registering target accounts \<Longrightarrow> program_step (p, w) (load_register target accounts p, w)"
| pool_event: "co_poolLoop (pg_coordinator p) \<Longrightarrow> processPoolEvent first stops (pg_coordinator p) w = (c, w') \<Longrightarrow>
    program_step (p, w) (p\<lparr>pg_coordinator := c\<rparr>, w')"
| poller_event: "co_pollerLoop (pg_coordinator p) \<Longrightarrow> processPollerEvent first stops (pg_coordinator p) w = (c, w') \<Longrightarrow>
    program_step (p, w) (p\<lparr>pg_coordinator := c\<rparr>, w')"
| pool: "pool_goroutine (co_pool (pg_coordinator p)) q \<Longrightarrow>
    program_step (p, w) (p\<lparr>pg_coordinator := (pg_coordinator p)\<lparr>co_pool := q\<rparr>\<rparr>, w)"
| poller: "poller_goroutine (co_poller (pg_coordinator p)) q \<Longrightarrow>
    program_step (p, w) (p\<lparr>pg_coordinator := (pg_coordinator p)\<lparr>co_poller := q\<rparr>\<rparr>, w)"
| worker: "0 < wk_running (pg_worker p) \<Longrightarrow> program_step (p, w) (p, processBatch (pg_worker p) stops w)"
| time: "program_step (p, w) (p, w\<lparr>clock := t\<rparr>)"
| shutdown: "shutdown_step (pg_lifecycle p) p = Some p' \<Longrightarrow> program_step (p, w) (p', w)"

section \<open>The tables\<close>

text \<open>The event handler is a producer's, and the worker has its defaults: \<open>main\<close> sets both and nothing changes them.\<close>

definition wired :: "program \<Rightarrow> bool" where
  "wired p \<longleftrightarrow> (\<exists>producer. co_eventHandler (pg_coordinator p) = Some (producer_EventHandler producer))
     \<and> wc_MaxRetries (wk_config (pg_worker p)) = DefaultMaxRetries"

lemma wired_update [simp]:
  "co_eventHandler c = co_eventHandler (pg_coordinator p) \<Longrightarrow> wired (p\<lparr>pg_coordinator := c\<rparr>) = wired p"
  "wired (p\<lparr>pg_loading := l\<rparr>) = wired p" "wired (p\<lparr>pg_lifecycle := s\<rparr>) = wired p"
  "wired (p\<lparr>pg_startup_cancelled := b\<rparr>) = wired p" "wired (p\<lparr>pg_worker := worker_Stop (pg_worker p)\<rparr>) = wired p"
  by (simp_all add: wired_def worker_Stop_def)

text \<open>An event changes nothing of the coordinator but the last UIDs.\<close>

lemma handleEvent_fields:
  "handleEvent stops event c w = (c', w') \<Longrightarrow> \<exists>uids. c' = c\<lparr>co_lastUIDs := uids\<rparr>"
proof -
  have same: "\<exists>uids. c = c\<lparr>co_lastUIDs := uids\<rparr>" by (rule exI [of _ "co_lastUIDs c"]) simp
  assume "handleEvent stops event c w = (c', w')"
  then show ?thesis
    unfolding handleEvent_def using same
    by (auto split: if_splits sum.splits prod.splits option.splits)
qed

lemma processPoolEvent_fields:
  assumes "processPoolEvent first stops c w = (c', w')"
  shows "\<exists>uids ch loop. c' = c\<lparr>co_pool := (co_pool c)\<lparr>ip_events := ch\<rparr>, co_lastUIDs := uids, co_poolLoop := loop\<rparr>
    \<and> (ch = ip_events (co_pool c) \<or> ch = snd (chan_recv (ip_events (co_pool c))))"
proof (cases "\<not> (first \<and> co_cancelled c) \<and> (\<exists>event. fst (chan_recv (ip_events (co_pool c))) = Event event)")
  case True
  then obtain event ch where r: "chan_recv (ip_events (co_pool c)) = (Event event, ch)" by (metis prod.collapse)
  with True assms have "handleEvent stops event (c\<lparr>co_pool := (co_pool c)\<lparr>ip_events := ch\<rparr>\<rparr>) w = (c', w')"
    by (auto simp: processPoolEvent_def)
  from handleEvent_fields [OF this] obtain uids where "c' = c\<lparr>co_pool := (co_pool c)\<lparr>ip_events := ch\<rparr>, co_lastUIDs := uids\<rparr>"
    by auto
  with r show ?thesis
    by (intro exI [of _ uids] exI [of _ ch] exI [of _ "co_poolLoop c"]) simp
next
  case False
  with assms have "c' = c\<lparr>co_poolLoop := False\<rparr> \<or> c' = c\<lparr>co_poolLoop := co_poolLoop c\<rparr>"
    by (auto simp: processPoolEvent_def split: if_splits prod.splits received.splits)
  then obtain loop where "c' = c\<lparr>co_poolLoop := loop\<rparr>" by blast
  then show ?thesis
    by (intro exI [of _ "co_lastUIDs c"] exI [of _ "ip_events (co_pool c)"] exI [of _ loop]) simp
qed

lemma processPollerEvent_fields:
  assumes "processPollerEvent first stops c w = (c', w')"
  shows "\<exists>uids ch loop. c' = c\<lparr>co_poller := (co_poller c)\<lparr>pl_events := ch\<rparr>, co_lastUIDs := uids, co_pollerLoop := loop\<rparr>
    \<and> (ch = pl_events (co_poller c) \<or> ch = snd (chan_recv (pl_events (co_poller c))))"
proof (cases "\<not> (first \<and> co_cancelled c) \<and> (\<exists>event. fst (chan_recv (pl_events (co_poller c))) = Event event)")
  case True
  then obtain event ch where r: "chan_recv (pl_events (co_poller c)) = (Event event, ch)" by (metis prod.collapse)
  with True assms have "handleEvent stops event (c\<lparr>co_poller := (co_poller c)\<lparr>pl_events := ch\<rparr>\<rparr>) w = (c', w')"
    by (auto simp: processPollerEvent_def)
  from handleEvent_fields [OF this] obtain uids where "c' = c\<lparr>co_poller := (co_poller c)\<lparr>pl_events := ch\<rparr>, co_lastUIDs := uids\<rparr>"
    by auto
  with r show ?thesis
    by (intro exI [of _ uids] exI [of _ ch] exI [of _ "co_pollerLoop c"]) simp
next
  case False
  with assms have "c' = c\<lparr>co_pollerLoop := False\<rparr> \<or> c' = c\<lparr>co_pollerLoop := co_pollerLoop c\<rparr>"
    by (auto simp: processPollerEvent_def split: if_splits prod.splits received.splits)
  then obtain loop where "c' = c\<lparr>co_pollerLoop := loop\<rparr>" by blast
  then show ?thesis
    by (intro exI [of _ "co_lastUIDs c"] exI [of _ "pl_events (co_poller c)"] exI [of _ loop]) simp
qed

lemma register_coordinator:
  fixes c :: Coordinator and target :: "IdleConfig \<times> bool"
  defines "c' \<equiv> snd (coordinator_register target c)"
  shows "c' = c \<or> (\<exists>config q. IdlePool_AddAccount config (co_pool c) = (Inr (), q) \<and> c' = c\<lparr>co_pool := q\<rparr>)
    \<or> (\<exists>config q. Poller_AddAccount config (co_poller c) = (Inr (), q) \<and> c' = c\<lparr>co_poller := q\<rparr>)"
proof -
  have pool: "q = co_pool c \<or> x = Inr ()" if "IdlePool_AddAccount config (co_pool c) = (x, q)" for config x q
    using that by (auto simp: IdlePool_AddAccount_def split: sum.splits if_splits)
  have poller: "q = co_poller c \<or> x = Inr ()" if "Poller_AddAccount config (co_poller c) = (x, q)" for config x q
    using that by (auto simp: Poller_AddAccount_def split: sum.splits if_splits)
  show ?thesis
  proof (cases "snd target")
    case True
    obtain x q where "IdlePool_AddAccount (fst target) (co_pool c) = (x, q)" by fastforce
    with True pool [OF this] show ?thesis by (auto simp: c'_def coordinator_register_def)
  next
    case False
    obtain x q where "Poller_AddAccount (fst target) (co_poller c) = (x, q)" by fastforce
    with False poller [OF this] show ?thesis by (auto simp: c'_def coordinator_register_def)
  qed
qed

lemma lifecycle_wired: "shutdown_step l p = Some p' \<Longrightarrow> wired p' = wired p"
  by (cases l) (auto simp: Let_def wired_def worker_Stop_def split: option.splits if_splits)

lemma wired_step: "program_step x y \<Longrightarrow> wired (fst x) \<Longrightarrow> wired (fst y)"
proof (induction rule: program_step.induct)
  case (load_start p w)
  then show ?case by (simp add: load_list_def Let_def split: prod.split sum.split)
next
  case (load_one p account accounts w)
  then show ?case by (simp add: load_next_def split: prod.split sum.split)
next
  case (load_end p target accounts w)
  with register_coordinator [of target "pg_coordinator p"] show ?case by (auto simp: load_register_def wired_def)
next
  case (pool_event p first stops w c w')
  from processPoolEvent_fields [OF pool_event(2)] pool_event(3) show ?case by auto
next
  case (poller_event p first stops w c w')
  from processPollerEvent_fields [OF poller_event(2)] poller_event(3) show ?case by auto
qed (simp_all add: lifecycle_wired)

context insert_invariant
begin

lemma winv_processEvents:
  assumes w: "winv I w" and h: "co_eventHandler c = Some (producer_EventHandler producer)"
  shows "winv I (snd (processPoolEvent first stops c w))" and "winv I (snd (processPollerEvent first stops c w))"
proof -
  have "winv I (producer_EventHandler producer email v)" if "winv I v" for email v
    unfolding producer_EventHandler_def by (rule keepsD [OF keeps_QueueForEmail that])
  then have "winv I (snd (handleEvent stops event c' w))" if "co_eventHandler c' = co_eventHandler c" for event c'
    by (intro winv_handleEvent w) (simp add: that h)
  then show "winv I (snd (processPoolEvent first stops c w))" "winv I (snd (processPollerEvent first stops c w))"
    using w by (simp_all add: processPoolEvent_def processPollerEvent_def split: prod.split received.split)
qed

lemma winv_probe: "winv I w \<Longrightarrow> winv I (snd (coordinator_probe i c w))"
proof -
  assume w: "winv I w"
  have get: "winv I w1" if "AccountRepository_Get x key acc w = (y, w1)" for x key acc y w1
    by (rule keepsD_eq [OF keeps_repository_reads(11) w that])
  have "winv I w2" if "imap_io op w1 = (y, w2)" "winv I w1" for op :: "bool imap" and y w1 w2
    by (rule keepsD_eq [OF keeps_imap_io that(2,1)])
  with get w show ?thesis
    by (auto simp: coordinator_probe_def Let_def split: sum.splits prod.splits)
qed

end

context queue_invariant
begin

text \<open>Every step of the program keeps a predicate that the statements and the worker's retries keep.\<close>

lemma winv_step:
  assumes "program_step x y" and "wired (fst x)" and "winv I (snd x)" and "limit = DefaultMaxRetries"
  shows "winv I (snd y)"
  using assms
proof (induction rule: program_step.induct)
  case (request p meth path r w out w')
  with hkeepsD [OF hkeeps_serve, of w] show ?case by (metis snd_conv)
next
  case (load_start p w)
  have "winv I (snd (AccountRepository_List (co_ext (pg_coordinator p)) (co_key (pg_coordinator p)) w))"
    by (rule keepsD [OF keeps_repository_reads(12)]) (use load_start in simp)
  then show ?case by (simp add: load_list_def Let_def split: prod.split sum.split) (metis snd_conv)
next
  case (load_one p account accounts w)
  then show ?case
    using winv_probe [of w "acc_ID account" "pg_coordinator p"]
    by (auto simp: load_next_def split: prod.split sum.split)
next
  case (pool_event p first stops w c w')
  then show ?case using winv_processEvents(1) [of w "pg_coordinator p"] by (auto simp: wired_def) (metis snd_conv)
next
  case (poller_event p first stops w c w')
  then show ?case using winv_processEvents(2) [of w "pg_coordinator p"] by (auto simp: wired_def) (metis snd_conv)
next
  case (worker p w stops)
  then show ?case by (simp add: wired_def winv_processBatch)
next
  case (time p w t)
  then show ?case by (simp add: winv_clock)
qed simp_all

end

section \<open>The goroutines and the shutdown\<close>

text \<open>How far the pool, the poller and the worker are shut down in each stage.\<close>

definition stage_ok :: "lifecycle \<Rightarrow> Coordinator \<Rightarrow> Worker \<Rightarrow> bool" where
  "stage_ok l c wk \<longleftrightarrow>
     (co_closed c \<longleftrightarrow> ClosingPool \<le> l) \<and> (ip_closed (co_pool c) \<longleftrightarrow> ClosingPool \<le> l)
   \<and> (ip_closing (co_pool c) \<noteq> None \<longleftrightarrow> l = ClosingPool) \<and> (ch_closed (ip_events (co_pool c)) \<longleftrightarrow> ClosingPoller \<le> l)
   \<and> (pl_closed (co_poller c) \<longleftrightarrow> ClosingPoller \<le> l) \<and> (pl_closing (co_poller c) \<noteq> None \<longleftrightarrow> l = ClosingPoller)
   \<and> (ch_closed (pl_events (co_poller c)) \<longleftrightarrow> WaitingLoops \<le> l)
   \<and> (ClosingPool \<le> l \<longrightarrow> co_cancelled c) \<and> (CoordinatorClosed \<le> l \<longrightarrow> \<not> co_poolLoop c \<and> \<not> co_pollerLoop c)
   \<and> (wk_closed wk \<longleftrightarrow> WorkerStopped \<le> l) \<and> (WorkerStopped \<le> l \<longrightarrow> wk_running wk = 0)
   \<and> ip_removing (co_pool c) = [] \<and> pl_removing (co_poller c) = []
   \<and> (ClosingPool \<le> l \<longrightarrow> ip_cancelled (co_pool c)) \<and> (ClosingPoller \<le> l \<longrightarrow> pl_cancelled (co_poller c))
   \<and> (\<forall>ns. ip_closing (co_pool c) = Some ns \<longrightarrow> (\<forall>m\<in>set ns. m < length (ip_entries (co_pool c))))"

definition sync_ok :: "program \<Rightarrow> bool" where
  "sync_ok p \<longleftrightarrow>
     (pool_step True)\<^sup>*\<^sup>* NewIdlePool (co_pool (pg_coordinator p))
   \<and> (poller_step True)\<^sup>*\<^sup>* (NewPoller sync_DefaultPollInterval) (co_poller (pg_coordinator p))
   \<and> stage_ok (pg_lifecycle p) (pg_coordinator p) (pg_worker p)"

text \<open>What the goroutines leave as it is.\<close>

lemma map_of_removed: "map_of xs k = Some v \<Longrightarrow> filter (\<lambda>a. fst a \<noteq> k) xs \<noteq> xs"
  by (metis (mono_tags, lifting) filter_id_conv fst_conv map_of_SomeD)

lemma update_same [simp]:
  "ip_cancelled (update_entry n f q) = ip_cancelled q" "ip_cancelled (update_conn k g q) = ip_cancelled q"
  "ip_cancelled (closeConnection n q) = ip_cancelled q" "ip_cancelled (forward_close n k q) = ip_cancelled q"
  "ip_cancelled (account_connected n r q) = ip_cancelled q" "ip_cancelled (account_top n q) = ip_cancelled q"
  by (simp_all add: update_entry_def update_conn_def closeConnection_def forward_close_def account_connected_def
      account_top_def split: option.split sum.split)

lemma pool_goroutine_same:
  assumes "pool_goroutine q q'" and "ip_removing q = []"
  shows "ip_removing q' = []" and "ch_closed (ip_events q') = ch_closed (ip_events q)" and "ip_cancelled q' = ip_cancelled q"
    and "length (ip_entries q') = length (ip_entries q)"
proof -
  have step: "pool_step True q q'" and same: "ip_accounts q' = ip_accounts q" "ip_closed q' = ip_closed q" "ip_closing q' = ip_closing q"
    using assms(1) by (simp_all add: pool_goroutine_def)
  from step same assms(2) have "ip_removing q' = [] \<and> ch_closed (ip_events q') = ch_closed (ip_events q) \<and> ip_cancelled q' = ip_cancelled q
      \<and> length (ip_entries q') = length (ip_entries q)"
  proof (induction rule: pool_step.induct)
    case (remove acc q n q')
    then show ?case
      by (auto simp: IdlePool_RemoveAccount_def dest: map_of_removed split: if_splits option.splits)
  next
    case (close q q')
    then show ?case by (auto simp: IdlePool_Close_def split: if_splits)
  qed (auto simp: IdlePool_AddAccount_def IdlePool_Close_end_def account_top_def account_connected_def closeConnection_def
      forward_close_def forward_check_def forward_send_def update_entry_def update_conn_def split: if_splits sum.splits option.splits)
  then show "ip_removing q' = []" "ch_closed (ip_events q') = ch_closed (ip_events q)" "ip_cancelled q' = ip_cancelled q"
    "length (ip_entries q') = length (ip_entries q)" by auto
qed

lemma poller_goroutine_same:
  assumes "poller_goroutine q q'" and "pl_removing q = []"
  shows "pl_removing q' = []" and "ch_closed (pl_events q') = ch_closed (pl_events q)" and "pl_cancelled q' = pl_cancelled q"
proof -
  have step: "poller_step True q q'" and same: "pl_accounts q' = pl_accounts q" "pl_closed q' = pl_closed q" "pl_closing q' = pl_closing q"
    using assms(1) by (simp_all add: poller_goroutine_def)
  from step same assms(2) have "pl_removing q' = [] \<and> ch_closed (pl_events q') = ch_closed (pl_events q) \<and> pl_cancelled q' = pl_cancelled q"
  proof (induction rule: poller_step.induct)
    case (remove acc q n q')
    then show ?case
      by (auto simp: Poller_RemoveAccount_def dest: map_of_removed split: if_splits option.splits)
  next
    case (close q q')
    then show ?case by (auto simp: Poller_Close_def split: if_splits)
  qed (auto simp: Poller_AddAccount_def Poller_Close_end_def goto_pc_def set_entry_def split: if_splits sum.splits)
  then show "pl_removing q' = []" "ch_closed (pl_events q') = ch_closed (pl_events q)" "pl_cancelled q' = pl_cancelled q" by auto
qed

lemma sync_ok_register:
  assumes "sync_ok p"
  shows "sync_ok (p\<lparr>pg_coordinator := snd (coordinator_register target (pg_coordinator p))\<rparr>)" (is "sync_ok (p\<lparr>pg_coordinator := ?c\<rparr>)")
  using register_coordinator [of target "pg_coordinator p"]
proof (elim disjE conjE exE)
  assume "?c = pg_coordinator p"
  then show ?thesis using assms(1) by simp
next
  fix config q
  assume add: "IdlePool_AddAccount config (co_pool (pg_coordinator p)) = (Inr (), q)" "?c = (pg_coordinator p)\<lparr>co_pool := q\<rparr>"
  moreover have "pool_step True (co_pool (pg_coordinator p)) q" using add(1) by (rule pool_step.add)
  ultimately show ?thesis using assms(1)
    by (auto simp: sync_ok_def stage_ok_def IdlePool_AddAccount_def split: sum.splits if_splits)
next
  fix config q
  assume add: "Poller_AddAccount config (co_poller (pg_coordinator p)) = (Inr (), q)" "?c = (pg_coordinator p)\<lparr>co_poller := q\<rparr>"
  moreover have "poller_step True (co_poller (pg_coordinator p)) q" using add(1) by (rule poller_step.add)
  ultimately show ?thesis using assms(1)
    by (auto simp: sync_ok_def stage_ok_def Poller_AddAccount_def split: sum.splits if_splits)
qed

lemma sync_ok_shutdown:
  assumes ok: "sync_ok p" and step: "shutdown_step (pg_lifecycle p) p = Some p'"
  shows "sync_ok p'"
proof (cases "pg_lifecycle p")
  case Signalled
  let ?q = "co_pool (pg_coordinator p)"
  have "\<not> ip_closed ?q" "ip_removing ?q = []" using ok Signalled by (simp_all add: sync_ok_def stage_ok_def)
  then have close: "pool_step True ?q (snd (IdlePool_Close ?q))"
    by (intro pool_step.close) (simp_all add: IdlePool_Close_def)
  have "n < length (ip_entries ?q)" if "(i, n) \<in> set (ip_accounts ?q)" for i n
    using pool.reachable_ok [of True ?q] ok that by (force simp: sync_ok_def pool_ok_def accounts_ok_def)
  with close ok step Signalled show ?thesis
    by (auto simp: sync_ok_def stage_ok_def Let_def IdlePool_Close_def)
next
  case ClosingPool
  let ?c = "pg_coordinator p"
  obtain ns where ns: "ip_closing (co_pool ?c) = Some ns"
    "list_all (\<lambda>n. ae_pc (ip_entries (co_pool ?c) ! n) = GoroutineDone) ns"
    using step ClosingPool by (auto simp: Let_def split: option.splits if_splits)
  have "pool_step True (co_pool ?c) (IdlePool_Close_end (co_pool ?c))"
    using ns ok by (intro pool_step.close_end [OF ns(1)]) (simp add: sync_ok_def stage_ok_def list_all_iff)
  moreover have "poller_step True (co_poller ?c) (snd (Poller_Close (co_poller ?c)))"
    using ok ClosingPool by (intro poller_step.close) (simp_all add: Poller_Close_def sync_ok_def stage_ok_def)
  ultimately show ?thesis using ok step ClosingPool ns
    by (auto simp: sync_ok_def stage_ok_def Let_def IdlePool_Close_end_def Poller_Close_def)
next
  case ClosingPoller
  let ?c = "pg_coordinator p"
  obtain ns where ns: "pl_closing (co_poller ?c) = Some ns"
    "list_all (\<lambda>n. ple_pc (pl_entries (co_poller ?c) ! n) = Returned) ns"
    using step ClosingPoller by (auto simp: Let_def split: option.splits if_splits)
  have "(poller_step True)\<^sup>*\<^sup>* (NewPoller sync_DefaultPollInterval) (co_poller ?c)" using ok by (simp add: sync_ok_def)
  then have "poller_ok (co_poller ?c)" by (rule poller.reachable_ok)
  with ns have "poller_step True (co_poller ?c) (Poller_Close_end (co_poller ?c))"
    by (intro poller_step.close_end [OF ns(1)]) (simp add: poller_ok_def list_all_iff)
  with ok step ClosingPoller ns show ?thesis
    by (auto simp: sync_ok_def stage_ok_def Let_def Poller_Close_end_def)
next
  case WaitingLoops
  with step have "\<not> co_poolLoop (pg_coordinator p)" "\<not> co_pollerLoop (pg_coordinator p)"
    and p': "p' = p\<lparr>pg_lifecycle := CoordinatorClosed\<rparr>" by (auto split: if_splits)
  with ok WaitingLoops show ?thesis by (simp add: sync_ok_def stage_ok_def)
next
  case CoordinatorClosed
  with ok step show ?thesis by (auto simp: sync_ok_def stage_ok_def worker_Stop_def)
qed (use ok step in \<open>auto simp: sync_ok_def stage_ok_def\<close>)

lemma sync_ok_step: "program_step x y \<Longrightarrow> sync_ok (fst x) \<Longrightarrow> sync_ok (fst y)"
proof (induction rule: program_step.induct)
  case (load_start p w)
  then show ?case by (simp add: load_list_def Let_def sync_ok_def split: prod.split sum.split)
next
  case (load_one p account accounts w)
  then show ?case by (simp add: load_next_def sync_ok_def split: prod.split sum.split)
next
  case (load_end p target accounts w)
  with sync_ok_register [of p target] show ?case by (simp add: load_register_def sync_ok_def)
next
  case (pool_event p first stops w c w')
  let ?c = "pg_coordinator p"
  obtain uids ch loop where c: "c = ?c\<lparr>co_pool := (co_pool ?c)\<lparr>ip_events := ch\<rparr>, co_lastUIDs := uids, co_poolLoop := loop\<rparr>"
    and ch: "ch = ip_events (co_pool ?c) \<or> ch = snd (chan_recv (ip_events (co_pool ?c)))"
    using processPoolEvent_fields [OF pool_event(2)] by blast
  have reach: "(pool_step True)\<^sup>*\<^sup>* NewIdlePool (co_pool ?c)" using pool_event(3) by (simp add: sync_ok_def)
  have "(pool_step True)\<^sup>*\<^sup>* NewIdlePool ((co_pool ?c)\<lparr>ip_events := ch\<rparr>)"
    using ch reach rtranclp.rtrancl_into_rtrancl [OF reach pool_step.receive] by (elim disjE) simp_all
  moreover have "ch_closed ch = ch_closed (ip_events (co_pool ?c))" using ch by (elim disjE) simp_all
  ultimately show ?case using pool_event(1,3) by (simp add: sync_ok_def stage_ok_def c)
next
  case (poller_event p first stops w c w')
  let ?c = "pg_coordinator p"
  obtain uids ch loop where c: "c = ?c\<lparr>co_poller := (co_poller ?c)\<lparr>pl_events := ch\<rparr>, co_lastUIDs := uids, co_pollerLoop := loop\<rparr>"
    and ch: "ch = pl_events (co_poller ?c) \<or> ch = snd (chan_recv (pl_events (co_poller ?c)))"
    using processPollerEvent_fields [OF poller_event(2)] by blast
  have reach: "(poller_step True)\<^sup>*\<^sup>* (NewPoller sync_DefaultPollInterval) (co_poller ?c)"
    using poller_event(3) by (simp add: sync_ok_def)
  have "(poller_step True)\<^sup>*\<^sup>* (NewPoller sync_DefaultPollInterval) ((co_poller ?c)\<lparr>pl_events := ch\<rparr>)"
    using ch reach rtranclp.rtrancl_into_rtrancl [OF reach poller_step.receive] by (elim disjE) simp_all
  moreover have "ch_closed ch = ch_closed (pl_events (co_poller ?c))" using ch by (elim disjE) simp_all
  ultimately show ?case using poller_event(1,3) by (simp add: sync_ok_def stage_ok_def c)
next
  case (pool p q w)
  let ?q = "co_pool (pg_coordinator p)"
  have reach: "(pool_step True)\<^sup>*\<^sup>* NewIdlePool ?q" and removing: "ip_removing ?q = []"
    using pool(2) by (simp_all add: sync_ok_def stage_ok_def)
  have "(pool_step True)\<^sup>*\<^sup>* NewIdlePool q" and same: "ip_closed q = ip_closed ?q" "ip_closing q = ip_closing ?q"
    using pool(1) rtranclp.rtrancl_into_rtrancl [OF reach] by (simp_all add: pool_goroutine_def)
  with pool_goroutine_same [OF pool(1) removing] pool(2) show ?case by (simp add: sync_ok_def stage_ok_def)
next
  case (poller p q w)
  let ?q = "co_poller (pg_coordinator p)"
  have reach: "(poller_step True)\<^sup>*\<^sup>* (NewPoller sync_DefaultPollInterval) ?q" and removing: "pl_removing ?q = []"
    using poller(2) by (simp_all add: sync_ok_def stage_ok_def)
  have "(poller_step True)\<^sup>*\<^sup>* (NewPoller sync_DefaultPollInterval) q"
    and same: "pl_closed q = pl_closed ?q" "pl_closing q = pl_closing ?q"
    using poller(1) rtranclp.rtrancl_into_rtrancl [OF reach] by (simp_all add: poller_goroutine_def)
  with poller_goroutine_same [OF poller(1) removing] poller(2) show ?case by (simp add: sync_ok_def stage_ok_def)
next
  case (shutdown p p' w)
  then show ?case using sync_ok_shutdown by simp
qed simp_all

lemma startup_ok:
  assumes "startup env w0 = (Inr p, w)"
  shows "wired p" and "sync_ok p" and "pg_lifecycle p = Serving" and "snd (db_Ping w0) = w"
proof -
  obtain cfg s3 key where p: "p = main_program env cfg s3 key" and w: "snd (db_Ping w0) = w"
    using assms by (auto simp: startup_def split: sum.splits prod.splits if_splits)
  show "wired p"
    by (simp add: p wired_def main_program_def coordinator_Start_def NewCoordinator_def worker_Start_def NewWorker_def) blast
  show "sync_ok p"
    by (simp add: p sync_ok_def stage_ok_def main_program_def coordinator_Start_def NewCoordinator_def worker_Start_def
        NewWorker_def NewIdlePool_def NewPoller_def Let_def)
  show "pg_lifecycle p = Serving" by (simp add: p main_program_def)
  show "snd (db_Ping w0) = w" by (rule w)
qed

lemma reachable_program_ok:
  assumes start: "startup env w0 = (Inr p0, w1)" and run: "program_step\<^sup>*\<^sup>* (p0, w1) (p, w)"
  shows "wired p \<and> sync_ok p"
proof -
  have "wired (fst y) \<and> sync_ok (fst y)" if "program_step\<^sup>*\<^sup>* (p0, w1) y" for y
    using that by (induction rule: rtranclp_induct) (auto simp: startup_ok [OF start] dest: wired_step sync_ok_step)
  with run show ?thesis by force
qed

context queue_invariant
begin

lemma winv_program:
  assumes start: "startup env w0 = (Inr p0, w1)" and w: "winv I w0" and run: "program_step\<^sup>*\<^sup>* (p0, w1) y"
    and limit: "limit = DefaultMaxRetries"
  shows "wired (fst y) \<and> winv I (snd y)"
  using run
proof (induction rule: rtranclp_induct)
  case base
  have "keeps (winv I) db_Ping" unfolding db_Ping_def by (intro keeps_winv_call) simp
  with w startup_ok [OF start] show ?case by (metis fst_conv keepsD snd_conv)
next
  case (step y z)
  with winv_step [OF step(2) _ _ limit] wired_step show ?case by blast
qed

end

text \<open>C3: Whatever the program does at the same time, from a successful start-up on: requests, mailbox events, the
  goroutines of the pool and of the poller, the worker, the loading of accounts and the shutdown in any
  interleaving, with failing calls and other writers that keep the tables consistent, the tables stay
  consistent and every queue row has counted between zero and four attempts; no goroutine sends on or closes a closed
  channel; and when \<open>main\<close> returns every goroutine of the synchroniser, both event loops and the worker have ended.\<close>

theorem program_safe:
  assumes start: "startup env w0 = (Inr p0, w1)"
    and tables: "winv (\<lambda>d. db_inv d \<and> attempts_ok DefaultMaxRetries d) w0"
    and run: "program_step\<^sup>*\<^sup>* (p0, w1) (p, w)"
  shows "db_inv (db w) \<and> (\<forall>row\<in>set (tQueue (db w)). 0 \<le> item_attempts row \<and> item_attempts row < DefaultMaxRetries)
    \<and> \<not> ch_panicked (ip_events (co_pool (pg_coordinator p))) \<and> \<not> ch_panicked (pl_events (co_poller (pg_coordinator p)))
    \<and> (\<forall>ic\<in>set (ip_conns (co_pool (pg_coordinator p))). \<not> ch_panicked (icn_events ic))
    \<and> (pg_lifecycle p = Exited \<longrightarrow>
         (\<forall>entry\<in>set (ip_entries (co_pool (pg_coordinator p))). ae_pc entry = GoroutineDone)
       \<and> (\<forall>entry\<in>set (pl_entries (co_poller (pg_coordinator p))). ple_pc entry = Returned)
       \<and> \<not> co_poolLoop (pg_coordinator p) \<and> \<not> co_pollerLoop (pg_coordinator p) \<and> wk_running (pg_worker p) = 0)"
proof -
  let ?pool = "co_pool (pg_coordinator p)" and ?poller = "co_poller (pg_coordinator p)"
  have five: "int32 DefaultMaxRetries = DefaultMaxRetries" by (simp add: DefaultMaxRetries_def int32_id)
  have "winv db_inv w0" "winv (attempts_ok (int32 DefaultMaxRetries)) w0"
    using tables by (auto simp: winv_def five)
  then have "winv db_inv w" "winv (attempts_ok (int32 DefaultMaxRetries)) w"
    using queue_tables.winv_program [OF start _ run, of DefaultMaxRetries] attempts.winv_program [OF start _ run five]
    by auto
  then have "db_inv (db w)" "attempts_ok DefaultMaxRetries (db w)" by (simp_all add: winv_def five)
  then have db: "db_inv (db w)" "\<forall>row\<in>set (tQueue (db w)). 0 \<le> item_attempts row \<and> item_attempts row < DefaultMaxRetries"
    by (auto simp: attempts_ok_def count_ok_def DefaultMaxRetries_def)
  have pool: "(pool_step True)\<^sup>*\<^sup>* NewIdlePool ?pool"
    and poller: "(poller_step True)\<^sup>*\<^sup>* (NewPoller sync_DefaultPollInterval) ?poller"
    and stage: "stage_ok (pg_lifecycle p) (pg_coordinator p) (pg_worker p)"
    using reachable_program_ok [OF start run] by (simp_all add: sync_ok_def)
  have conns: "\<forall>ic\<in>set (ip_conns ?pool). \<not> ch_panicked (icn_events ic)"
    using pool.reachable_ok [OF pool] by (simp add: pool_ok_def connection_ok_def chan_ok_def)
  have "ch_closed (ip_events ?pool)" "ch_closed (pl_events ?poller)"
    "\<not> co_poolLoop (pg_coordinator p)" "\<not> co_pollerLoop (pg_coordinator p)" "wk_running (pg_worker p) = 0"
    if "pg_lifecycle p = Exited" using stage that by (simp_all add: stage_ok_def)
  then show ?thesis
    using db conns pool.never_panics [OF pool] poller.never_panics [OF poller]
      pool_all_done [OF pool] poller_all_returned [OF poller]
    by (simp add: pool_view_def poller_view_def)
qed

section \<open>The shutdown comes to its end\<close>

lemma sum_list_update_less:
  fixes f :: "'a \<Rightarrow> nat"
  assumes "n < length xs" and "f y < f (xs ! n)"
  shows "sum_list (map f (xs[n := y])) < sum_list (map f xs)"
proof -
  have "f (xs ! n) \<le> sum_list (map f xs)" using assms(1) by (intro member_le_sum_list) simp_all
  with assms show ?thesis by (simp add: map_update sum_list_update)
qed

fun pool_pc_rank :: "pool_pc \<Rightarrow> nat" where
  "pool_pc_rank GoroutineDone = 0" | "pool_pc_rank AtTop = 1" | "pool_pc_rank AtLeave = 2" | "pool_pc_rank AtBackoff = 2"
| "pool_pc_rank AtConnect = 3" | "pool_pc_rank (AtForward k) = 3" | "pool_pc_rank (AtCheck e k) = 4"
| "pool_pc_rank (AtSendEvent e k) = 5"

definition pool_rank :: "IdlePool \<Rightarrow> nat" where
  "pool_rank q = sum_list (map (\<lambda>e. pool_pc_rank (ae_pc e)) (ip_entries q))"

lemma pool_rank_less:
  "ip_entries q' = (ip_entries q)[n := e] \<Longrightarrow> n < length (ip_entries q) \<Longrightarrow>
     pool_pc_rank (ae_pc e) < pool_pc_rank (ae_pc (ip_entries q ! n)) \<Longrightarrow> pool_rank q' < pool_rank q"
  by (simp add: pool_rank_def sum_list_update_less)

text \<open>Once the pool is closed, a goroutine that has not returned can take a step towards its return.\<close>

lemma pool_progress:
  assumes c: "ip_closed q" "ip_cancelled q" and n: "n < length (ip_entries q)" and pc: "ae_pc (ip_entries q ! n) \<noteq> GoroutineDone"
  shows "\<exists>q'. pool_goroutine q q' \<and> pool_rank q' < pool_rank q"
proof -
  have step: ?thesis
    if "pool_step True q q'" "ip_accounts q' = ip_accounts q" "ip_closed q' = ip_closed q" "ip_closing q' = ip_closing q"
      "length (ch_buf (ip_events q)) \<le> length (ch_buf (ip_events q'))" "ip_entries q' = (ip_entries q)[n := e]"
      "pool_pc_rank (ae_pc e) < pool_pc_rank (ae_pc (ip_entries q ! n))" for q' e
    using that pool_rank_less [OF that(6) n that(7)] by (auto simp: pool_goroutine_def)
  have stopping: "stopping n q" using c by (simp add: stopping_def)
  let ?e = "ip_entries q ! n"
  note defs = update_entry_def update_conn_def
  show ?thesis
  proof (cases "ae_pc ?e")
    case AtTop
    show ?thesis
      by (rule step [OF pool_step.top [OF n AtTop], of "go GoroutineDone (case ae_conn ?e of None \<Rightarrow> ?e | Some _ \<Rightarrow> ?e\<lparr>ae_conn := None\<rparr>)"])
        (use stopping AtTop n in \<open>auto simp: account_top_def closeConnection_def defs split: option.split\<close>)
  next
    case AtConnect
    show ?thesis
      by (rule step [OF pool_step.connect [OF n AtConnect, of _ "Inl (errors_New (SyncErr SyncIdleNotSupported) [])"],
            of "go GoroutineDone ?e"]) (use AtConnect in \<open>simp_all add: account_connected_def defs\<close>)
  next
    case AtBackoff
    show ?thesis
      by (rule step [OF pool_step.backoff_stop [OF n AtBackoff stopping], of "go GoroutineDone ?e"])
        (use AtBackoff in \<open>simp_all add: defs\<close>)
  next
    case (AtForward k)
    show ?thesis
      by (rule step [OF pool_step.forward_stop [OF n AtForward stopping], of "go AtLeave ?e"])
        (use AtForward in \<open>simp_all add: forward_close_def defs\<close>)
  next
    case (AtCheck event k)
    show ?thesis
      by (rule step [OF pool_step.check [OF n AtCheck], of "go AtLeave ?e"])
        (use AtCheck c in \<open>simp_all add: forward_check_def defs\<close>)
  next
    case (AtSendEvent event k)
    show ?thesis
      by (rule step [OF pool_step.send [OF n AtSendEvent], of "go (AtForward k) ?e"])
        (use AtSendEvent in \<open>simp_all add: forward_send_def try_send_def defs\<close>)
  next
    case AtLeave
    show ?thesis
      by (rule step [OF pool_step.leave [OF n AtLeave], of "?e\<lparr>ae_conn := None, ae_pc := AtTop\<rparr>"])
        (use AtLeave in \<open>simp_all add: defs\<close>)
  qed (use pc in simp)
qed

lemma pool_drains:
  assumes "ip_closed q" and "ip_cancelled q" and "ip_removing q = []"
  shows "\<exists>q'. pool_goroutine\<^sup>*\<^sup>* q q' \<and> (\<forall>e\<in>set (ip_entries q'). ae_pc e = GoroutineDone)"
  using assms
proof (induction "pool_rank q" arbitrary: q rule: less_induct)
  case less
  show ?case
  proof (cases "\<forall>e\<in>set (ip_entries q). ae_pc e = GoroutineDone")
    case False
    then obtain n where n: "n < length (ip_entries q)" "ae_pc (ip_entries q ! n) \<noteq> GoroutineDone"
      by (auto simp: in_set_conv_nth)
    from pool_progress [OF less(2,3) n] obtain q' where q': "pool_goroutine q q'" "pool_rank q' < pool_rank q" by blast
    have "ip_closed q'" using q'(1) less(2) by (simp add: pool_goroutine_def)
    with less.hyps [OF q'(2)] pool_goroutine_same [OF q'(1) less(4)] less(3)
    obtain q2 where "pool_goroutine\<^sup>*\<^sup>* q' q2" "\<forall>e\<in>set (ip_entries q2). ae_pc e = GoroutineDone" by auto
    with q'(1) show ?thesis by (meson converse_rtranclp_into_rtranclp)
  qed blast
qed

fun poller_pc_rank :: "poller_pc \<Rightarrow> nat" where
  "poller_pc_rank Returned = 0" | "poller_pc_rank AtSelect = 1" | "poller_pc_rank AtPoll = 2"
| "poller_pc_rank (AtSend k) = 2" | "poller_pc_rank (AtEmit k) = 3"

definition poller_rank :: "Poller \<Rightarrow> nat" where
  "poller_rank q = sum_list (map (\<lambda>e. poller_pc_rank (ple_pc e)) (pl_entries q))"

lemma poller_progress:
  assumes c: "pl_closed q" "pl_cancelled q" and n: "n < length (pl_entries q)" and pc: "ple_pc (pl_entries q ! n) \<noteq> Returned"
  shows "\<exists>q'. poller_goroutine q q' \<and> poller_rank q' < poller_rank q"
proof -
  have step: ?thesis
    if "poller_step True q q'" "pl_accounts q' = pl_accounts q" "pl_closed q' = pl_closed q" "pl_closing q' = pl_closing q"
      "length (ch_buf (pl_events q)) \<le> length (ch_buf (pl_events q'))" "pl_entries q' = (pl_entries q)[n := e]"
      "poller_pc_rank (ple_pc e) < poller_pc_rank (ple_pc (pl_entries q ! n))" for q' e
    using that sum_list_update_less [OF n that(7)] by (auto simp: poller_goroutine_def poller_rank_def)
  let ?e = "pl_entries q ! n"
  note defs = set_entry_def goto_pc_def
  show ?thesis
  proof (cases "ple_pc ?e")
    case AtPoll
    obtain e where e: "poll (Inl (errors_New Other [])) ?e = (e, None)" by (auto simp: poll_def)
    show ?thesis
      by (rule step [OF poller_step.polled [OF n AtPoll e], of "e\<lparr>ple_pc := AtSelect\<rparr>"])
        (use AtPoll in \<open>simp_all add: defs\<close>)
  next
    case AtSelect
    show ?thesis
      by (rule step [OF poller_step.return [OF n AtSelect disjI2 [OF c(2)]], of "?e\<lparr>ple_pc := Returned\<rparr>"])
        (use AtSelect in \<open>simp_all add: defs\<close>)
  next
    case (AtEmit k)
    show ?thesis
      by (rule step [OF poller_step.emit [OF n AtEmit], of "?e\<lparr>ple_pc := AtSelect\<rparr>"])
        (use AtEmit c in \<open>simp_all add: defs\<close>)
  next
    case (AtSend k)
    show ?thesis
      by (rule step [OF poller_step.send [OF n AtSend], of "?e\<lparr>ple_pc := AtSelect\<rparr>"])
        (use AtSend in \<open>simp_all add: defs try_send_def\<close>)
  qed (use pc in simp)
qed

lemma poller_drains:
  assumes "pl_closed q" and "pl_cancelled q" and "pl_removing q = []"
  shows "\<exists>q'. poller_goroutine\<^sup>*\<^sup>* q q' \<and> (\<forall>e\<in>set (pl_entries q'). ple_pc e = Returned)"
  using assms
proof (induction "poller_rank q" arbitrary: q rule: less_induct)
  case less
  show ?case
  proof (cases "\<forall>e\<in>set (pl_entries q). ple_pc e = Returned")
    case False
    then obtain n where n: "n < length (pl_entries q)" "ple_pc (pl_entries q ! n) \<noteq> Returned"
      by (auto simp: in_set_conv_nth)
    from poller_progress [OF less(2,3) n] obtain q' where q': "poller_goroutine q q'" "poller_rank q' < poller_rank q" by blast
    have "pl_closed q'" using q'(1) less(2) by (simp add: poller_goroutine_def)
    with less.hyps [OF q'(2)] poller_goroutine_same [OF q'(1) less(4)] less(3)
    obtain q2 where "poller_goroutine\<^sup>*\<^sup>* q' q2" "\<forall>e\<in>set (pl_entries q2). ple_pc e = Returned" by auto
    with q'(1) show ?thesis by (meson converse_rtranclp_into_rtranclp)
  qed blast
qed

lemma pool_runs:
  "pool_goroutine\<^sup>*\<^sup>* (co_pool (pg_coordinator p)) q \<Longrightarrow>
     program_step\<^sup>*\<^sup>* (p, w) (p\<lparr>pg_coordinator := (pg_coordinator p)\<lparr>co_pool := q\<rparr>\<rparr>, w)"
proof (induction rule: rtranclp_induct)
  case (step q q')
  let ?p = "p\<lparr>pg_coordinator := (pg_coordinator p)\<lparr>co_pool := q\<rparr>\<rparr>"
  have "program_step (?p, w) (?p\<lparr>pg_coordinator := (pg_coordinator ?p)\<lparr>co_pool := q'\<rparr>\<rparr>, w)"
    by (rule program_step.pool) (simp add: step(2))
  with step(3) show ?case by (simp add: rtranclp.rtrancl_into_rtrancl)
qed simp

lemma poller_runs:
  "poller_goroutine\<^sup>*\<^sup>* (co_poller (pg_coordinator p)) q \<Longrightarrow>
     program_step\<^sup>*\<^sup>* (p, w) (p\<lparr>pg_coordinator := (pg_coordinator p)\<lparr>co_poller := q\<rparr>\<rparr>, w)"
proof (induction rule: rtranclp_induct)
  case (step q q')
  let ?p = "p\<lparr>pg_coordinator := (pg_coordinator p)\<lparr>co_poller := q\<rparr>\<rparr>"
  have "program_step (?p, w) (?p\<lparr>pg_coordinator := (pg_coordinator ?p)\<lparr>co_poller := q'\<rparr>\<rparr>, w)"
    by (rule program_step.poller) (simp add: step(2))
  with step(3) show ?case by (simp add: rtranclp.rtrancl_into_rtrancl)
qed simp

lemma loop_ended:
  "\<not> co_poolLoop c \<Longrightarrow> c\<lparr>co_poolLoop := False\<rparr> = c" "\<not> co_pollerLoop c \<Longrightarrow> c\<lparr>co_pollerLoop := False\<rparr> = c"
  by (cases c; simp)+

lemma loops_run:
  assumes "co_cancelled (pg_coordinator p)"
  shows "program_step\<^sup>*\<^sup>* (p, w) (p\<lparr>pg_coordinator := (pg_coordinator p)\<lparr>co_poolLoop := False, co_pollerLoop := False\<rparr>\<rparr>, w)"
proof -
  let ?p = "p\<lparr>pg_coordinator := (pg_coordinator p)\<lparr>co_poolLoop := False\<rparr>\<rparr>"
  have pool: "program_step\<^sup>*\<^sup>* (p, w) (?p, w)"
  proof (cases "co_poolLoop (pg_coordinator p)")
    case True
    with program_step.pool_event [of p True] assms show ?thesis by (simp add: processPoolEvent_def r_into_rtranclp)
  qed (simp add: loop_ended)
  have poller: "program_step\<^sup>*\<^sup>* (?p, w) (?p\<lparr>pg_coordinator := (pg_coordinator ?p)\<lparr>co_pollerLoop := False\<rparr>\<rparr>, w)"
  proof (cases "co_pollerLoop (pg_coordinator ?p)")
    case True
    with program_step.poller_event [of ?p True] assms show ?thesis by (simp add: processPollerEvent_def r_into_rtranclp)
  next
    case False
    have "?p\<lparr>pg_coordinator := (pg_coordinator ?p)\<lparr>co_pollerLoop := False\<rparr>\<rparr> = ?p" by (simp only: loop_ended(2) [OF False]) simp
    then show ?thesis by simp
  qed
  from rtranclp_trans [OF pool poller] show ?thesis by simp
qed

lemma sync_ok_run: "program_step\<^sup>*\<^sup>* x y \<Longrightarrow> sync_ok (fst x) \<Longrightarrow> sync_ok (fst y)"
  by (induction rule: rtranclp_induct) (simp_all add: sync_ok_step)

lemma shutdown_rank:
  "shutdown_step (pg_lifecycle p) p = Some p' \<Longrightarrow> rank (pg_lifecycle p') = Suc (rank (pg_lifecycle p))"
  by (cases "pg_lifecycle p") (auto simp: Let_def split: option.splits if_splits)

text \<open>Before a stage that waits, the goroutines are let run until they have returned.\<close>

lemma stage_drains:
  assumes ok: "sync_ok p" and "pg_lifecycle p \<noteq> Exited"
  shows "\<exists>p1. program_step\<^sup>*\<^sup>* (p, w) (p1, w) \<and> pg_lifecycle p1 = pg_lifecycle p \<and> shutdown_step (pg_lifecycle p) p1 \<noteq> None"
proof (cases "pg_lifecycle p")
  case ClosingPool
  let ?q = "co_pool (pg_coordinator p)"
  have "ip_closed ?q" "ip_cancelled ?q" "ip_removing ?q = []" using ok ClosingPool by (simp_all add: sync_ok_def stage_ok_def)
  from pool_drains [OF this] obtain q where run: "pool_goroutine\<^sup>*\<^sup>* ?q q" and all_done: "\<forall>e\<in>set (ip_entries q). ae_pc e = GoroutineDone"
    by blast
  let ?p1 = "p\<lparr>pg_coordinator := (pg_coordinator p)\<lparr>co_pool := q\<rparr>\<rparr>"
  have run1: "program_step\<^sup>*\<^sup>* (p, w) (?p1, w)" by (rule pool_runs [OF run])
  have "sync_ok ?p1" using sync_ok_run [OF run1] ok by simp
  then obtain ns where "ip_closing q = Some ns" "\<forall>n\<in>set ns. n < length (ip_entries q)"
    using ClosingPool by (auto simp: sync_ok_def stage_ok_def)
  with all_done have "shutdown_step ClosingPool ?p1 \<noteq> None" by (simp add: Let_def list_all_iff)
  with run1 ClosingPool show ?thesis by (intro exI [of _ ?p1]) simp
next
  case ClosingPoller
  let ?q = "co_poller (pg_coordinator p)"
  have "pl_closed ?q" "pl_cancelled ?q" "pl_removing ?q = []" using ok ClosingPoller by (simp_all add: sync_ok_def stage_ok_def)
  from poller_drains [OF this] obtain q where run: "poller_goroutine\<^sup>*\<^sup>* ?q q" and all_done: "\<forall>e\<in>set (pl_entries q). ple_pc e = Returned"
    by blast
  let ?p1 = "p\<lparr>pg_coordinator := (pg_coordinator p)\<lparr>co_poller := q\<rparr>\<rparr>"
  have run1: "program_step\<^sup>*\<^sup>* (p, w) (?p1, w)" by (rule poller_runs [OF run])
  have ok1: "sync_ok ?p1" using sync_ok_run [OF run1] ok by simp
  then have "(poller_step True)\<^sup>*\<^sup>* (NewPoller sync_DefaultPollInterval) q" by (simp add: sync_ok_def)
  then have "poller_ok q" by (rule poller.reachable_ok)
  with ok1 obtain ns where "pl_closing q = Some ns" "\<forall>n\<in>set ns. n < length (pl_entries q)"
    using ClosingPoller by (auto simp: sync_ok_def stage_ok_def poller_ok_def)
  with all_done have "shutdown_step ClosingPoller ?p1 \<noteq> None" by (simp add: Let_def list_all_iff)
  with run1 ClosingPoller show ?thesis by (intro exI [of _ ?p1]) simp
next
  case WaitingLoops
  let ?p1 = "p\<lparr>pg_coordinator := (pg_coordinator p)\<lparr>co_poolLoop := False, co_pollerLoop := False\<rparr>\<rparr>"
  have "co_cancelled (pg_coordinator p)" using ok WaitingLoops by (simp add: sync_ok_def stage_ok_def)
  then have "program_step\<^sup>*\<^sup>* (p, w) (?p1, w)" by (rule loops_run)
  with WaitingLoops show ?thesis by (intro exI [of _ ?p1]) simp
qed (use assms in \<open>auto simp: Let_def\<close>)

lemma stage_progress:
  assumes "sync_ok p" and "pg_lifecycle p \<noteq> Exited"
  shows "\<exists>p'. program_step\<^sup>*\<^sup>* (p, w) (p', w) \<and> sync_ok p' \<and> rank (pg_lifecycle p') = Suc (rank (pg_lifecycle p))"
proof -
  obtain p1 p' where run: "program_step\<^sup>*\<^sup>* (p, w) (p1, w)" and l: "pg_lifecycle p1 = pg_lifecycle p"
    and step: "shutdown_step (pg_lifecycle p1) p1 = Some p'"
    using stage_drains [OF assms, of w] by fastforce
  have "program_step (p1, w) (p', w)" by (rule program_step.shutdown [OF step])
  with run have "program_step\<^sup>*\<^sup>* (p, w) (p', w)" by (rule rtranclp.rtrancl_into_rtrancl)
  with sync_ok_run [OF this] assms(1) shutdown_rank [OF step] l show ?thesis by auto
qed

lemma stages_complete:
  "sync_ok p \<Longrightarrow> \<exists>p'. program_step\<^sup>*\<^sup>* (p, w) (p', w) \<and> pg_lifecycle p' = Exited"
proof (induction "8 - rank (pg_lifecycle p)" arbitrary: p rule: less_induct)
  case less
  show ?case
  proof (cases "pg_lifecycle p = Exited")
    case False
    from stage_progress [OF less(2) False] obtain p' where
      p': "program_step\<^sup>*\<^sup>* (p, w) (p', w)" "sync_ok p'" "rank (pg_lifecycle p') = Suc (rank (pg_lifecycle p))" by blast
    have "rank (pg_lifecycle p) < 8" using False by (cases "pg_lifecycle p") simp_all
    then have "8 - rank (pg_lifecycle p') < 8 - rank (pg_lifecycle p)" using p'(3) by simp
    from less.hyps [OF this p'(2)] p'(1) show ?thesis by (meson rtranclp_trans)
  qed blast
qed


section \<open>A concrete start\<close>

definition demo_main_config :: Config where
  "demo_main_config = \<lparr>cfg_Port = ''8080'', cfg_DatabaseURL = ''postgres'', cfg_EncryptionKey = replicate 64 (CHR ''0''),
     cfg_APIKey = ''secret'', cfg_S3Endpoint = ''http://s3'', cfg_S3Bucket = ''b'', cfg_S3AccessKey = ''k'', cfg_S3SecretKey = ''s'',
     cfg_S3Region = ''auto'', cfg_LogLevel = ''info'', cfg_LogFormat = ''json'', cfg_encryptionKeyBytes = []\<rparr>"

definition demo_environment :: environment where
  "demo_environment = \<lparr>env_ext = demo_externals, env_config = Inr demo_main_config, env_pgxpool_New = (\<lambda>_. Inr ()),
     env_presigner = (\<lambda>_ b k t. Inr k), env_imap = demo_net [7], env_smtp = demo_smtp, env_mailer = ap_mailer demo_api,
     env_read_envelope = (\<lambda>_. Inr demo_envelope), env_marshal = (\<lambda>_. Inr ''{}''), env_new_request = (\<lambda>_. Inr ()),
     env_endpoint = (\<lambda>_. Inr 200), env_chi = demo_chi, env_fts = (\<lambda>_. Inr (\<lambda>_. True)), env_zone = (\<lambda>_. 0),
     env_parse_RFC3339 = (\<lambda>_. None), env_validate_account = (\<lambda>_. Valid), env_validate_webhook = (\<lambda>_. Valid),
     env_validate_message = (\<lambda>_. Valid)\<rparr>"

lemma demo_startup: "\<exists>p. startup demo_environment (demo_world empty_db) = (Inr p, demo_world empty_db)"
proof -
  have key: "hex_DecodeString (replicate 64 (CHR ''0'')) = Some (replicate 32 (CHR 0x00))" by code_simp
  then obtain cfg where "Load (Inr demo_main_config) = Inr cfg" "length (EncryptionKeyBytes cfg) = 32"
    and fields: "cfg_APIKey cfg = ''secret''" "cfg_DatabaseURL cfg = ''postgres''" "s3_config cfg = s3_config demo_main_config"
    by (auto simp: Load_def demo_main_config_def EncryptionKeyBytes_def s3_config_def)
  then show ?thesis
    by (simp add: startup_def demo_environment_def db_Ping_def call_healthy NewAccountRepository_def NewWebhookRepository_def
        NewS3Storage_def s3_config_def demo_main_config_def Let_def)
qed

theorem program_safe_witness:
  "\<exists>p p'. startup demo_environment (demo_world empty_db) = (Inr p, demo_world empty_db)
     \<and> program_step\<^sup>*\<^sup>* (p, demo_world empty_db) (p', demo_world empty_db) \<and> pg_lifecycle p' = Exited
     \<and> wk_running (pg_worker p') = 0"
proof -
  obtain p where start: "startup demo_environment (demo_world empty_db) = (Inr p, demo_world empty_db)"
    using demo_startup by blast
  obtain p' where run: "program_step\<^sup>*\<^sup>* (p, demo_world empty_db) (p', demo_world empty_db)" "pg_lifecycle p' = Exited"
    using stages_complete startup_ok(2) [OF start] by blast
  have "db_inv empty_db \<and> attempts_ok DefaultMaxRetries empty_db"
    by (simp add: db_inv_def keys_unique_def references_ok_def status_ok_def empty_db_def attempts_ok_def)
  then have tables: "winv (\<lambda>d. db_inv d \<and> attempts_ok DefaultMaxRetries d) (demo_world empty_db)"
    by (simp add: winv_def)
  from program_safe [OF start tables run(1)] start run show ?thesis by blast
qed


end
